(* ===== verification/Prelude.thy ===== *)
theory Prelude
  imports Main "HOL-Library.Word" "HOL-Library.FSet" "HOL-Library.Finite_Map"
begin

text \<open>
  Types and helpers shared by every component: the machine integers of the Rust code, the
  \<open>Result\<close> monad behind the \<open>?\<close> operator, checked and saturating integer operations of the
  Rust standard library, slices, and the big-endian byte representation of words
  (\<open>to_be_bytes\<close> and \<open>from_be_bytes\<close>) with its two round trips.  The locale
  \<open>prefix_code\<close> at the end is the contract every serialiser of the crate keeps.
\<close>

unbundle bit_operations_syntax

type_synonym u8 = "8 word"
type_synonym u16 = "16 word"
type_synonym u32 = "32 word"
type_synonym u64 = "64 word"
type_synonym u128 = "128 word"
type_synonym bytes = "u8 list"

named_theorems invs "unfolding rules of the invariants"

section \<open>Results\<close>

text \<open>A Rust \<open>Result\<close> is a sum with \<open>Inl\<close> the error; \<open>bindE\<close> is the \<open>?\<close> operator.\<close>

definition bindE :: "'e + 'a \<Rightarrow> ('a \<Rightarrow> 'e + 'b) \<Rightarrow> 'e + 'b" where
  "bindE r f = (case r of Inl e \<Rightarrow> Inl e | Inr x \<Rightarrow> f x)"

lemma bindE_simps [simp]:
  "bindE (Inl e) f = Inl e"
  "bindE (Inr x) f = f x"
  by (simp_all add: bindE_def)

lemma bindE_Inr_iff [simp]:
  "(bindE r f = Inr y) \<longleftrightarrow> (\<exists>x. r = Inr x \<and> f x = Inr y)"
  by (cases r) auto

lemma bindE_Inl_iff:
  "(bindE r f = Inl e) \<longleftrightarrow> (r = Inl e \<or> (\<exists>x. r = Inr x \<and> f x = Inl e))"
  by (cases r) auto

lemma bindE_cong [fundef_cong]:
  "r = r' \<Longrightarrow> (\<And>x. r' = Inr x \<Longrightarrow> f x = f' x) \<Longrightarrow> bindE r f = bindE r' f'"
  by (cases r') auto

lemma bindE_assoc: "bindE (bindE r f) g = bindE r (\<lambda>x. bindE (f x) g)"
  by (cases r) auto

section \<open>Checked and saturating arithmetic of the standard library\<close>

definition checked_add :: "'a::len word \<Rightarrow> 'a word \<Rightarrow> 'a word option" where
  "checked_add x y = (if unat x + unat y < 2 ^ LENGTH('a) then Some (x + y) else None)"

definition checked_sub :: "'a::len word \<Rightarrow> 'a word \<Rightarrow> 'a word option" where
  "checked_sub x y = (if y \<le> x then Some (x - y) else None)"

definition checked_mul :: "'a::len word \<Rightarrow> 'a word \<Rightarrow> 'a word option" where
  "checked_mul x y = (if unat x * unat y < 2 ^ LENGTH('a) then Some (x * y) else None)"

definition checked_div :: "'a::len word \<Rightarrow> 'a word \<Rightarrow> 'a word option" where
  "checked_div x y = (if y = 0 then None else Some (x div y))"

definition checked_rem :: "'a::len word \<Rightarrow> 'a word \<Rightarrow> 'a word option" where
  "checked_rem x y = (if y = 0 then None else Some (x mod y))"

definition saturating_add :: "'a::len word \<Rightarrow> 'a word \<Rightarrow> 'a word" where
  "saturating_add x y = (if unat x + unat y < 2 ^ LENGTH('a) then x + y else - 1)"

definition saturating_sub :: "'a::len word \<Rightarrow> 'a word \<Rightarrow> 'a word" where
  "saturating_sub x y = (if y \<le> x then x - y else 0)"

definition saturating_mul :: "'a::len word \<Rightarrow> 'a word \<Rightarrow> 'a word" where
  "saturating_mul x y = (if unat x * unat y < 2 ^ LENGTH('a) then x * y else - 1)"

lemma unat_bound [simp]: "unat (x :: 'a::len word) < 2 ^ LENGTH('a)"
  by simp

lemma unat_add_no_wrap:
  "unat x + unat y < 2 ^ LENGTH('a) \<Longrightarrow> unat (x + y :: 'a::len word) = unat x + unat y"
  by (simp add: unat_word_ariths)

lemma unat_mul_no_wrap:
  "unat x * unat y < 2 ^ LENGTH('a) \<Longrightarrow> unat (x * y :: 'a::len word) = unat x * unat y"
  by (simp add: unat_word_ariths)

lemma checked_add_Some_iff:
  "checked_add x y = Some z \<longleftrightarrow> unat z = unat x + unat (y :: 'a::len word)"
proof
  assume "checked_add x y = Some z"
  then show "unat z = unat x + unat y"
    by (auto simp: checked_add_def unat_add_no_wrap split: if_splits)
next
  assume z: "unat z = unat x + unat y"
  then have "unat x + unat y < 2 ^ LENGTH('a)"
    by (metis unat_bound)
  then show "checked_add x y = Some z"
    using z by (simp add: checked_add_def unat_add_no_wrap word_unat_eq_iff)
qed

lemma checked_mul_Some_iff:
  "checked_mul x y = Some z \<longleftrightarrow> unat z = unat x * unat (y :: 'a::len word)"
proof
  assume "checked_mul x y = Some z"
  then show "unat z = unat x * unat y"
    by (auto simp: checked_mul_def unat_mul_no_wrap split: if_splits)
next
  assume z: "unat z = unat x * unat y"
  then have "unat x * unat y < 2 ^ LENGTH('a)"
    by (metis unat_bound)
  then show "checked_mul x y = Some z"
    using z by (simp add: checked_mul_def unat_mul_no_wrap word_unat_eq_iff)
qed

lemma unat_saturating_mul:
  "unat (saturating_mul x y :: 'a::len word) = min (unat x * unat y) (2 ^ LENGTH('a) - 1)"
proof (cases "unat x * unat y < 2 ^ LENGTH('a)")
  case True
  then have "unat x * unat y \<le> 2 ^ LENGTH('a) - 1"
    by linarith
  with True show ?thesis
    by (simp add: saturating_mul_def unat_mul_no_wrap min_absorb1)
next
  case False
  then have "2 ^ LENGTH('a) - 1 \<le> unat x * unat y"
    by linarith
  with False show ?thesis
    by (simp add: saturating_mul_def unsigned_minus_1_eq_mask mask_eq_exp_minus_1 min_absorb2)
qed

lemma unat_saturating_add:
  "unat (saturating_add x y :: 'a::len word) = min (unat x + unat y) (2 ^ LENGTH('a) - 1)"
  by (auto simp: saturating_add_def unat_add_no_wrap unsigned_minus_1_eq_mask mask_eq_exp_minus_1 min_def)

lemma unat_saturating_sub:
  "unat (saturating_sub x y :: 'a::len word) = unat x - unat y"
  by (auto simp: saturating_sub_def unat_sub word_le_nat_alt)

section \<open>Slices\<close>

text \<open>\<open>slice.get(start..end)\<close>: the range is in bounds or there is no slice.\<close>

definition slice_get :: "'a list \<Rightarrow> nat \<Rightarrow> nat \<Rightarrow> 'a list option" where
  "slice_get xs i j = (if i \<le> j \<and> j \<le> length xs then Some (take (j - i) (drop i xs)) else None)"

lemma slice_get_Some_length: "slice_get xs i j = Some ys \<Longrightarrow> length ys = j - i"
  by (auto simp: slice_get_def split: if_splits)

text \<open>\<open>copy_from_slice\<close> into the range starting at \<open>i\<close>.\<close>

definition copy_into :: "'a list \<Rightarrow> nat \<Rightarrow> 'a list \<Rightarrow> 'a list" where
  "copy_into xs i ys = take i xs @ ys @ drop (i + length ys) xs"

lemma length_copy_into [simp]: "i + length ys \<le> length xs \<Longrightarrow> length (copy_into xs i ys) = length xs"
  by (simp add: copy_into_def)

lemma copy_into_same: "i + length ys \<le> length xs \<Longrightarrow> take (length ys) (drop i (copy_into xs i ys)) = ys"
  by (simp add: copy_into_def)

lemma copy_into_before:
  assumes "i + length ys \<le> length xs" and "j + n \<le> i"
  shows "take n (drop j (copy_into xs i ys)) = take n (drop j xs)"
proof -
  have "take (j + n) (copy_into xs i ys) = take (j + n) xs"
    using assms by (simp add: copy_into_def min_def)
  then have "drop j (take (j + n) (copy_into xs i ys)) = drop j (take (j + n) xs)"
    by simp
  then show ?thesis
    by (simp add: drop_take)
qed

lemma copy_into_after:
  assumes "i + length ys \<le> length xs" and "i + length ys \<le> j"
  shows "drop j (copy_into xs i ys) = drop j xs"
proof -
  have "length (take i xs @ ys) = i + length ys"
    using assms by simp
  then have "drop j (copy_into xs i ys) = drop (j - (i + length ys)) (drop (i + length ys) xs)"
    using assms(2) by (simp add: copy_into_def)
  then show ?thesis
    using assms(2) by simp
qed

section \<open>Big-endian bytes of a word\<close>

text \<open>
  \<open>to_be n w\<close> is \<open>to_be_bytes\<close> of a word of \<open>n\<close> bytes, most significant byte first;
  \<open>from_be\<close> is \<open>from_be_bytes\<close>.
\<close>

fun to_be :: "nat \<Rightarrow> 'a::len word \<Rightarrow> bytes" where
  "to_be 0 w = []"
| "to_be (Suc n) w = to_be n (drop_bit 8 w) @ [ucast w]"

definition from_be :: "bytes \<Rightarrow> 'a::len word" where
  "from_be bs = foldl (\<lambda>acc b. push_bit 8 acc + ucast b) 0 bs"

lemma length_to_be [simp]: "length (to_be n w) = n"
  by (induction n arbitrary: w) auto

lemma from_be_snoc: "from_be (bs @ [b]) = push_bit 8 (from_be bs) + ucast b"
  by (simp add: from_be_def)

lemma from_be_Nil [simp]: "from_be [] = 0"
  by (simp add: from_be_def)

lemma unat_ucast_u8: "unat (ucast (w :: 'a::len word) :: u8) = unat w mod 256"
  by (simp add: unsigned_ucast_eq take_bit_eq_mod)

lemma unat_drop_8: "unat (drop_bit 8 (w :: 'a::len word)) = unat w div 256"
  by (simp only: unat_drop_bit_eq) (simp add: drop_bit_eq_div)

lemma of_nat_unat_ucast: "(of_nat (unat (b :: 'b::len word)) :: 'a::len word) = ucast b"
  by (simp add: word_unat_eq_iff unsigned_of_nat unsigned_ucast_eq)

text \<open>The value of a byte string, and the conversions read through it.\<close>

fun be_val :: "nat \<Rightarrow> bytes \<Rightarrow> nat" where
  "be_val acc [] = acc"
| "be_val acc (b # bs) = be_val (acc * 256 + unat b) bs"

lemma be_val_append: "be_val acc (xs @ ys) = be_val (be_val acc xs) ys"
  by (induction xs arbitrary: acc) auto

lemma be_val_bound: "be_val acc bs < (acc + 1) * 256 ^ length bs"
proof (induction bs arbitrary: acc)
  case Nil
  then show ?case by simp
next
  case (Cons b bs)
  have b: "unat b < 256"
    using unat_bound [of b] by simp
  have "be_val acc (b # bs) < (acc * 256 + unat b + 1) * 256 ^ length bs"
    using Cons.IH [of "acc * 256 + unat b"] by simp
  also have "\<dots> \<le> ((acc + 1) * 256) * 256 ^ length bs"
    using b by (intro mult_le_mono1) simp
  finally show ?case
    by (simp add: algebra_simps)
qed

lemma be_val_to_be: "be_val 0 (to_be n w) = unat w mod 256 ^ n"
proof (induction n arbitrary: w)
  case 0
  then show ?case by simp
next
  case (Suc n)
  have "be_val 0 (to_be (Suc n) w) = (unat w div 256 mod 256 ^ n) * 256 + unat w mod 256"
    by (simp add: be_val_append Suc.IH unat_ucast_u8 unat_drop_8)
  also have "\<dots> = unat w mod 256 ^ Suc n"
    by (simp add: mod_mult2_eq mult.commute)
  finally show ?case .
qed

lemma unat_push_add_8:
  "unat (push_bit 8 (w :: 'a::len word) + ucast (b :: u8)) = (unat w * 256 + unat b) mod 2 ^ LENGTH('a)"
proof -
  have "push_bit 8 w + ucast b = (of_nat (unat w * 256 + unat b) :: 'a word)"
    by (simp add: push_bit_eq_mult of_nat_unat_ucast)
  then have "unat (push_bit 8 w + ucast b) = unat (of_nat (unat w * 256 + unat b) :: 'a word)"
    by (simp only:)
  then show ?thesis
    by (simp only: unsigned_of_nat take_bit_eq_mod of_nat_id)
qed

lemma unat_from_be: "unat (from_be bs :: 'a::len word) = be_val 0 bs mod 2 ^ LENGTH('a)"
proof (induction bs rule: rev_induct)
  case Nil
  then show ?case by simp
next
  case (snoc b bs)
  have "unat (from_be (bs @ [b]) :: 'a word) = (be_val 0 bs mod 2 ^ LENGTH('a) * 256 + unat b) mod 2 ^ LENGTH('a)"
    by (simp add: from_be_snoc unat_push_add_8 snoc.IH)
  also have "\<dots> = (be_val 0 bs * 256 + unat b) mod 2 ^ LENGTH('a)"
    by (intro mod_add_cong mod_mult_cong) simp_all
  finally show ?case
    by (simp add: be_val_append)
qed

theorem from_be_to_be:
  "LENGTH('a) \<le> 8 * n \<Longrightarrow> from_be (to_be n w) = (w :: 'a::len word)"
proof -
  assume n: "LENGTH('a) \<le> 8 * n"
  have "(256 :: nat) ^ n = 2 ^ (8 * n)"
    by (simp add: power_mult)
  moreover have "(2 :: nat) ^ LENGTH('a) \<le> 2 ^ (8 * n)"
    using n by (intro power_increasing) simp_all
  ultimately have "unat w < 256 ^ n"
    using unat_bound [of w] by linarith
  then show ?thesis
    by (simp add: word_unat_eq_iff unat_from_be be_val_to_be)
qed

lemma be_val_inject:
  "length xs = length ys \<Longrightarrow> be_val 0 xs = be_val 0 ys \<Longrightarrow> xs = ys"
proof (induction xs arbitrary: ys rule: rev_induct)
  case Nil
  then show ?case by simp
next
  case (snoc x xs)
  then obtain zs z where ys: "ys = zs @ [z]"
    by (cases ys rule: rev_cases) auto
  have eq: "be_val 0 xs * 256 + unat x = be_val 0 zs * 256 + unat z"
    using snoc.prems ys by (simp add: be_val_append)
  have xz: "unat x < 256" "unat z < 256"
    using unat_bound [of x] unat_bound [of z] by simp_all
  have "be_val 0 xs = be_val 0 zs"
    using arg_cong [OF eq, of "\<lambda>n. n div 256"] xz by simp
  moreover have "unat x = unat z"
    using eq calculation by simp
  ultimately show ?case
    using snoc ys by (simp add: word_unat_eq_iff)
qed

theorem to_be_from_be:
  "8 * length bs \<le> LENGTH('a) \<Longrightarrow> to_be (length bs) (from_be bs :: 'a::len word) = bs"
proof -
  assume n: "8 * length bs \<le> LENGTH('a)"
  have "be_val 0 bs < 256 ^ length bs"
    using be_val_bound [of 0 bs] by simp
  moreover have "(256 :: nat) ^ length bs = 2 ^ (8 * length bs)"
    by (simp add: power_mult)
  moreover have "(2 :: nat) ^ (8 * length bs) \<le> 2 ^ LENGTH('a)"
    using n by (intro power_increasing) simp_all
  ultimately have "be_val 0 bs < 2 ^ LENGTH('a)" and "be_val 0 bs < 256 ^ length bs"
    by linarith+
  then show ?thesis
    by (intro be_val_inject) (simp_all add: be_val_to_be unat_from_be)
qed

lemma to_be_inject:
  "LENGTH('a) \<le> 8 * n \<Longrightarrow> to_be n (v :: 'a::len word) = to_be n w \<longleftrightarrow> v = w"
  by (metis from_be_to_be)

section \<open>The contract of a serialiser\<close>

text \<open>
  Every encoder of the crate writes its value so that the bytes that follow can be told
  apart from it: no encoding is a proper prefix of another.  Clients concatenate such
  encodings; the lemmas say that a concatenation, and a run of a known number of items,
  is read in one way only.
\<close>

locale prefix_code =
  fixes enc :: "'a \<Rightarrow> bytes" and ok :: "'a \<Rightarrow> bool"
  assumes prefix: "ok x \<Longrightarrow> ok y \<Longrightarrow> enc x @ r = enc y @ s \<Longrightarrow> x = y \<and> r = s"
begin

lemma inject: "ok x \<Longrightarrow> ok y \<Longrightarrow> enc x = enc y \<Longrightarrow> x = y"
  using prefix [of x y "[]" "[]"] by simp

lemma items:
  assumes "list_all ok xs" and "list_all ok ys" and "length xs = length ys"
    and "concat (map enc xs) @ r = concat (map enc ys) @ s"
  shows "xs = ys \<and> r = s"
  using assms
proof (induction xs arbitrary: ys)
  case Nil
  then show ?case by simp
next
  case (Cons x xs)
  then obtain y zs where ys: "ys = y # zs"
    by (cases ys) auto
  have "enc x @ (concat (map enc xs) @ r) = enc y @ (concat (map enc zs) @ s)"
    using Cons.prems ys by simp
  then have "x = y \<and> concat (map enc xs) @ r = concat (map enc zs) @ s"
    by (rule prefix [rotated 2]) (use Cons.prems ys in simp_all)
  then show ?case
    using Cons.IH [of zs] Cons.prems ys by simp
qed

end

lemma to_be_prefix:
  assumes "LENGTH('a) \<le> 8 * n" and "to_be n (v :: 'a::len word) @ r = to_be n w @ s"
  shows "v = w \<and> r = s"
  using assms to_be_inject [of n v w] by simp

interpretation u64_code: prefix_code "to_be 8 :: u64 \<Rightarrow> bytes" "\<lambda>_. True"
  by unfold_locales (rule to_be_prefix, simp_all)

interpretation u32_code: prefix_code "to_be 4 :: u32 \<Rightarrow> bytes" "\<lambda>_. True"
  by unfold_locales (rule to_be_prefix, simp_all)

end
