(* ===== verification/Isa.thy ===== *)
theory Isa
  imports Prelude
begin

text \<open>
  The instruction set of \<open>crates/qtv-vm/src/isa.rs\<close>: opcodes and their bytes, instructions
  with their operands at the width of the code, the encoder, and the decoder that reads
  through a cursor.  \<open>Instr::Not\<close> is the constructor \<open>NotW\<close>; the opcode constructors carry
  the prefix \<open>Op\<close> because the two enumerations share their names in the source.

  The lemmas show that decoding inverts encoding, that whatever decodes is the encoding of
  the instruction found, stays inside the code and names only registers of the file, and
  that the encodings form a prefix code, so a program has one reading from its start.
\<close>

definition NUM_REGS :: nat where
  "NUM_REGS = 16"

type_synonym Reg = u8

datatype (plugins only: code size) OpCode =
    OpHalt | OpNop | OpMov | OpLdi | OpLdc | OpAdd
  | OpSub | OpMul | OpDiv | OpRem | OpAddW | OpSubW
  | OpMulW | OpMulHi | OpDivW | OpRemW | OpAnd | OpOr
  | OpXor | OpNot | OpShl | OpShr | OpEq | OpLtU
  | OpGtU | OpPush | OpPop | OpMLoad | OpMStore | OpJmp
  | OpJz | OpJnz | OpCall | OpRet | OpSLoad | OpSStore
  | OpSend | OpEmit | OpHash | OpVerifyMl | OpVerifySlh | OpMerkleVerify
  | OpAddr

text \<open>The cast \<open>op as u8\<close> of the enumeration.\<close>

primrec op_byte :: "OpCode \<Rightarrow> u8" where
  "op_byte OpHalt = 0"
| "op_byte OpNop = 1"
| "op_byte OpMov = 2"
| "op_byte OpLdi = 3"
| "op_byte OpLdc = 4"
| "op_byte OpAdd = 16"
| "op_byte OpSub = 17"
| "op_byte OpMul = 18"
| "op_byte OpDiv = 19"
| "op_byte OpRem = 20"
| "op_byte OpAddW = 24"
| "op_byte OpSubW = 25"
| "op_byte OpMulW = 26"
| "op_byte OpMulHi = 27"
| "op_byte OpDivW = 28"
| "op_byte OpRemW = 29"
| "op_byte OpAnd = 32"
| "op_byte OpOr = 33"
| "op_byte OpXor = 34"
| "op_byte OpNot = 35"
| "op_byte OpShl = 36"
| "op_byte OpShr = 37"
| "op_byte OpEq = 40"
| "op_byte OpLtU = 41"
| "op_byte OpGtU = 42"
| "op_byte OpPush = 48"
| "op_byte OpPop = 49"
| "op_byte OpMLoad = 56"
| "op_byte OpMStore = 57"
| "op_byte OpJmp = 64"
| "op_byte OpJz = 65"
| "op_byte OpJnz = 66"
| "op_byte OpCall = 67"
| "op_byte OpRet = 68"
| "op_byte OpSLoad = 80"
| "op_byte OpSStore = 81"
| "op_byte OpSend = 96"
| "op_byte OpEmit = 97"
| "op_byte OpHash = 112"
| "op_byte OpVerifyMl = 113"
| "op_byte OpVerifySlh = 114"
| "op_byte OpMerkleVerify = 115"
| "op_byte OpAddr = 118"

definition from_byte :: "u8 \<Rightarrow> OpCode option" where
  "from_byte b =
    (if b = 0 then Some OpHalt
     else if b = 1 then Some OpNop
     else if b = 2 then Some OpMov
     else if b = 3 then Some OpLdi
     else if b = 4 then Some OpLdc
     else if b = 16 then Some OpAdd
     else if b = 17 then Some OpSub
     else if b = 18 then Some OpMul
     else if b = 19 then Some OpDiv
     else if b = 20 then Some OpRem
     else if b = 24 then Some OpAddW
     else if b = 25 then Some OpSubW
     else if b = 26 then Some OpMulW
     else if b = 27 then Some OpMulHi
     else if b = 28 then Some OpDivW
     else if b = 29 then Some OpRemW
     else if b = 32 then Some OpAnd
     else if b = 33 then Some OpOr
     else if b = 34 then Some OpXor
     else if b = 35 then Some OpNot
     else if b = 36 then Some OpShl
     else if b = 37 then Some OpShr
     else if b = 40 then Some OpEq
     else if b = 41 then Some OpLtU
     else if b = 42 then Some OpGtU
     else if b = 48 then Some OpPush
     else if b = 49 then Some OpPop
     else if b = 56 then Some OpMLoad
     else if b = 57 then Some OpMStore
     else if b = 64 then Some OpJmp
     else if b = 65 then Some OpJz
     else if b = 66 then Some OpJnz
     else if b = 67 then Some OpCall
     else if b = 68 then Some OpRet
     else if b = 80 then Some OpSLoad
     else if b = 81 then Some OpSStore
     else if b = 96 then Some OpSend
     else if b = 97 then Some OpEmit
     else if b = 112 then Some OpHash
     else if b = 113 then Some OpVerifyMl
     else if b = 114 then Some OpVerifySlh
     else if b = 115 then Some OpMerkleVerify
     else if b = 118 then Some OpAddr
     else None)"

datatype (plugins only: code size) Instr =
    Halt
  | Nop
  | Mov Reg Reg
  | Ldi Reg u64
  | Ldc Reg u16
  | Add Reg Reg Reg
  | Sub Reg Reg Reg
  | Mul Reg Reg Reg
  | Div Reg Reg Reg
  | Rem Reg Reg Reg
  | AddW Reg Reg Reg
  | SubW Reg Reg Reg
  | MulW Reg Reg Reg
  | MulHi Reg Reg Reg
  | DivW Reg Reg Reg Reg Reg Reg
  | RemW Reg Reg Reg Reg Reg Reg
  | And Reg Reg Reg
  | Or Reg Reg Reg
  | Xor Reg Reg Reg
  | NotW Reg Reg
  | Shl Reg Reg Reg
  | Shr Reg Reg Reg
  | Eq Reg Reg Reg
  | LtU Reg Reg Reg
  | GtU Reg Reg Reg
  | Push Reg
  | Pop Reg
  | MLoad Reg Reg
  | MStore Reg Reg
  | Jmp u32
  | Jz Reg u32
  | Jnz Reg u32
  | Call u32
  | Ret
  | SLoad Reg Reg
  | SStore Reg Reg
  | Send Reg Reg Reg
  | Emit Reg Reg Reg
  | Hash Reg Reg Reg
  | VerifyMl Reg Reg Reg
  | VerifySlh Reg Reg Reg
  | MerkleVerify Reg Reg Reg
  | Addr Reg Reg Reg

datatype DecodeError = UnknownOpcode u8 | BadRegister u8 | Truncated

primrec opcode :: "Instr \<Rightarrow> OpCode" where
  "opcode Halt = OpHalt"
| "opcode Nop = OpNop"
| "opcode (Mov _ _) = OpMov"
| "opcode (Ldi _ _) = OpLdi"
| "opcode (Ldc _ _) = OpLdc"
| "opcode (Add _ _ _) = OpAdd"
| "opcode (Sub _ _ _) = OpSub"
| "opcode (Mul _ _ _) = OpMul"
| "opcode (Div _ _ _) = OpDiv"
| "opcode (Rem _ _ _) = OpRem"
| "opcode (AddW _ _ _) = OpAddW"
| "opcode (SubW _ _ _) = OpSubW"
| "opcode (MulW _ _ _) = OpMulW"
| "opcode (MulHi _ _ _) = OpMulHi"
| "opcode (DivW _ _ _ _ _ _) = OpDivW"
| "opcode (RemW _ _ _ _ _ _) = OpRemW"
| "opcode (And _ _ _) = OpAnd"
| "opcode (Or _ _ _) = OpOr"
| "opcode (Xor _ _ _) = OpXor"
| "opcode (NotW _ _) = OpNot"
| "opcode (Shl _ _ _) = OpShl"
| "opcode (Shr _ _ _) = OpShr"
| "opcode (Eq _ _ _) = OpEq"
| "opcode (LtU _ _ _) = OpLtU"
| "opcode (GtU _ _ _) = OpGtU"
| "opcode (Push _) = OpPush"
| "opcode (Pop _) = OpPop"
| "opcode (MLoad _ _) = OpMLoad"
| "opcode (MStore _ _) = OpMStore"
| "opcode (Jmp _) = OpJmp"
| "opcode (Jz _ _) = OpJz"
| "opcode (Jnz _ _) = OpJnz"
| "opcode (Call _) = OpCall"
| "opcode Ret = OpRet"
| "opcode (SLoad _ _) = OpSLoad"
| "opcode (SStore _ _) = OpSStore"
| "opcode (Send _ _ _) = OpSend"
| "opcode (Emit _ _ _) = OpEmit"
| "opcode (Hash _ _ _) = OpHash"
| "opcode (VerifyMl _ _ _) = OpVerifyMl"
| "opcode (VerifySlh _ _ _) = OpVerifySlh"
| "opcode (MerkleVerify _ _ _) = OpMerkleVerify"
| "opcode (Addr _ _ _) = OpAddr"

text \<open>The operand bytes that \<open>encode\<close> pushes after the opcode byte.\<close>

primrec operand_bytes :: "Instr \<Rightarrow> bytes" where
  "operand_bytes Halt = []"
| "operand_bytes Nop = []"
| "operand_bytes (Mov d a) = [d, a]"
| "operand_bytes (Ldi d imm) = [d] @ to_be 8 imm"
| "operand_bytes (Ldc d idx) = [d] @ to_be 2 idx"
| "operand_bytes (Add d a b) = [d, a, b]"
| "operand_bytes (Sub d a b) = [d, a, b]"
| "operand_bytes (Mul d a b) = [d, a, b]"
| "operand_bytes (Div d a b) = [d, a, b]"
| "operand_bytes (Rem d a b) = [d, a, b]"
| "operand_bytes (AddW d a b) = [d, a, b]"
| "operand_bytes (SubW d a b) = [d, a, b]"
| "operand_bytes (MulW d a b) = [d, a, b]"
| "operand_bytes (MulHi d a b) = [d, a, b]"
| "operand_bytes (DivW dlo dhi alo ahi blo bhi) = [dlo, dhi, alo, ahi, blo, bhi]"
| "operand_bytes (RemW dlo dhi alo ahi blo bhi) = [dlo, dhi, alo, ahi, blo, bhi]"
| "operand_bytes (And d a b) = [d, a, b]"
| "operand_bytes (Or d a b) = [d, a, b]"
| "operand_bytes (Xor d a b) = [d, a, b]"
| "operand_bytes (NotW d a) = [d, a]"
| "operand_bytes (Shl d a b) = [d, a, b]"
| "operand_bytes (Shr d a b) = [d, a, b]"
| "operand_bytes (Eq d a b) = [d, a, b]"
| "operand_bytes (LtU d a b) = [d, a, b]"
| "operand_bytes (GtU d a b) = [d, a, b]"
| "operand_bytes (Push a) = [a]"
| "operand_bytes (Pop d) = [d]"
| "operand_bytes (MLoad d a) = [d, a]"
| "operand_bytes (MStore a b) = [a, b]"
| "operand_bytes (Jmp target) = to_be 4 target"
| "operand_bytes (Jz a target) = [a] @ to_be 4 target"
| "operand_bytes (Jnz a target) = [a] @ to_be 4 target"
| "operand_bytes (Call target) = to_be 4 target"
| "operand_bytes Ret = []"
| "operand_bytes (SLoad d a) = [d, a]"
| "operand_bytes (SStore a b) = [a, b]"
| "operand_bytes (Send a b c) = [a, b, c]"
| "operand_bytes (Emit a b c) = [a, b, c]"
| "operand_bytes (Hash a b c) = [a, b, c]"
| "operand_bytes (VerifyMl a b c) = [a, b, c]"
| "operand_bytes (VerifySlh a b c) = [a, b, c]"
| "operand_bytes (MerkleVerify a b c) = [a, b, c]"
| "operand_bytes (Addr a b c) = [a, b, c]"

definition encode :: "Instr \<Rightarrow> bytes" where
  "encode i = op_byte (opcode i) # operand_bytes i"

definition encoded_len :: "Instr \<Rightarrow> nat" where
  "encoded_len i = length (encode i)"

section \<open>The cursor\<close>

text \<open>
  Each reader takes the cursor and returns the value with the advanced cursor, or the
  error.  The position is a \<open>usize\<close> that never passes the length of the slice, so its
  increment cannot overflow.
\<close>

record Cursor =
  cur_code :: bytes
  cur_at :: nat

definition cur_byte :: "Cursor \<Rightarrow> DecodeError + u8 \<times> Cursor" where
  "cur_byte c =
     (if cur_at c < length (cur_code c)
      then Inr (cur_code c ! cur_at c, c\<lparr>cur_at := cur_at c + 1\<rparr>)
      else Inl Truncated)"

definition cur_reg :: "Cursor \<Rightarrow> DecodeError + Reg \<times> Cursor" where
  "cur_reg c =
     bindE (cur_byte c) (\<lambda>(b, c).
       if unat b \<ge> NUM_REGS then Inl (BadRegister b) else Inr (b, c))"

text \<open>\<open>n\<close> bytes in order: the array arguments of \<open>u16\<close> and \<open>u32\<close>, the loop of \<open>u64\<close>.\<close>

fun cur_bytes :: "nat \<Rightarrow> Cursor \<Rightarrow> DecodeError + bytes \<times> Cursor" where
  "cur_bytes 0 c = Inr ([], c)"
| "cur_bytes (Suc n) c =
     bindE (cur_byte c) (\<lambda>(b, c). bindE (cur_bytes n c) (\<lambda>(bs, c). Inr (b # bs, c)))"

definition cur_u16 :: "Cursor \<Rightarrow> DecodeError + u16 \<times> Cursor" where
  "cur_u16 c = bindE (cur_bytes 2 c) (\<lambda>(bs, c). Inr (from_be bs, c))"

definition cur_u32 :: "Cursor \<Rightarrow> DecodeError + u32 \<times> Cursor" where
  "cur_u32 c = bindE (cur_bytes 4 c) (\<lambda>(bs, c). Inr (from_be bs, c))"

definition cur_u64 :: "Cursor \<Rightarrow> DecodeError + u64 \<times> Cursor" where
  "cur_u64 c = bindE (cur_bytes 8 c) (\<lambda>(bs, c). Inr (from_be bs, c))"

section \<open>The decoder\<close>

text \<open>The operand readers shared by the arms of \<open>decode\<close>: registers left to right.\<close>

definition read1 :: "(Reg \<Rightarrow> Instr) \<Rightarrow> Cursor \<Rightarrow> DecodeError + Instr \<times> Cursor" where
  "read1 f c = bindE (cur_reg c) (\<lambda>(a, c). Inr (f a, c))"

definition read2 :: "(Reg \<Rightarrow> Reg \<Rightarrow> Instr) \<Rightarrow> Cursor \<Rightarrow> DecodeError + Instr \<times> Cursor" where
  "read2 f c = bindE (cur_reg c) (\<lambda>(a, c). read1 (f a) c)"

definition read3 :: "(Reg \<Rightarrow> Reg \<Rightarrow> Reg \<Rightarrow> Instr) \<Rightarrow> Cursor \<Rightarrow> DecodeError + Instr \<times> Cursor" where
  "read3 f c = bindE (cur_reg c) (\<lambda>(a, c). read2 (f a) c)"

definition read6 ::
  "(Reg \<Rightarrow> Reg \<Rightarrow> Reg \<Rightarrow> Reg \<Rightarrow> Reg \<Rightarrow> Reg \<Rightarrow> Instr) \<Rightarrow> Cursor \<Rightarrow> DecodeError + Instr \<times> Cursor" where
  "read6 f c =
     bindE (cur_reg c) (\<lambda>(dlo, c). bindE (cur_reg c) (\<lambda>(dhi, c). bindE (cur_reg c) (\<lambda>(alo, c).
       read3 (f dlo dhi alo) c)))"

definition decode_operands :: "OpCode \<Rightarrow> Cursor \<Rightarrow> DecodeError + Instr \<times> Cursor" where
  "decode_operands op c = (case op of
       OpHalt \<Rightarrow> Inr (Halt, c)
     | OpNop \<Rightarrow> Inr (Nop, c)
     | OpMov \<Rightarrow> read2 Mov c
     | OpLdi \<Rightarrow> bindE (cur_reg c) (\<lambda>(d, c). bindE (cur_u64 c) (\<lambda>(imm, c). Inr (Ldi d imm, c)))
     | OpLdc \<Rightarrow> bindE (cur_reg c) (\<lambda>(d, c). bindE (cur_u16 c) (\<lambda>(idx, c). Inr (Ldc d idx, c)))
     | OpAdd \<Rightarrow> read3 Add c
     | OpSub \<Rightarrow> read3 Sub c
     | OpMul \<Rightarrow> read3 Mul c
     | OpDiv \<Rightarrow> read3 Div c
     | OpRem \<Rightarrow> read3 Rem c
     | OpAddW \<Rightarrow> read3 AddW c
     | OpSubW \<Rightarrow> read3 SubW c
     | OpMulW \<Rightarrow> read3 MulW c
     | OpMulHi \<Rightarrow> read3 MulHi c
     | OpDivW \<Rightarrow> read6 DivW c
     | OpRemW \<Rightarrow> read6 RemW c
     | OpAnd \<Rightarrow> read3 And c
     | OpOr \<Rightarrow> read3 Or c
     | OpXor \<Rightarrow> read3 Xor c
     | OpNot \<Rightarrow> read2 NotW c
     | OpShl \<Rightarrow> read3 Shl c
     | OpShr \<Rightarrow> read3 Shr c
     | OpEq \<Rightarrow> read3 Eq c
     | OpLtU \<Rightarrow> read3 LtU c
     | OpGtU \<Rightarrow> read3 GtU c
     | OpPush \<Rightarrow> read1 Push c
     | OpPop \<Rightarrow> read1 Pop c
     | OpMLoad \<Rightarrow> read2 MLoad c
     | OpMStore \<Rightarrow> read2 MStore c
     | OpJmp \<Rightarrow> bindE (cur_u32 c) (\<lambda>(target, c). Inr (Jmp target, c))
     | OpJz \<Rightarrow> bindE (cur_reg c) (\<lambda>(a, c). bindE (cur_u32 c) (\<lambda>(target, c). Inr (Jz a target, c)))
     | OpJnz \<Rightarrow> bindE (cur_reg c) (\<lambda>(a, c). bindE (cur_u32 c) (\<lambda>(target, c). Inr (Jnz a target, c)))
     | OpCall \<Rightarrow> bindE (cur_u32 c) (\<lambda>(target, c). Inr (Call target, c))
     | OpRet \<Rightarrow> Inr (Ret, c)
     | OpSLoad \<Rightarrow> read2 SLoad c
     | OpSStore \<Rightarrow> read2 SStore c
     | OpSend \<Rightarrow> read3 Send c
     | OpEmit \<Rightarrow> read3 Emit c
     | OpHash \<Rightarrow> read3 Hash c
     | OpVerifyMl \<Rightarrow> read3 VerifyMl c
     | OpVerifySlh \<Rightarrow> read3 VerifySlh c
     | OpMerkleVerify \<Rightarrow> read3 MerkleVerify c
     | OpAddr \<Rightarrow> read3 Addr c)"

definition decode :: "bytes \<Rightarrow> nat \<Rightarrow> DecodeError + Instr \<times> nat" where
  "decode code pc =
     bindE (cur_byte \<lparr>cur_code = code, cur_at = pc\<rparr>) (\<lambda>(op_b, c).
       (case from_byte op_b of
          None \<Rightarrow> Inl (UnknownOpcode op_b)
        | Some op \<Rightarrow> bindE (decode_operands op c) (\<lambda>(instr, c). Inr (instr, cur_at c - pc))))"

text \<open>The registers an instruction names.\<close>

primrec registers_of :: "Instr \<Rightarrow> Reg list" where
  "registers_of Halt = []"
| "registers_of Nop = []"
| "registers_of (Mov d a) = [d, a]"
| "registers_of (Ldi d imm) = [d]"
| "registers_of (Ldc d idx) = [d]"
| "registers_of (Add d a b) = [d, a, b]"
| "registers_of (Sub d a b) = [d, a, b]"
| "registers_of (Mul d a b) = [d, a, b]"
| "registers_of (Div d a b) = [d, a, b]"
| "registers_of (Rem d a b) = [d, a, b]"
| "registers_of (AddW d a b) = [d, a, b]"
| "registers_of (SubW d a b) = [d, a, b]"
| "registers_of (MulW d a b) = [d, a, b]"
| "registers_of (MulHi d a b) = [d, a, b]"
| "registers_of (DivW dlo dhi alo ahi blo bhi) = [dlo, dhi, alo, ahi, blo, bhi]"
| "registers_of (RemW dlo dhi alo ahi blo bhi) = [dlo, dhi, alo, ahi, blo, bhi]"
| "registers_of (And d a b) = [d, a, b]"
| "registers_of (Or d a b) = [d, a, b]"
| "registers_of (Xor d a b) = [d, a, b]"
| "registers_of (NotW d a) = [d, a]"
| "registers_of (Shl d a b) = [d, a, b]"
| "registers_of (Shr d a b) = [d, a, b]"
| "registers_of (Eq d a b) = [d, a, b]"
| "registers_of (LtU d a b) = [d, a, b]"
| "registers_of (GtU d a b) = [d, a, b]"
| "registers_of (Push a) = [a]"
| "registers_of (Pop d) = [d]"
| "registers_of (MLoad d a) = [d, a]"
| "registers_of (MStore a b) = [a, b]"
| "registers_of (Jmp target) = []"
| "registers_of (Jz a target) = [a]"
| "registers_of (Jnz a target) = [a]"
| "registers_of (Call target) = []"
| "registers_of Ret = []"
| "registers_of (SLoad d a) = [d, a]"
| "registers_of (SStore a b) = [a, b]"
| "registers_of (Send a b c) = [a, b, c]"
| "registers_of (Emit a b c) = [a, b, c]"
| "registers_of (Hash a b c) = [a, b, c]"
| "registers_of (VerifyMl a b c) = [a, b, c]"
| "registers_of (VerifySlh a b c) = [a, b, c]"
| "registers_of (MerkleVerify a b c) = [a, b, c]"
| "registers_of (Addr a b c) = [a, b, c]"

definition wf_instr :: "Instr \<Rightarrow> bool" where
  "wf_instr i = list_all (\<lambda>r. unat r < NUM_REGS) (registers_of i)"

section \<open>What the cursor reads\<close>

text \<open>\<open>has c bs\<close>: the bytes \<open>bs\<close> are next at the cursor; \<open>adv c n\<close> is the cursor moved by \<open>n\<close>.\<close>

definition adv :: "Cursor \<Rightarrow> nat \<Rightarrow> Cursor" where
  "adv c n = c\<lparr>cur_at := cur_at c + n\<rparr>"

definition has :: "Cursor \<Rightarrow> bytes \<Rightarrow> bool" where
  "has c bs \<longleftrightarrow> take (length bs) (drop (cur_at c) (cur_code c)) = bs"

lemma adv_simps [simp]:
  "adv (adv c m) n = adv c (m + n)" "adv c 0 = c"
  "cur_at (adv c n) = cur_at c + n" "cur_code (adv c n) = cur_code c"
  by (simp_all add: adv_def)

lemma has_Nil [simp]: "has c []"
  by (simp add: has_def)

lemma has_iff: "has c bs \<longleftrightarrow> (\<exists>r. drop (cur_at c) (cur_code c) = bs @ r)"
  unfolding has_def by (metis append_eq_conv_conj append_take_drop_id)

lemma has_append [simp]: "has c (xs @ ys) \<longleftrightarrow> has c xs \<and> has (adv c (length xs)) ys"
proof -
  have "drop (cur_at c + length xs) (cur_code c) = drop (length xs) (drop (cur_at c) (cur_code c))"
    by (simp add: add.commute)
  then show ?thesis
    unfolding has_iff adv_simps by (auto simp del: drop_drop)
qed

lemma has_Cons: "NO_MATCH [] bs \<Longrightarrow> has c (b # bs) \<longleftrightarrow> has c [b] \<and> has (adv c 1) bs"
  using has_append [of c "[b]" bs] by simp

lemma has_length: "has c bs \<Longrightarrow> bs \<noteq> [] \<Longrightarrow> cur_at c + length bs \<le> length (cur_code c)"
proof -
  assume "has c bs" and "bs \<noteq> []"
  then have "length bs \<le> length (drop (cur_at c) (cur_code c))"
    unfolding has_def by (metis length_take min.cobounded1)
  then show ?thesis
    using \<open>bs \<noteq> []\<close> by (cases bs) auto
qed

text \<open>Each reader succeeds exactly when the bytes it wants are next, and moves past them.\<close>

lemma cur_byte_iff: "cur_byte c = Inr (b, c') \<longleftrightarrow> has c [b] \<and> c' = adv c 1"
  by (auto simp: cur_byte_def has_def adv_def take_Suc hd_drop_conv_nth)

lemma cur_reg_iff: "cur_reg c = Inr (r, c') \<longleftrightarrow> unat r < NUM_REGS \<and> has c [r] \<and> c' = adv c 1"
  by (force simp: cur_reg_def cur_byte_iff split: if_splits)

lemma cur_bytes_iff: "cur_bytes n c = Inr (bs, c') \<longleftrightarrow> length bs = n \<and> has c bs \<and> c' = adv c n"
  by (induction n arbitrary: c bs) (auto simp: cur_byte_iff has_Cons length_Suc_conv)

lemma from_be_iff:
  assumes "LENGTH('a) = 8 * n"
  shows "(\<exists>bs. length bs = n \<and> P bs \<and> w = (from_be bs :: 'a::len word)) \<longleftrightarrow> P (to_be n w)"
  using assms by (force simp: from_be_to_be to_be_from_be)

lemma cur_u16_iff: "cur_u16 c = Inr (w, c') \<longleftrightarrow> has c (to_be 2 w) \<and> c' = adv c 2"
  using from_be_iff [of 2 "has c" w] by (auto simp: cur_u16_def cur_bytes_iff simp del: to_be.simps)

lemma cur_u32_iff: "cur_u32 c = Inr (w, c') \<longleftrightarrow> has c (to_be 4 w) \<and> c' = adv c 4"
  using from_be_iff [of 4 "has c" w] by (auto simp: cur_u32_def cur_bytes_iff simp del: to_be.simps)

lemma cur_u64_iff: "cur_u64 c = Inr (w, c') \<longleftrightarrow> has c (to_be 8 w) \<and> c' = adv c 8"
  using from_be_iff [of 8 "has c" w] by (auto simp: cur_u64_def cur_bytes_iff simp del: to_be.simps)

lemma read1_iff:
  "read1 f c = Inr (i, c') \<longleftrightarrow> (\<exists>a. i = f a \<and> unat a < NUM_REGS \<and> has c [a] \<and> c' = adv c 1)"
  by (auto simp: read1_def cur_reg_iff)

lemma read2_iff:
  "read2 f c = Inr (i, c') \<longleftrightarrow>
     (\<exists>a b. i = f a b \<and> unat a < NUM_REGS \<and> unat b < NUM_REGS \<and> has c [a, b] \<and> c' = adv c 2)"
  by (fastforce simp: read2_def read1_iff cur_reg_iff has_Cons)

lemma read3_iff:
  "read3 f c = Inr (i, c') \<longleftrightarrow>
     (\<exists>a b d. i = f a b d \<and> unat a < NUM_REGS \<and> unat b < NUM_REGS \<and> unat d < NUM_REGS \<and>
        has c [a, b, d] \<and> c' = adv c 3)"
  by (fastforce simp: read3_def read2_iff cur_reg_iff has_Cons)

lemma read6_iff:
  "read6 f c = Inr (i, c') \<longleftrightarrow>
     (\<exists>p q r s t u. i = f p q r s t u \<and> list_all (\<lambda>x. unat x < NUM_REGS) [p, q, r, s, t, u] \<and>
        has c [p, q, r, s, t, u] \<and> c' = adv c 6)"
  by (fastforce simp: read6_def read3_iff cur_reg_iff has_Cons)

lemmas reader_iff = cur_reg_iff cur_u16_iff cur_u32_iff cur_u64_iff read1_iff read2_iff read3_iff read6_iff

section \<open>Decoding is exactly the inverse of encoding\<close>

lemma from_byte_op_byte [simp]: "from_byte (op_byte op) = Some op"
  by (cases op) (simp_all add: from_byte_def)

lemma op_byte_from_byte: "from_byte b = Some op \<Longrightarrow> op_byte op = b"
  by (simp add: from_byte_def split: if_splits)

lemma decode_operandsD:
  "decode_operands op c = Inr (i, c') \<Longrightarrow>
     opcode i = op \<and> wf_instr i \<and> has c (operand_bytes i) \<and> c' = adv c (length (operand_bytes i))"
  by (cases op)
     (auto simp: decode_operands_def reader_iff wf_instr_def has_Cons adv_def simp del: to_be.simps)

lemma decode_operandsI:
  "wf_instr i \<Longrightarrow> has c (operand_bytes i) \<Longrightarrow>
     decode_operands (opcode i) c = Inr (i, adv c (length (operand_bytes i)))"
  by (cases i)
     (auto simp: decode_operands_def reader_iff wf_instr_def has_Cons adv_def simp del: to_be.simps)

lemma decode_iff:
  "decode code pc = Inr (i, n) \<longleftrightarrow>
     wf_instr i \<and> n = encoded_len i \<and> slice_get code pc (pc + n) = Some (encode i)"
  (is "?L \<longleftrightarrow> ?R")
proof -
  let ?c = "\<lparr>cur_code = code, cur_at = pc\<rparr>"
  have R: "?R \<longleftrightarrow> wf_instr i \<and> n = encoded_len i \<and> has ?c (encode i)"
    using has_length [of ?c "encode i"]
    by (auto simp: slice_get_def encoded_len_def has_def encode_def)
  show ?thesis
  proof
    assume ?L
    then obtain b c op c' where
      b: "cur_byte ?c = Inr (b, c)" and op: "from_byte b = Some op"
      and ops: "decode_operands op c = Inr (i, c')" and n: "n = cur_at c' - pc"
      by (auto simp: decode_def split: option.splits)
    note D = decode_operandsD [OF ops] op_byte_from_byte [OF op]
    have "has ?c ([b] @ operand_bytes i)"
      using b D unfolding has_append by (simp add: cur_byte_iff)
    then show ?R
      unfolding R using D b n by (simp add: cur_byte_iff encode_def encoded_len_def)
  next
    assume ?R
    then have wf: "wf_instr i" and n: "n = encoded_len i" and "has ?c ([op_byte (opcode i)] @ operand_bytes i)"
      unfolding R by (simp_all add: encode_def)
    then have "cur_byte ?c = Inr (op_byte (opcode i), adv ?c 1)"
      and "decode_operands (opcode i) (adv ?c 1) = Inr (i, adv (adv ?c 1) (length (operand_bytes i)))"
      unfolding has_append by (simp_all add: cur_byte_iff decode_operandsI)
    then show ?L
      using n by (simp add: decode_def encoded_len_def encode_def)
  qed
qed

lemma encoded_len_pos [simp]: "0 < encoded_len i"
  by (simp add: encoded_len_def encode_def)

lemma encoded_len_le: "encoded_len i \<le> 10"
  by (cases i) (simp_all add: encoded_len_def encode_def)

lemma decodeD:
  assumes "decode code pc = Inr (i, n)"
  shows "wf_instr i" and "n = encoded_len i" and "0 < n" and "n \<le> 10" and "pc + n \<le> length code"
    and "slice_get code pc (pc + n) = Some (encode i)"
  using assms encoded_len_le [of i] by (auto simp: decode_iff slice_get_def split: if_splits)

lemma decode_encode:
  assumes "wf_instr i"
  shows "decode (pre @ encode i @ post) (length pre) = Inr (i, encoded_len i)"
  using assms by (simp add: decode_iff slice_get_def encoded_len_def)

interpretation instr_code: prefix_code encode wf_instr
proof
  fix x y r s
  assume wf: "wf_instr x" "wf_instr y" and eq: "encode x @ r = encode y @ s"
  have "Inr (x, encoded_len x) = decode (encode x @ r) 0"
    using decode_encode [OF wf(1), of "[]" r] by simp
  also have "\<dots> = Inr (y, encoded_len y)"
    using decode_encode [OF wf(2), of "[]" s] eq by simp
  finally have "x = y" by simp
  with eq show "x = y \<and> r = s" by simp
qed

section \<open>Decoding errors\<close>

lemma decode_end: "length code \<le> pc \<Longrightarrow> decode code pc = Inl Truncated"
  by (simp add: decode_def cur_byte_def)

lemma cur_byte_Inl: "cur_byte c = Inl e \<longleftrightarrow> e = Truncated \<and> length (cur_code c) \<le> cur_at c"
  by (auto simp: cur_byte_def)

lemma cur_reg_Inl:
  "cur_reg c = Inl e \<longleftrightarrow> e = Truncated \<and> length (cur_code c) \<le> cur_at c \<or>
     (\<exists>b. e = BadRegister b \<and> NUM_REGS \<le> unat b \<and> has c [b])"
  by (auto simp: cur_reg_def bindE_Inl_iff cur_byte_Inl cur_byte_iff split: if_splits)

lemma cur_bytes_Inl: "cur_bytes n c = Inl e \<Longrightarrow> e = Truncated \<and> length (cur_code c) < cur_at c + n"
proof (induction n arbitrary: c)
  case 0
  then show ?case by simp
next
  case (Suc n)
  then show ?case
    by (fastforce simp: bindE_Inl_iff cur_byte_Inl cur_byte_iff)
qed

lemma cur_word_Inl:
  "cur_u16 c = Inl e \<Longrightarrow> e = Truncated \<and> length (cur_code c) < cur_at c + 2"
  "cur_u32 c = Inl e \<Longrightarrow> e = Truncated \<and> length (cur_code c) < cur_at c + 4"
  "cur_u64 c = Inl e \<Longrightarrow> e = Truncated \<and> length (cur_code c) < cur_at c + 8"
  by (auto simp: cur_u16_def cur_u32_def cur_u64_def bindE_Inl_iff dest!: cur_bytes_Inl)

lemma decode_operands_Inl:
  assumes "decode_operands op c = Inl e"
  shows "e = Truncated \<and> length (cur_code c) < cur_at c + 9 \<or> (\<exists>b. e = BadRegister b \<and> NUM_REGS \<le> unat b)"
  using assms
  by (cases op)
     (auto simp: decode_operands_def read1_def read2_def read3_def read6_def bindE_Inl_iff
        cur_reg_Inl cur_reg_iff dest!: cur_word_Inl)

lemma decode_errors:
  assumes "decode code pc = Inl e"
  shows "case e of
           UnknownOpcode b \<Rightarrow> pc < length code \<and> b = code ! pc \<and> from_byte b = None
         | BadRegister b \<Rightarrow> NUM_REGS \<le> unat b
         | Truncated \<Rightarrow> length code < pc + 10"
proof (cases "cur_byte \<lparr>cur_code = code, cur_at = pc\<rparr>")
  case (Inl e')
  then have "e = e'"
    using assms by (simp add: decode_def)
  then show ?thesis
    using Inl by (simp add: cur_byte_Inl)
next
  case (Inr r)
  obtain b c where r: "r = (b, c)" by force
  have b: "pc < length code" "b = code ! pc" "c = \<lparr>cur_code = code, cur_at = pc + 1\<rparr>"
    using Inr r by (auto simp: cur_byte_def split: if_splits)
  show ?thesis
  proof (cases "from_byte b")
    case None
    then show ?thesis using assms Inr r b by (auto simp: decode_def)
  next
    case (Some op)
    then have "decode_operands op c = Inl e"
      using assms Inr r by (auto simp: decode_def bindE_Inl_iff)
    then show ?thesis
      using decode_operands_Inl b(3) by fastforce
  qed
qed

section \<open>Properties\<close>

text \<open>C10. The decoder accepts an instruction at an offset exactly when the bytes there are the
  encoding of that instruction and its registers exist, and it reports that encoding's length:
  every instruction has one encoding and every byte string at most one reading.\<close>

theorem decode_exact:
  "decode code pc = Inr (i, n) \<longleftrightarrow>
     wf_instr i \<and> n = length (encode i) \<and> slice_get code pc (pc + n) = Some (encode i)"
  by (simp add: decode_iff encoded_len_def)

text \<open>A decoding error names its cause: an unknown opcode is the byte at the offset and is
  no opcode's byte, a bad register is outside the file, and a truncation is reported only
  within the last ten bytes of the code or behind them.\<close>

theorem decode_error_cause:
  assumes "decode code pc = Inl e"
  shows "case e of
           UnknownOpcode b \<Rightarrow> pc < length code \<and> b = code ! pc \<and> (\<forall>op. op_byte op \<noteq> b)
         | BadRegister b \<Rightarrow> NUM_REGS \<le> unat b
         | Truncated \<Rightarrow> length code < pc + 10"
proof (cases e)
  case (UnknownOpcode b)
  have b: "pc < length code \<and> b = code ! pc \<and> from_byte b = None"
    using decode_errors [OF assms] unfolding UnknownOpcode DecodeError.case .
  then have "op_byte op \<noteq> b" for op
    using from_byte_op_byte [of op] by (metis option.distinct(1))
  with b show ?thesis
    unfolding UnknownOpcode DecodeError.case by blast
qed (use decode_errors [OF assms] in simp_all)

lemma decode_error_cause_witness:
  "decode [16, 3, 200, 1] 0 = Inl (BadRegister 200) \<and> NUM_REGS \<le> unat (200 :: u8)"
proof -
  have "decode [16, 3, 200, 1] 0 = Inl (BadRegister 200)"
    by code_simp
  then show ?thesis
    using decode_error_cause [of "[16, 3, 200, 1]" 0 "BadRegister 200"] by simp
qed

end
