(* ===== verification/Meter.thy ===== *)
theory Meter
  imports Isa
begin

text \<open>
  The fixed gas schedule of \<open>crates/qtv-vm/src/meter.rs\<close>: the constants, the price of
  each opcode and the length-scaled charges of the hashing opcodes, all at 64 bits.
\<close>

definition DISPATCH :: u64 where "DISPATCH = 4"
definition EFFECT_BYTE :: u64 where "EFFECT_BYTE = 2"
definition EVENT_BYTE :: u64 where "EVENT_BYTE = 100"
definition EFFECTS_BYTES_CAP :: u64 where "EFFECTS_BYTES_CAP = push_bit 20 1"
definition EFFECT_RECORD_OVERHEAD :: u64 where "EFFECT_RECORD_OVERHEAD = 32"
definition KECCAK_RATE :: u64 where "KECCAK_RATE = 136"
definition HASH_BLOCK :: u64 where "HASH_BLOCK = 40"
definition MERKLE_LEVEL :: u64 where "MERKLE_LEVEL = 50"
definition KEYED_SLOT_METER :: u64 where "KEYED_SLOT_METER = 227000"
definition KEYED_READ_MICROS :: u64 where "KEYED_READ_MICROS = 12"
definition METER_PER_MICRO :: u64 where "METER_PER_MICRO = 79"
definition KEYED_READ_METER :: u64 where "KEYED_READ_METER = METER_PER_MICRO * KEYED_READ_MICROS"
definition VERIFY_ML_MICROS :: u64 where "VERIFY_ML_MICROS = 288"
definition VERIFY_SLH_MICROS :: u64 where "VERIFY_SLH_MICROS = 4245"
definition EVENT_RECORD_METER :: u64 where "EVENT_RECORD_METER = 6250"
definition FREE_EVENT_RECORDS :: u64 where "FREE_EVENT_RECORDS = 4"
definition ASSET_MINT_SELECTOR :: bytes where "ASSET_MINT_SELECTOR = [77, 73, 78, 84]"
definition ASSET_MINT_DATA_BYTES :: nat where "ASSET_MINT_DATA_BYTES = 40"
definition FREE_DIRTY_SLOTS :: nat where "FREE_DIRTY_SLOTS = 8"
definition CODE_SCAN_PER_BYTE :: u64 where "CODE_SCAN_PER_BYTE = METER_PER_MICRO div 8"
definition VERIFY_MESSAGE_BLOCK :: u64 where "VERIFY_MESSAGE_BLOCK = 40"

lemmas meter_consts =
  DISPATCH_def EFFECT_BYTE_def EVENT_BYTE_def EFFECTS_BYTES_CAP_def EFFECT_RECORD_OVERHEAD_def
  KECCAK_RATE_def HASH_BLOCK_def MERKLE_LEVEL_def KEYED_SLOT_METER_def KEYED_READ_MICROS_def
  METER_PER_MICRO_def KEYED_READ_METER_def VERIFY_ML_MICROS_def VERIFY_SLH_MICROS_def
  EVENT_RECORD_METER_def FREE_EVENT_RECORDS_def ASSET_MINT_DATA_BYTES_def FREE_DIRTY_SLOTS_def
  CODE_SCAN_PER_BYTE_def VERIFY_MESSAGE_BLOCK_def

definition keccak_blocks :: "u64 \<Rightarrow> u64" where
  "keccak_blocks len = len div KECCAK_RATE + 1"

definition hash_variable :: "u64 \<Rightarrow> u64" where
  "hash_variable len = saturating_mul (keccak_blocks len) HASH_BLOCK"

definition message_variable :: "u64 \<Rightarrow> u64" where
  "message_variable tail = saturating_mul (keccak_blocks tail) VERIFY_MESSAGE_BLOCK"

definition merkle_variable :: "u64 \<Rightarrow> u64" where
  "merkle_variable path_bytes = saturating_mul (path_bytes div 32) MERKLE_LEVEL"

primrec cost :: "OpCode \<Rightarrow> u64" where
  "cost OpHalt = 0"
| "cost OpNop = 1"
| "cost OpMov = 1"
| "cost OpLdi = 1"
| "cost OpLdc = 1"
| "cost OpAdd = 2"
| "cost OpSub = 2"
| "cost OpMul = 3"
| "cost OpDiv = 4"
| "cost OpRem = 4"
| "cost OpAddW = 2"
| "cost OpSubW = 2"
| "cost OpMulW = 3"
| "cost OpMulHi = 3"
| "cost OpDivW = 8"
| "cost OpRemW = 8"
| "cost OpAnd = 1"
| "cost OpOr = 1"
| "cost OpXor = 1"
| "cost OpNot = 1"
| "cost OpShl = 1"
| "cost OpShr = 1"
| "cost OpEq = 1"
| "cost OpLtU = 1"
| "cost OpGtU = 1"
| "cost OpPush = 2"
| "cost OpPop = 2"
| "cost OpMLoad = 3"
| "cost OpMStore = 3"
| "cost OpJmp = 2"
| "cost OpJz = 2"
| "cost OpJnz = 2"
| "cost OpCall = 3"
| "cost OpRet = 2"
| "cost OpSLoad = 100"
| "cost OpSStore = 500"
| "cost OpSend = 200"
| "cost OpEmit = 200"
| "cost OpHash = 200"
| "cost OpVerifyMl = 60000"
| "cost OpVerifySlh = 340000"
| "cost OpMerkleVerify = 512"
| "cost OpAddr = 4000"

section \<open>Properties of the schedule\<close>

lemma cost_zero_iff: "cost op = 0 \<longleftrightarrow> op = OpHalt"
  by (cases op) simp_all

lemma cost_pos: "op \<noteq> OpHalt \<Longrightarrow> 0 < unat (cost op)"
  using cost_zero_iff [of op] by (simp add: unat_gt_0)

lemma unat_keccak_blocks: "unat (keccak_blocks len) = unat len div 136 + 1"
proof -
  have "unat len div 136 + 1 < 2 ^ 64"
    using unat_bound [of len] by simp
  then show ?thesis
    by (simp add: keccak_blocks_def KECCAK_RATE_def unat_div unat_add_no_wrap)
qed

lemma unat_keccak_charge:
  "unat (saturating_mul (keccak_blocks len) 40) = (unat len div 136 + 1) * 40"
proof -
  have "(unat len div 136 + 1) * 40 \<le> 2 ^ 64 - 1"
    using unat_bound [of len] by simp
  then show ?thesis
    by (simp add: unat_saturating_mul unat_keccak_blocks)
qed

lemma unat_merkle_variable: "unat (merkle_variable n) = min (unat n div 32 * 50) (2 ^ 64 - 1)"
  by (simp add: merkle_variable_def MERKLE_LEVEL_def unat_saturating_mul unat_div)

section \<open>Properties\<close>

text \<open>The length-scaled charges do not wrap at any 64-bit length: a hash or a signed
  message pays 40 for every whole block of 136 bytes and once more for the last, and a Merkle
  path pays 50 for every 32 bytes, up to saturation.\<close>

theorem scaled_charges:
  "unat (hash_variable len) = 40 * (unat len div 136 + 1) \<and>
   unat (message_variable len) = 40 * (unat len div 136 + 1) \<and>
   unat (merkle_variable len) = min (50 * (unat len div 32)) (2 ^ 64 - 1)"
  using unat_keccak_charge [of len] unat_merkle_variable [of len]
  by (simp add: hash_variable_def message_variable_def HASH_BLOCK_def VERIFY_MESSAGE_BLOCK_def mult.commute)

end
