(* ===== verification/Faults.thy ===== *)
theory Faults
  imports Isa
begin

text \<open>
  The faults of \<open>crates/qtv-vm/src/interp.rs\<close> and the way an operation can end early.  A
  Rust \<open>Err(fault)\<close> is \<open>Fault f\<close>; a panic (a register index outside the file, an overflow
  under \<open>overflow-checks\<close>, a panic of a cryptographic primitive) is \<open>Panic\<close>, so that the
  absence of panics is a theorem about the model and not a convention of it.
\<close>

datatype fault =
    OutOfMeter
  | Overflow
  | DivByZero
  | StackOverflow
  | StackUnderflow
  | BadMemory
  | BadJump
  | BadConst
  | UnknownSelector
  | BadScheme
  | EffectsTooLarge
  | UndeclaredSlot
  | CryptoFault
  | Malformed
  | DecodeFault DecodeError

datatype exn = Fault fault | Panic

definition ok_or :: "'a option \<Rightarrow> fault \<Rightarrow> exn + 'a" where
  "ok_or x f = (case x of None \<Rightarrow> Inl (Fault f) | Some v \<Rightarrow> Inr v)"

lemma ok_or_simps [simp]:
  "ok_or None f = Inl (Fault f)"
  "ok_or (Some v) f = Inr v"
  by (simp_all add: ok_or_def)

lemma ok_or_Inr_iff [simp]: "ok_or x f = Inr v \<longleftrightarrow> x = Some v"
  by (cases x) simp_all

lemma ok_or_Inl_iff: "ok_or x f = Inl e \<longleftrightarrow> x = None \<and> e = Fault f"
  by (cases x) auto

lemma ok_or_not_Panic [simp]: "ok_or x f \<noteq> Inl Panic"
  by (cases x) simp_all

end
