(* ===== verification/MachineState.thy ===== *)
theory MachineState
  imports Faults
begin

text \<open>
  The machine of \<open>crates/qtv-vm/src/state.rs\<close>: sixteen 64-bit registers, the program
  counter, the stack (a \<open>Vec\<close>, top at the end) and 64 KiB of linear memory.  A mutating
  method returns the new machine; one that also reports success returns the \<open>bool\<close> with it.
  \<open>usize\<close> is 64 bits wide, so \<open>usize::try_from\<close> of a \<open>u64\<close> succeeds and the sums of
  offsets are checked against \<open>2 ^ 64\<close>.

  The lemmas give the bounds of every access, the read-over-write laws of the memory as the
  interface \<open>region_memory\<close>, and that every operation keeps the shape of the machine.
\<close>

definition STACK_LIMIT :: nat where "STACK_LIMIT = 1024"
definition MEM_BYTES :: nat where "MEM_BYTES = 65536"
definition WORD_BYTES :: nat where "WORD_BYTES = 8"

record machine =
  regs :: "u64 list"
  mpc :: u32
  stack :: "u64 list"
  mem :: bytes

definition new_machine :: machine where
  "new_machine = \<lparr>regs = replicate NUM_REGS 0, mpc = 0, stack = [], mem = replicate MEM_BYTES 0\<rparr>"

definition reg :: "machine \<Rightarrow> Reg \<Rightarrow> exn + u64" where
  "reg m r = (if unat r < length (regs m) then Inr (regs m ! unat r) else Inl Panic)"

definition set_reg :: "machine \<Rightarrow> Reg \<Rightarrow> u64 \<Rightarrow> exn + machine" where
  "set_reg m r v =
     (if unat r < length (regs m) then Inr (m\<lparr>regs := (regs m)[unat r := v]\<rparr>) else Inl Panic)"

definition push :: "machine \<Rightarrow> u64 \<Rightarrow> bool \<times> machine" where
  "push m v =
     (if length (stack m) \<ge> STACK_LIMIT then (False, m)
      else (True, m\<lparr>stack := stack m @ [v]\<rparr>))"

definition pop :: "machine \<Rightarrow> (u64 \<times> machine) option" where
  "pop m = (if stack m = [] then None else Some (last (stack m), m\<lparr>stack := butlast (stack m)\<rparr>))"

definition usize_add :: "nat \<Rightarrow> nat \<Rightarrow> nat option" where
  "usize_add a b = (if a + b < 2 ^ 64 then Some (a + b) else None)"

definition mem_load :: "machine \<Rightarrow> u64 \<Rightarrow> u64 option" where
  "mem_load m offset =
     (let start = unat offset in
      case usize_add start WORD_BYTES of
        None \<Rightarrow> None
      | Some end_ \<Rightarrow> map_option from_be (slice_get (mem m) start end_))"

definition mem_region :: "machine \<Rightarrow> u64 \<Rightarrow> u64 \<Rightarrow> bytes option" where
  "mem_region m offset len =
     (let start = unat offset in
      case usize_add start (unat len) of
        None \<Rightarrow> None
      | Some end_ \<Rightarrow> slice_get (mem m) start end_)"

definition mem_write :: "machine \<Rightarrow> u64 \<Rightarrow> bytes \<Rightarrow> bool \<times> machine" where
  "mem_write m offset bs =
     (let start = unat offset in
      case usize_add start (length bs) of
        None \<Rightarrow> (False, m)
      | Some end_ \<Rightarrow>
          (case slice_get (mem m) start end_ of
             None \<Rightarrow> (False, m)
           | Some _ \<Rightarrow> (True, m\<lparr>mem := copy_into (mem m) start bs\<rparr>)))"

definition mem_store :: "machine \<Rightarrow> u64 \<Rightarrow> u64 \<Rightarrow> bool \<times> machine" where
  "mem_store m offset v =
     (let start = unat offset in
      case usize_add start WORD_BYTES of
        None \<Rightarrow> (False, m)
      | Some end_ \<Rightarrow>
          (case slice_get (mem m) start end_ of
             None \<Rightarrow> (False, m)
           | Some _ \<Rightarrow> (True, m\<lparr>mem := copy_into (mem m) start (to_be WORD_BYTES v)\<rparr>)))"

section \<open>The shape of the machine\<close>

definition wf_machine :: "machine \<Rightarrow> bool" where
  "wf_machine m \<longleftrightarrow>
     length (regs m) = NUM_REGS \<and> length (stack m) \<le> STACK_LIMIT \<and> length (mem m) = MEM_BYTES"

lemma wf_new_machine [simp]: "wf_machine new_machine"
  by (simp add: wf_machine_def new_machine_def)

lemma wf_machine_pc [simp]: "wf_machine (m\<lparr>mpc := p\<rparr>) = wf_machine m"
  by (simp add: wf_machine_def)

lemma reg_Inr: "wf_machine m \<Longrightarrow> unat r < NUM_REGS \<Longrightarrow> reg m r = Inr (regs m ! unat r)"
  by (simp add: reg_def wf_machine_def)

lemma set_reg_Inr:
  "wf_machine m \<Longrightarrow> unat r < NUM_REGS \<Longrightarrow> set_reg m r v = Inr (m\<lparr>regs := (regs m)[unat r := v]\<rparr>)"
  by (simp add: set_reg_def wf_machine_def)

lemma wf_set_reg: "set_reg m r v = Inr m' \<Longrightarrow> wf_machine m \<Longrightarrow> wf_machine m'"
  by (auto simp: set_reg_def wf_machine_def split: if_splits)

lemma wf_push: "push m v = (b, m') \<Longrightarrow> wf_machine m \<Longrightarrow> wf_machine m'"
  by (auto simp: push_def wf_machine_def split: if_splits)

lemma wf_pop: "pop m = Some (v, m') \<Longrightarrow> wf_machine m \<Longrightarrow> wf_machine m'"
  by (auto simp: pop_def wf_machine_def split: if_splits)

lemma wf_mem_write: "mem_write m ofs bs = (b, m') \<Longrightarrow> wf_machine m \<Longrightarrow> wf_machine m'"
  by (auto simp: mem_write_def wf_machine_def usize_add_def slice_get_def Let_def
      split: if_splits option.splits)

lemma mem_store_write: "mem_store m ofs v = mem_write m ofs (to_be WORD_BYTES v)"
  by (simp add: mem_store_def mem_write_def)

lemma wf_mem_store: "mem_store m ofs v = (b, m') \<Longrightarrow> wf_machine m \<Longrightarrow> wf_machine m'"
  by (simp add: mem_store_write wf_mem_write)

lemma push_pop: "push m v = (True, m') \<Longrightarrow> pop m' = Some (v, m)"
  by (auto simp: push_def pop_def split: if_splits)

section \<open>Memory regions\<close>

lemma mem_region_iff:
  "wf_machine m \<Longrightarrow>
     mem_region m ofs len =
       (if unat ofs + unat len \<le> MEM_BYTES then Some (take (unat len) (drop (unat ofs) (mem m))) else None)"
  by (auto simp: mem_region_def usize_add_def slice_get_def wf_machine_def MEM_BYTES_def Let_def)

lemma mem_region_length: "mem_region m ofs len = Some bs \<Longrightarrow> length bs = unat len"
  by (auto simp: mem_region_def usize_add_def Let_def dest!: slice_get_Some_length
      split: option.splits if_splits)

lemma mem_write_iff:
  "wf_machine m \<Longrightarrow>
     mem_write m ofs bs =
       (if unat ofs + length bs \<le> MEM_BYTES
        then (True, m\<lparr>mem := copy_into (mem m) (unat ofs) bs\<rparr>) else (False, m))"
  by (auto simp: mem_write_def usize_add_def slice_get_def wf_machine_def MEM_BYTES_def Let_def)

lemma mem_load_region: "mem_load m ofs = map_option from_be (mem_region m ofs 8)"
  by (auto simp: mem_load_def mem_region_def WORD_BYTES_def Let_def split: option.splits)

text \<open>
  What a client of the memory relies on: the length of what it reads, that a write
  succeeds exactly where a read of that size does, and read-over-write at the same and at a
  disjoint place.
\<close>

locale region_memory =
  fixes ok :: "'m \<Rightarrow> bool"
    and rd :: "'m \<Rightarrow> u64 \<Rightarrow> u64 \<Rightarrow> bytes option"
    and wr :: "'m \<Rightarrow> u64 \<Rightarrow> bytes \<Rightarrow> bool \<times> 'm"
  assumes read_length: "rd m p n = Some bs \<Longrightarrow> length bs = unat n"
    and write_ok: "ok m \<Longrightarrow> length bs = unat n \<Longrightarrow> fst (wr m p bs) \<longleftrightarrow> rd m p n \<noteq> None"
    and write_keeps: "ok m \<Longrightarrow> wr m p bs = (b, m') \<Longrightarrow> ok m'"
    and write_fails: "wr m p bs = (False, m') \<Longrightarrow> m' = m"
    and read_written: "ok m \<Longrightarrow> wr m p bs = (True, m') \<Longrightarrow> length bs = unat n \<Longrightarrow> rd m' p n = Some bs"
    and read_disjoint: "ok m \<Longrightarrow> wr m p bs = (True, m') \<Longrightarrow>
      unat q + unat n \<le> unat p \<or> unat p + length bs \<le> unat q \<Longrightarrow> rd m' q n = rd m q n"
begin

text \<open>A word stored is the word loaded, and a store elsewhere does not disturb it.\<close>

lemma store_load:
  "ok m \<Longrightarrow> wr m p (to_be 8 (v :: u64)) = (True, m') \<Longrightarrow> map_option from_be (rd m' p 8) = Some v"
  using read_written [of m p "to_be 8 v" m' 8] by (simp add: from_be_to_be del: to_be.simps)

lemma store_frame:
  "ok m \<Longrightarrow> wr m p (to_be 8 (v :: u64)) = (b, m') \<Longrightarrow>
     unat q + unat n \<le> unat p \<or> unat p + 8 \<le> unat q \<Longrightarrow> rd m' q n = rd m q n"
  using read_disjoint [of m p "to_be 8 v" m' q n] write_fails [of m p "to_be 8 v" m']
  by (cases b) simp_all

lemma two_writes:
  assumes "ok m" and "wr m p bs = (True, m1)" and "wr m1 q cs = (True, m2)"
    and "length bs = unat n" and "unat p + unat n \<le> unat q \<or> unat q + length cs \<le> unat p"
  shows "rd m2 p n = Some bs"
  using assms read_disjoint [of m1 q cs m2 p n] read_written [of m p bs m1 n] write_keeps by metis

end

lemma copy_into_beyond:
  "i + length ys \<le> length xs \<Longrightarrow> i + length ys \<le> j \<Longrightarrow> take n (drop j (copy_into xs i ys)) = take n (drop j xs)"
  by (simp add: copy_into_after)

interpretation machine_mem: region_memory wf_machine mem_region mem_write
proof
  fix m p n bs
  show "mem_region m p n = Some bs \<Longrightarrow> length bs = unat n"
    by (rule mem_region_length)
next
  fix m :: machine and bs :: bytes and n p :: u64
  assume "wf_machine m" and "length bs = unat n"
  then show "fst (mem_write m p bs) \<longleftrightarrow> mem_region m p n \<noteq> None"
    by (simp add: mem_write_iff mem_region_iff)
next
  fix m p bs b m'
  show "wf_machine m \<Longrightarrow> mem_write m p bs = (b, m') \<Longrightarrow> wf_machine m'"
    by (rule wf_mem_write)
next
  fix m p bs m'
  show "mem_write m p bs = (False, m') \<Longrightarrow> m' = m"
    by (auto simp: mem_write_def Let_def split: option.splits)
next
  fix m m' :: machine and p n :: u64 and bs :: bytes
  assume "wf_machine m" and w: "mem_write m p bs = (True, m')" and "length bs = unat n"
  then show "mem_region m' p n = Some bs"
    using wf_mem_write [OF w] copy_into_same [of "unat p" bs "mem m"]
    by (auto simp: mem_write_iff mem_region_iff wf_machine_def split: if_splits)
next
  fix m m' :: machine and p q n :: u64 and bs :: bytes
  assume "wf_machine m" and w: "mem_write m p bs = (True, m')"
    and "unat q + unat n \<le> unat p \<or> unat p + length bs \<le> unat q"
  then show "mem_region m' q n = mem_region m q n"
    using wf_mem_write [OF w] copy_into_before [of "unat p" bs "mem m" "unat q" "unat n"]
      copy_into_beyond [of "unat p" bs "mem m" "unat q" "unat n"]
    by (auto simp: mem_write_iff mem_region_iff wf_machine_def split: if_splits)
qed

lemmas mem_store_load = machine_mem.store_load [folded mem_load_region]

section \<open>Properties\<close>

text \<open>C30. Memory: a word store succeeds exactly where eight bytes lie within the memory; then the
  word is loaded back and every load that does not overlap it is unchanged.  A store that does
  not fit changes nothing.\<close>

theorem memory_words:
  assumes "wf_machine m" and "mem_store m p v = (b, m')"
  shows "(b \<longleftrightarrow> unat p + 8 \<le> MEM_BYTES) \<and>
    (if b then mem_load m' p = Some v \<and>
        (\<forall>q. unat q + 8 \<le> unat p \<or> unat p + 8 \<le> unat q \<longrightarrow> mem_load m' q = mem_load m q)
     else m' = m)"
proof -
  have w: "mem_write m p (to_be 8 v) = (b, m')"
    using assms(2) by (simp add: mem_store_write WORD_BYTES_def del: to_be.simps)
  have "b \<longleftrightarrow> unat p + 8 \<le> MEM_BYTES"
    using w assms(1) by (simp add: mem_write_iff del: to_be.simps split: if_splits)
  moreover have "mem_load m' p = Some v" if b
    using mem_store_load [OF assms(1)] w that by simp
  moreover have "mem_load m' q = mem_load m q" if "unat q + 8 \<le> unat p \<or> unat p + 8 \<le> unat q" for q
    using machine_mem.store_frame [OF assms(1) w, of q 8] that by (simp add: mem_load_region)
  moreover have "m' = m" if "\<not> b"
    using machine_mem.write_fails [of m p "to_be 8 v" m'] w that by simp
  ultimately show ?thesis
    by simp
qed

lemma memory_words_witness:
  "mem_load (snd (mem_store new_machine 40 7)) 40 = Some 7 \<and>
   mem_load (snd (mem_store new_machine 40 7)) 48 = mem_load new_machine 48 \<and>
   snd (mem_store new_machine (- 1) 7) = new_machine"
proof -
  obtain b m where s: "mem_store new_machine 40 7 = (b, m)" by fastforce
  obtain b' m' where s': "mem_store new_machine (- 1) 7 = (b', m')" by fastforce
  show ?thesis
    using memory_words [OF wf_new_machine s] memory_words [OF wf_new_machine s'] s s'
    by (simp add: MEM_BYTES_def unsigned_minus_1_eq_mask mask_eq_exp_minus_1 split: if_splits)
qed

end
