(* ===== verification/Crypto.thy ===== *)
theory Crypto
  imports MachineState
begin

text \<open>
  The cryptographic opcodes of \<open>crates/qtv-vm/src/crypto.rs\<close>.  The primitives come from the
  external Q-Crypto crate and are parameters: the record \<open>prims\<close> holds the functions the
  code calls and the sizes it reads, with \<open>None\<close> the panic of a primitive.  A digest, in the
  code the array \<open>[u8; 32]\<close>, is the 256-bit word of its bytes, so its length is in its type.

  The lemmas show that an authentication path built from a tree verifies for every leaf,
  and that two paths accepted against one root open the same leaf at the same index and
  depth unless the hash has a collision, so a path of another depth (an inner node
  presented as a leaf) is only accepted through one.
\<close>

type_synonym digest = "256 word"

record prims =
  p_sha3_256 :: "bytes \<Rightarrow> digest option"
  p_ml_pk_bytes :: nat
  p_ml_sig_bytes :: nat
  p_slh_pk_bytes :: nat
  p_slh_sig_bytes :: nat
  p_ml_degenerate :: "bytes \<Rightarrow> bool option"
  p_ml_verify :: "bytes \<Rightarrow> bytes \<Rightarrow> bytes \<Rightarrow> bytes \<Rightarrow> bool option"
  p_slh_verify :: "bytes \<Rightarrow> bytes \<Rightarrow> bytes \<Rightarrow> bytes \<Rightarrow> bool option"

definition digest_bytes :: "digest \<Rightarrow> bytes" where
  "digest_bytes d = to_be 32 d"

text \<open>A call of a primitive: its panic unwinds.\<close>

definition call :: "'a option \<Rightarrow> exn + 'a" where
  "call r = (case r of None \<Rightarrow> Inl Panic | Some v \<Rightarrow> Inr v)"

definition sha3_256 :: "prims \<Rightarrow> bytes \<Rightarrow> exn + bytes" where
  "sha3_256 P bs = bindE (call (p_sha3_256 P bs)) (\<lambda>d. Inr (digest_bytes d))"

definition SCHEME_ML_DSA :: u64 where "SCHEME_ML_DSA = 1"
definition SCHEME_SLH_DSA :: u64 where "SCHEME_SLH_DSA = 2"

definition ascii :: "string \<Rightarrow> bytes" where
  "ascii s = map of_char s"

definition VM_VERIFY_CONTEXT :: bytes where
  "VM_VERIFY_CONTEXT = ascii ''QVM/contract/v1''"

definition ML_DSA_SIGNED_BYTES :: "prims \<Rightarrow> u64" where
  "ML_DSA_SIGNED_BYTES P = of_nat (p_ml_pk_bytes P + p_ml_sig_bytes P)"

definition SLH_DSA_SIGNED_BYTES :: "prims \<Rightarrow> u64" where
  "SLH_DSA_SIGNED_BYTES P = of_nat (p_slh_pk_bytes P + p_slh_sig_bytes P)"

definition MERKLE_HEADER :: u64 where "MERKLE_HEADER = 2 * 32 + 8"
definition MERKLE_LEAF_TAG :: u8 where "MERKLE_LEAF_TAG = 0"
definition MERKLE_NODE_TAG :: u8 where "MERKLE_NODE_TAG = 1"

definition merkle_leaf :: "prims \<Rightarrow> bytes \<Rightarrow> exn + bytes" where
  "merkle_leaf P leaf = sha3_256 P (MERKLE_LEAF_TAG # leaf)"

definition merkle_node :: "prims \<Rightarrow> bytes \<Rightarrow> bytes \<Rightarrow> exn + bytes" where
  "merkle_node P left right = sha3_256 P (MERKLE_NODE_TAG # left @ right)"

text \<open>\<open>if !m.mem_write(out, &digest) { return Err(BadMemory) }\<close>\<close>

definition write_or_fault :: "machine \<Rightarrow> u64 \<Rightarrow> bytes \<Rightarrow> exn + machine" where
  "write_or_fault m out bs =
     (case mem_write m out bs of (True, m') \<Rightarrow> Inr m' | (False, _) \<Rightarrow> Inl (Fault BadMemory))"

definition hash :: "prims \<Rightarrow> machine \<Rightarrow> Reg \<Rightarrow> Reg \<Rightarrow> Reg \<Rightarrow> exn + machine" where
  "hash P m a b c =
     bindE (reg m a) (\<lambda>ptr.
     bindE (reg m b) (\<lambda>len.
     bindE (reg m c) (\<lambda>out.
     bindE (ok_or (mem_region m ptr len) BadMemory) (\<lambda>region.
     bindE (sha3_256 P region) (\<lambda>digest.
       write_or_fault m out digest)))))"

definition verify_ml :: "prims \<Rightarrow> machine \<Rightarrow> Reg \<Rightarrow> Reg \<Rightarrow> Reg \<Rightarrow> exn + machine" where
  "verify_ml P m a b c =
     (let PK = p_ml_pk_bytes P; SIG = p_ml_sig_bytes P in
     bindE (reg m a) (\<lambda>ptr.
     bindE (reg m b) (\<lambda>len.
     bindE (ok_or (mem_region m ptr len) BadMemory) (\<lambda>region.
       if length region < PK + SIG then Inl (Fault BadMemory)
       else
         let pk = take PK region;
             sig = take SIG (drop PK region);
             message = drop (PK + SIG) region in
         bindE (call (p_ml_degenerate P pk)) (\<lambda>degenerate.
         bindE (if degenerate then Inr False
                else call (p_ml_verify P pk message sig VM_VERIFY_CONTEXT)) (\<lambda>ok.
           set_reg m c (of_bool ok)))))))"

definition verify_slh :: "prims \<Rightarrow> machine \<Rightarrow> Reg \<Rightarrow> Reg \<Rightarrow> Reg \<Rightarrow> exn + machine" where
  "verify_slh P m a b c =
     (let PK = p_slh_pk_bytes P; SIG = p_slh_sig_bytes P in
     bindE (reg m a) (\<lambda>ptr.
     bindE (reg m b) (\<lambda>len.
     bindE (ok_or (mem_region m ptr len) BadMemory) (\<lambda>region.
       if length region < PK + SIG then Inl (Fault BadMemory)
       else
         let pk = take PK region;
             sig = take SIG (drop PK region);
             message = drop (PK + SIG) region in
         bindE (call (p_slh_verify P pk message sig VM_VERIFY_CONTEXT)) (\<lambda>ok.
           set_reg m c (of_bool ok))))))"

text \<open>\<open>chunks_exact(32)\<close>: whole chunks only, a shorter tail is dropped.\<close>

function chunks32 :: "bytes \<Rightarrow> bytes list" where
  "chunks32 xs = (if length xs < 32 then [] else take 32 xs # chunks32 (drop 32 xs))"
  by pat_completeness auto
termination
  by (relation "measure length") auto

declare chunks32.simps [simp del]

text \<open>The loop over the levels of the path, with the running node.\<close>

fun merkle_fold :: "prims \<Rightarrow> u64 \<Rightarrow> nat \<Rightarrow> bytes \<Rightarrow> bytes list \<Rightarrow> exn + bytes" where
  "merkle_fold P index level node [] = Inr node"
| "merkle_fold P index level node (sib # sibs) =
     (let node_on_left = (level \<ge> 64 \<or> drop_bit level index AND 1 = 0) in
      bindE (if node_on_left then merkle_node P node sib else merkle_node P sib node) (\<lambda>node'.
        merkle_fold P index (level + 1) node' sibs))"

text \<open>The decision on the parsed region, before the result register is written.\<close>

definition merkle_check :: "prims \<Rightarrow> bytes \<Rightarrow> u64 \<Rightarrow> bytes \<Rightarrow> bytes \<Rightarrow> bool \<Rightarrow> exn + bool" where
  "merkle_check P root index leaf path strict =
     (let depth = length path div 32 in
      if path = [] \<or> (depth < 64 \<and> drop_bit depth index \<noteq> 0) \<or> (strict \<and> depth > 64)
      then Inr False
      else bindE (merkle_leaf P leaf) (\<lambda>node.
           bindE (merkle_fold P index 0 node (chunks32 path)) (\<lambda>node.
             Inr (node = root))))"

definition merkle_verify :: "prims \<Rightarrow> machine \<Rightarrow> Reg \<Rightarrow> Reg \<Rightarrow> Reg \<Rightarrow> bool \<Rightarrow> exn + machine" where
  "merkle_verify P m a b c strict =
     (let H = 32; HEADER = 2 * H + 8 in
     bindE (reg m a) (\<lambda>ptr.
     bindE (reg m b) (\<lambda>len.
     bindE (ok_or (mem_region m ptr len) BadMemory) (\<lambda>region.
       if length region < HEADER \<or> (length region - HEADER) mod H \<noteq> 0
       then Inl (Fault BadMemory)
       else
         let root = take H region;
             index = from_be (take 8 (drop H region));
             leaf = take H (drop (H + 8) region);
             path = drop HEADER region in
         bindE (merkle_check P root index leaf path strict) (\<lambda>ok.
           set_reg m c (of_bool ok))))))"

definition address :: "prims \<Rightarrow> machine \<Rightarrow> Reg \<Rightarrow> Reg \<Rightarrow> Reg \<Rightarrow> exn + machine" where
  "address P m a b c =
     bindE (reg m a) (\<lambda>ptr.
     bindE (reg m b) (\<lambda>scheme.
     bindE (reg m c) (\<lambda>out.
     bindE (if scheme = SCHEME_ML_DSA then Inr (p_ml_pk_bytes P)
            else if scheme = SCHEME_SLH_DSA then Inr (p_slh_pk_bytes P)
            else Inl (Fault BadScheme)) (\<lambda>pk_len.
     bindE (ok_or (mem_region m ptr (of_nat pk_len)) BadMemory) (\<lambda>pk.
     bindE (sha3_256 P (ucast scheme # pk)) (\<lambda>digest.
       write_or_fault m out digest))))))"

section \<open>Frames\<close>

lemma length_digest_bytes [simp]: "length (digest_bytes d) = 32"
  by (simp add: digest_bytes_def del: to_be.simps)

lemma digest_bytes_inject [simp]: "digest_bytes d = digest_bytes e \<longleftrightarrow> d = e"
  by (simp add: digest_bytes_def to_be_inject del: to_be.simps)

lemma sha3_256_Inr_iff: "sha3_256 P x = Inr y \<longleftrightarrow> (\<exists>d. p_sha3_256 P x = Some d \<and> y = digest_bytes d)"
  by (auto simp: sha3_256_def call_def split: option.splits)

lemma length_sha3_256: "sha3_256 P x = Inr y \<Longrightarrow> length y = 32"
  by (auto simp: sha3_256_Inr_iff)

lemma write_or_fault_Inr_iff [simp]:
  "write_or_fault m out bs = Inr m' \<longleftrightarrow> mem_write m out bs = (True, m')"
  by (auto simp: write_or_fault_def split: prod.splits bool.splits)

lemma wf_write_or_fault: "write_or_fault m out bs = Inr m' \<Longrightarrow> wf_machine m \<Longrightarrow> wf_machine m'"
  by (auto dest: wf_mem_write)

lemma crypto_wf:
  assumes "wf_machine m"
  shows "hash P m a b c = Inr m' \<Longrightarrow> wf_machine m'"
    and "verify_ml P m a b c = Inr m' \<Longrightarrow> wf_machine m'"
    and "verify_slh P m a b c = Inr m' \<Longrightarrow> wf_machine m'"
    and "merkle_verify P m a b c strict = Inr m' \<Longrightarrow> wf_machine m'"
    and "address P m a b c = Inr m' \<Longrightarrow> wf_machine m'"
  using assms
  by (auto simp: hash_def verify_ml_def verify_slh_def merkle_verify_def address_def Let_def
      dest: wf_mem_write wf_set_reg split: if_splits)

text \<open>The opcodes leave the program counter and the stack alone.\<close>

lemma write_or_fault_frame:
  "mem_write m out bs = (True, m') \<Longrightarrow> mpc m' = mpc m \<and> stack m' = stack m \<and> regs m' = regs m"
  by (auto simp: mem_write_def Let_def split: option.splits)

lemma set_reg_frame: "set_reg m r v = Inr m' \<Longrightarrow> mpc m' = mpc m \<and> stack m' = stack m \<and> mem m' = mem m"
  by (auto simp: set_reg_def split: if_splits)

lemma crypto_frame:
  shows "hash P m a b c = Inr m' \<Longrightarrow> mpc m' = mpc m \<and> stack m' = stack m"
    and "verify_ml P m a b c = Inr m' \<Longrightarrow> mpc m' = mpc m \<and> stack m' = stack m"
    and "verify_slh P m a b c = Inr m' \<Longrightarrow> mpc m' = mpc m \<and> stack m' = stack m"
    and "merkle_verify P m a b c strict = Inr m' \<Longrightarrow> mpc m' = mpc m \<and> stack m' = stack m"
    and "address P m a b c = Inr m' \<Longrightarrow> mpc m' = mpc m \<and> stack m' = stack m"
  by (auto simp: hash_def verify_ml_def verify_slh_def merkle_verify_def address_def Let_def
      dest: write_or_fault_frame set_reg_frame split: if_splits)

text \<open>A successful hash: the digest of the region is at the output, in memory that was valid.\<close>

lemma hash_InrD:
  assumes "hash P m a b c = Inr m'"
  obtains ptr len out region d where "reg m a = Inr ptr" "reg m b = Inr len" "reg m c = Inr out"
    "mem_region m ptr len = Some region" "p_sha3_256 P region = Some d"
    "mem_write m out (digest_bytes d) = (True, m')"
  using assms
  by (auto simp: hash_def sha3_256_Inr_iff)

section \<open>Authentication paths: what is accepted\<close>

text \<open>
  Every hash has collisions somewhere, so binding is stated over the inputs the two
  verifications hash: two different members of that finite set share a digest.
\<close>

definition collision :: "prims \<Rightarrow> bytes set \<Rightarrow> bool" where
  "collision P X \<longleftrightarrow>
     (\<exists>x \<in> X. \<exists>y \<in> X. x \<noteq> y \<and> (\<exists>d. p_sha3_256 P x = Some d \<and> p_sha3_256 P y = Some d))"

lemma collision_mono: "collision P X \<Longrightarrow> X \<subseteq> Y \<Longrightarrow> collision P Y"
  unfolding collision_def by blast

definition on_left :: "u64 \<Rightarrow> nat \<Rightarrow> bool" where
  "on_left index level \<longleftrightarrow> level \<ge> 64 \<or> drop_bit level index AND 1 = 0"

lemma merkle_fold_Cons:
  "merkle_fold P index level node (sib # sibs) =
     bindE (if on_left index level then merkle_node P node sib else merkle_node P sib node)
       (\<lambda>node'. merkle_fold P index (level + 1) node' sibs)"
  by (simp add: on_left_def)

lemma merkle_fold_append:
  "merkle_fold P index level node (xs @ ys) =
     bindE (merkle_fold P index level node xs) (\<lambda>n. merkle_fold P index (level + length xs) n ys)"
proof (induction xs arbitrary: level node)
  case Nil
  then show ?case by simp
next
  case (Cons x xs)
  then show ?case
    by (simp only: append_Cons merkle_fold_Cons bindE_assoc) (simp add: Cons.IH)
qed

lemma collisionI:
  "sha3_256 P x = Inr z \<Longrightarrow> sha3_256 P y = Inr z \<Longrightarrow> x \<noteq> y \<Longrightarrow> x \<in> X \<Longrightarrow> y \<in> X \<Longrightarrow> collision P X"
  unfolding collision_def sha3_256_Inr_iff by (metis digest_bytes_inject)

text \<open>The input of one node, and the inputs of a walk.\<close>

definition node_input :: "bytes \<Rightarrow> bytes \<Rightarrow> bytes" where
  "node_input left right = MERKLE_NODE_TAG # left @ right"

lemma merkle_node_input: "merkle_node P l r = sha3_256 P (node_input l r)"
  by (simp add: merkle_node_def node_input_def)

fun fold_inputs :: "prims \<Rightarrow> u64 \<Rightarrow> nat \<Rightarrow> bytes \<Rightarrow> bytes list \<Rightarrow> bytes set" where
  "fold_inputs P index level node [] = {}"
| "fold_inputs P index level node (sib # sibs) =
     (let x = (if on_left index level then node_input node sib else node_input sib node) in
      insert x (case sha3_256 P x of Inl _ \<Rightarrow> {} | Inr node' \<Rightarrow> fold_inputs P index (level + 1) node' sibs))"

definition path_inputs :: "prims \<Rightarrow> u64 \<Rightarrow> bytes \<Rightarrow> bytes \<Rightarrow> bytes set" where
  "path_inputs P index leaf path =
     insert (MERKLE_LEAF_TAG # leaf)
       (case merkle_leaf P leaf of Inl _ \<Rightarrow> {} | Inr node \<Rightarrow> fold_inputs P index 0 node (chunks32 path))"

lemma finite_path_inputs: "finite (path_inputs P index leaf path)"
proof -
  have "finite (fold_inputs P index level node sibs)" for level node sibs
    by (induction sibs arbitrary: level node) (auto simp: Let_def split: sum.splits)
  then show ?thesis
    by (auto simp: path_inputs_def split: sum.splits)
qed

lemma fold_inputs_append:
  "merkle_fold P index level node xs = Inr n \<Longrightarrow>
     fold_inputs P index level node (xs @ ys) =
       fold_inputs P index level node xs \<union> fold_inputs P index (level + length xs) n ys"
proof (induction xs arbitrary: level node)
  case Nil
  then show ?case by simp
next
  case (Cons x xs)
  then show ?case
    by (auto simp: merkle_fold_Cons merkle_node_input Let_def simp del: merkle_fold.simps(2) split: if_splits)
qed

lemma merkle_node_eq:
  assumes "merkle_node P l r = Inr z" and "merkle_node P l' r' = Inr z"
    and "length l = 32" and "length l' = 32" and "\<not> collision P X"
    and "node_input l r \<in> X" and "node_input l' r' \<in> X"
  shows "l = l' \<and> r = r'"
  using assms collisionI [of P "node_input l r" z "node_input l' r'" X]
  by (auto simp: merkle_node_input) (auto simp: node_input_def)

lemma merkle_fold_length:
  "merkle_fold P index level node sibs = Inr z \<Longrightarrow> length node = 32 \<Longrightarrow> length z = 32"
proof (induction sibs arbitrary: level node)
  case Nil
  then show ?case by simp
next
  case (Cons s sibs)
  then show ?case
    by (auto simp: merkle_fold_Cons merkle_node_def simp del: merkle_fold.simps
        dest: length_sha3_256 split: if_splits)
qed

text \<open>Two walks that take the same sides from the same number of levels below one node.\<close>

lemma merkle_fold_binding:
  assumes "length ss = length ss'"
    and "merkle_fold P i l n ss = Inr z" and "merkle_fold P i' l' m ss' = Inr z"
    and "\<And>j. j < length ss \<Longrightarrow> on_left i (l + j) = on_left i' (l' + j)"
    and "list_all (\<lambda>s. length s = 32) ss" and "list_all (\<lambda>s. length s = 32) ss'"
    and "length n = 32" and "length m = 32"
    and "fold_inputs P i l n ss \<union> fold_inputs P i' l' m ss' \<subseteq> X" and "\<not> collision P X"
  shows "n = m"
  using assms
proof (induction ss ss' arbitrary: l l' n m rule: list_induct2)
  case Nil
  then show ?case by simp
next
  case (Cons s ss s' ss')
  have side: "on_left i l = on_left i' l'"
    using Cons.prems(3) [of 0] by simp
  have rest: "on_left i (l + 1 + j) = on_left i' (l' + 1 + j)" if "j < length ss" for j
    using Cons.prems(3) [of "Suc j"] that by simp
  obtain n' m' where n': "(if on_left i l then merkle_node P n s else merkle_node P s n) = Inr n'"
      "merkle_fold P i (l + 1) n' ss = Inr z"
    and m': "(if on_left i l then merkle_node P m s' else merkle_node P s' m) = Inr m'"
      "merkle_fold P i' (l' + 1) m' ss' = Inr z"
    using Cons.prems(1,2) side by (auto simp: merkle_fold_Cons simp del: merkle_fold.simps)
  have "length n' = 32" "length m' = 32"
    using n'(1) m'(1) by (auto simp: merkle_node_def dest: length_sha3_256 split: if_splits)
  moreover have ins: "fold_inputs P i (l + 1) n' ss \<union> fold_inputs P i' (l' + 1) m' ss' \<subseteq> X"
      "(if on_left i l then node_input n s else node_input s n) \<in> X"
      "(if on_left i l then node_input m s' else node_input s' m) \<in> X"
    using Cons.prems(8) n'(1) m'(1) side by (auto simp: merkle_node_input Let_def split: if_splits)
  ultimately have "n' = m'"
    using Cons.IH [OF n'(2) m'(2)] rest Cons.prems(4,5,9) by auto
  then show ?case
    using n'(1) m'(1) ins(2,3) merkle_node_eq [of P n s n' m s' X] merkle_node_eq [of P s n n' s' m X]
      Cons.prems(4-7,9)
    by (auto split: if_splits)
qed

lemma chunks32_lengths: "list_all (\<lambda>s. length s = 32) (chunks32 xs)"
proof (induction xs rule: chunks32.induct)
  case (1 xs)
  then show ?case
    by (subst chunks32.simps) auto
qed

lemma length_chunks32: "length (chunks32 xs) = length xs div 32"
proof (induction xs rule: chunks32.induct)
  case (1 xs)
  show ?case
  proof (cases "length xs < 32")
    case True
    then show ?thesis by (simp add: chunks32.simps [of xs])
  next
    case False
    then show ?thesis
      using 1 by (simp add: chunks32.simps [of xs] le_div_geq)
  qed
qed

lemma chunks32_concat:
  "list_all (\<lambda>s. length s = 32) ss \<Longrightarrow> chunks32 (concat ss) = ss"
proof (induction ss)
  case Nil
  then show ?case by (simp add: chunks32.simps)
next
  case (Cons s ss)
  then show ?case by (simp add: chunks32.simps [of "s @ concat ss"])
qed

lemma merkle_check_TrueD:
  assumes "merkle_check P root i leaf path strict = Inr True"
  obtains n where "merkle_leaf P leaf = Inr n" "merkle_fold P i 0 n (chunks32 path) = Inr root"
  using assms by (auto simp: merkle_check_def Let_def split: if_splits)

lemma on_left_drop_bit: "l + k < 64 \<Longrightarrow> on_left (drop_bit k i) l = on_left i (l + k)"
  by (simp add: on_left_def drop_bit_drop_bit add.commute)

lemma leaf_not_node:
  "merkle_leaf P leaf = Inr z \<Longrightarrow> merkle_node P l r = Inr z \<Longrightarrow>
     MERKLE_LEAF_TAG # leaf \<in> X \<Longrightarrow> node_input l r \<in> X \<Longrightarrow> collision P X"
  using collisionI [of P "MERKLE_LEAF_TAG # leaf" z "node_input l r" X]
  by (simp add: merkle_leaf_def merkle_node_input) (simp add: node_input_def MERKLE_LEAF_TAG_def MERKLE_NODE_TAG_def)

lemma leaf_inject:
  "merkle_leaf P leaf = Inr z \<Longrightarrow> merkle_leaf P leaf' = Inr z \<Longrightarrow>
     MERKLE_LEAF_TAG # leaf \<in> X \<Longrightarrow> MERKLE_LEAF_TAG # leaf' \<in> X \<Longrightarrow> \<not> collision P X \<Longrightarrow> leaf = leaf'"
  using collisionI [of P "MERKLE_LEAF_TAG # leaf" z "MERKLE_LEAF_TAG # leaf'" X]
  by (auto simp: merkle_leaf_def)

lemma merkle_fold_last_node:
  assumes "merkle_fold P i l n ss = Inr z" and "ss \<noteq> []"
  shows "\<exists>x y. merkle_node P x y = Inr z \<and> node_input x y \<in> fold_inputs P i l n ss"
proof -
  obtain ss0 s where ss: "ss = ss0 @ [s]"
    using assms(2) by (cases ss rule: rev_cases) auto
  obtain n0 where n0: "merkle_fold P i l n ss0 = Inr n0" "merkle_fold P i (l + length ss0) n0 [s] = Inr z"
    using assms(1) ss by (auto simp: merkle_fold_append simp del: merkle_fold.simps(2))
  have "\<exists>x y. merkle_node P x y = Inr z \<and> node_input x y \<in> fold_inputs P i (l + length ss0) n0 [s]"
    using n0(2) by (auto simp: merkle_fold_Cons Let_def simp del: merkle_fold.simps(2) split: if_splits)
  then show ?thesis
    unfolding ss fold_inputs_append [OF n0(1)] by blast
qed

text \<open>
  An accepted path opens the position \<open>(depth, index)\<close> of the tree below the root.  A
  second accepted path at the same position opens the same leaf, and none is accepted at a
  position below it, unless two of the inputs hashed by the two checks collide.
\<close>

lemma path_inputs_accepted:
  "merkle_leaf P leaf = Inr n \<Longrightarrow>
     path_inputs P i leaf path = insert (MERKLE_LEAF_TAG # leaf) (fold_inputs P i 0 n (chunks32 path))"
  by (simp add: path_inputs_def)

lemma merkle_binding:
  assumes acc: "merkle_check P root i leaf path True = Inr True"
    and acc': "merkle_check P root i' leaf' path' True = Inr True"
    and depth: "length path' div 32 = length path div 32 + k"
    and pos: "i = drop_bit k i'"
  shows "(k = 0 \<and> leaf = leaf') \<or> collision P (path_inputs P i leaf path \<union> path_inputs P i' leaf' path')"
    (is "_ \<or> collision P ?X")
proof (cases "collision P ?X")
  case True
  then show ?thesis by simp
next
  case no: False
  obtain n where n: "merkle_leaf P leaf = Inr n" "merkle_fold P i 0 n (chunks32 path) = Inr root"
    using acc by (rule merkle_check_TrueD)
  obtain n' where n': "merkle_leaf P leaf' = Inr n'" "merkle_fold P i' 0 n' (chunks32 path') = Inr root"
    using acc' by (rule merkle_check_TrueD)
  note inputs = path_inputs_accepted [OF n(1), of i path] path_inputs_accepted [OF n'(1), of i' path']
  have d64: "length path' div 32 \<le> 64"
    using acc' by (auto simp: merkle_check_def Let_def split: if_splits)
  let ?ss = "chunks32 path" and ?front = "take k (chunks32 path')" and ?ss' = "drop k (chunks32 path')"
  have lens: "length ?ss = length ?ss'" "length ?front = k" "k + length ?ss = length path' div 32"
    using depth by (simp_all add: length_chunks32)
  have "merkle_fold P i' 0 n' (?front @ ?ss') = Inr root"
    using n'(2) by simp
  then obtain m where m: "merkle_fold P i' 0 n' ?front = Inr m" "merkle_fold P i' k m ?ss' = Inr root"
    unfolding merkle_fold_append using lens(2) by auto
  have split: "fold_inputs P i' 0 n' (chunks32 path') = fold_inputs P i' 0 n' ?front \<union> fold_inputs P i' k m ?ss'"
    using fold_inputs_append [OF m(1), of ?ss'] lens(2) by simp
  have len32: "length n = 32" "length n' = 32"
    using n(1) n'(1) by (auto simp: merkle_leaf_def dest: length_sha3_256)
  have m32: "length m = 32"
    using merkle_fold_length [OF m(1) len32(2)] .
  have sides: "on_left i (0 + j) = on_left i' (k + j)" if "j < length ?ss" for j
    using on_left_drop_bit [of j k i'] that d64 lens(3) pos by (simp add: add.commute)
  have tails: "list_all (\<lambda>s. length s = 32) ?ss'"
    using chunks32_lengths [of path'] by (auto simp: list_all_iff dest: in_set_dropD)
  have eq: "n = m"
    using merkle_fold_binding [OF lens(1) n(2) m(2) sides chunks32_lengths tails len32(1) m32 _ no]
    unfolding inputs split by blast
  show ?thesis
  proof (cases "k = 0")
    case True
    then show ?thesis
      using leaf_inject [OF n(1), of leaf' ?X] m(1) n'(1) eq no by (simp add: inputs)
  next
    case False
    then have "?front \<noteq> []"
      using lens(2) by (metis length_0_conv)
    then show ?thesis
      using merkle_fold_last_node [OF m(1)] leaf_not_node [OF n(1), of _ _ ?X] eq no
      unfolding inputs split by blast
  qed
qed

section \<open>Authentication paths: every leaf of a tree is accepted\<close>

text \<open>The tree over a leaf function, level by level, and the siblings on the way up.\<close>

fun tree_node :: "prims \<Rightarrow> (nat \<Rightarrow> bytes) \<Rightarrow> nat \<Rightarrow> nat \<Rightarrow> exn + bytes" where
  "tree_node P f 0 i = merkle_leaf P (f i)"
| "tree_node P f (Suc h) i =
     bindE (tree_node P f h (2 * i)) (\<lambda>l. bindE (tree_node P f h (2 * i + 1)) (\<lambda>r. merkle_node P l r))"

definition sibling :: "nat \<Rightarrow> nat" where
  "sibling j = (if even j then j + 1 else j - 1)"

fun tree_path :: "prims \<Rightarrow> (nat \<Rightarrow> bytes) \<Rightarrow> nat \<Rightarrow> nat \<Rightarrow> exn + bytes list" where
  "tree_path P f i 0 = Inr []"
| "tree_path P f i (Suc h) =
     bindE (tree_path P f i h) (\<lambda>ss. bindE (tree_node P f h (sibling (i div 2 ^ h))) (\<lambda>s. Inr (ss @ [s])))"

lemma tree_path_length: "tree_path P f i h = Inr ss \<Longrightarrow> length ss = h"
  by (induction h arbitrary: ss) auto

lemma tree_node_length: "tree_node P f h i = Inr z \<Longrightarrow> length z = 32"
  by (cases h) (auto simp: merkle_leaf_def merkle_node_def dest: length_sha3_256)

lemma tree_path_lengths: "tree_path P f i h = Inr ss \<Longrightarrow> list_all (\<lambda>s. length s = 32) ss"
  by (induction h arbitrary: ss) (auto dest: tree_node_length)

lemma on_left_of_nat:
  assumes "i < 2 ^ 64" and "l < 64"
  shows "on_left (of_nat i) l \<longleftrightarrow> even (i div 2 ^ l)"
proof -
  have "unat (of_nat i :: u64) = i"
    using assms by (simp add: unsigned_of_nat take_bit_nat_eq_self)
  moreover have "bit (unat (of_nat i :: u64)) l = bit (of_nat i :: u64) l"
    by (simp only: bit_unsigned_iff) (simp add: possible_bit_def)
  ultimately have "bit (of_nat i :: u64) l = bit i l"
    by simp
  then have "odd (drop_bit l (of_nat i :: u64)) = odd (drop_bit l i)"
    by (simp only: bit_iff_odd_drop_bit)
  then show ?thesis
    using assms(2) by (simp add: on_left_def and_one_eq drop_bit_eq_div [of l i] flip: even_iff_mod_2_eq_zero)
qed

lemma children:
  fixes i :: nat
  shows
  "2 * (i div 2 ^ Suc h) = (if even (i div 2 ^ h) then i div 2 ^ h else i div 2 ^ h - 1)"
proof -
  have "i div 2 ^ Suc h = i div 2 ^ h div 2"
    by (simp only: power_Suc2 div_mult2_eq)
  then show ?thesis
    by (cases "even (i div 2 ^ h)") (auto elim!: oddE evenE)
qed

lemma merkle_fold_tree:
  assumes "tree_node P f h (i div 2 ^ h) = Inr z" and "tree_path P f i h = Inr ss"
    and "h \<le> 64" and "i < 2 ^ 64"
  shows "\<exists>n. merkle_leaf P (f i) = Inr n \<and> merkle_fold P (of_nat i) 0 n ss = Inr z"
  using assms
proof (induction h arbitrary: z ss)
  case 0
  then show ?case by simp
next
  case (Suc h)
  let ?j = "i div 2 ^ h"
  obtain ss0 s where ss: "tree_path P f i h = Inr ss0" "tree_node P f h (sibling ?j) = Inr s" "ss = ss0 @ [s]"
    using Suc.prems(2) by auto
  obtain l r where lr: "tree_node P f h (2 * (i div 2 ^ Suc h)) = Inr l"
      "tree_node P f h (2 * (i div 2 ^ Suc h) + 1) = Inr r" "merkle_node P l r = Inr z"
    using Suc.prems(1) by auto
  have side: "on_left (of_nat i) h \<longleftrightarrow> even ?j"
    using Suc.prems by (intro on_left_of_nat) simp_all
  obtain x where x: "tree_node P f h ?j = Inr x" and z: "(if even ?j then merkle_node P x s else merkle_node P s x) = Inr z"
    using lr ss(2) unfolding children sibling_def by (cases "even ?j") (auto elim!: oddE)
  obtain n where n: "merkle_leaf P (f i) = Inr n" "merkle_fold P (of_nat i) 0 n ss0 = Inr x"
    using Suc.IH [OF x ss(1)] Suc.prems by auto
  then show ?case
    using z side tree_path_length [OF ss(1)] ss(3)
    by (simp add: merkle_fold_append merkle_fold_Cons del: merkle_fold.simps(2))
qed

lemma merkle_complete:
  assumes root: "tree_node P f h 0 = Inr root" and path: "tree_path P f i h = Inr ss"
    and h: "1 \<le> h" "h \<le> 64" and i: "i < 2 ^ h"
  shows "merkle_check P root (of_nat i) (f i) (concat ss) strict = Inr True"
proof -
  have i64: "i < 2 ^ 64"
    using i h(2) by (meson less_le_trans one_le_numeral power_increasing)
  obtain n where n: "merkle_leaf P (f i) = Inr n" "merkle_fold P (of_nat i) 0 n ss = Inr root"
    using merkle_fold_tree [of P f h i root ss] root path h(2) i i64 by auto
  have len: "chunks32 (concat ss) = ss" "length ss = h" "ss \<noteq> []"
    using tree_path_lengths [OF path] tree_path_length [OF path] h(1) by (auto simp: chunks32_concat)
  then have depth: "length (concat ss) div 32 = h"
    using length_chunks32 [of "concat ss"] by simp
  have "concat ss \<noteq> []"
    using depth h(1) by (metis div_0 list.size(3) not_one_le_zero)
  moreover have "drop_bit h (of_nat i :: u64) = 0"
  proof -
    have "unat (drop_bit h (of_nat i :: u64)) = drop_bit h i"
      using i64 by (simp only: unat_drop_bit_eq) (simp add: unsigned_of_nat take_bit_nat_eq_self)
    then show ?thesis
      using i by (simp add: drop_bit_eq_div unat_eq_0)
  qed
  ultimately show ?thesis
    using n len depth h(2) by (simp add: merkle_check_def)
qed

section \<open>Properties\<close>

text \<open>C11. Merkle paths bind: when two paths are accepted against one root and the position of the
  first is the second's, or an ancestor of it, then they open the same leaf at the same depth,
  or two of the finitely many inputs hashed by the two checks collide.  In particular an inner
  node cannot be presented as a leaf.\<close>

theorem merkle_paths_bind:
  assumes "merkle_check P root i leaf path True = Inr True"
    and "merkle_check P root i' leaf' path' True = Inr True"
    and "length path' div 32 = length path div 32 + k" and "i = drop_bit k i'"
  shows "(k = 0 \<and> leaf = leaf') \<or>
    (\<exists>x \<in> path_inputs P i leaf path \<union> path_inputs P i' leaf' path'.
     \<exists>y \<in> path_inputs P i leaf path \<union> path_inputs P i' leaf' path'.
       x \<noteq> y \<and> (\<exists>d. p_sha3_256 P x = Some d \<and> p_sha3_256 P y = Some d))"
  using merkle_binding [OF assms] unfolding collision_def .

text \<open>Concrete primitives for the examples: a hash that is the length of its input.\<close>

definition sample_prims :: prims where
  "sample_prims =
     \<lparr>p_sha3_256 = (\<lambda>bs. Some (of_nat (length bs))), p_ml_pk_bytes = 2, p_ml_sig_bytes = 3, p_slh_pk_bytes = 2,
      p_slh_sig_bytes = 3, p_ml_degenerate = (\<lambda>pk. Some False),
      p_ml_verify = (\<lambda>pk msg sig ctx. Some (msg = sig)), p_slh_verify = (\<lambda>pk msg sig ctx. None)\<rparr>"

lemma sample_sha3: "sha3_256 sample_prims bs = Inr (digest_bytes (of_nat (length bs)))"
  by (simp add: sha3_256_def call_def sample_prims_def)

lemma sample_node: "length l = 32 \<Longrightarrow> length r = 32 \<Longrightarrow> merkle_node sample_prims l r = Inr (digest_bytes 65)"
  by (simp add: merkle_node_def sample_sha3)

lemma sample_leaf: "length leaf = 32 \<Longrightarrow> merkle_leaf sample_prims leaf = Inr (digest_bytes 33)"
  by (simp add: merkle_leaf_def sample_sha3)

lemma sample_path:
  "length leaf = 32 \<Longrightarrow> length sib = 32 \<Longrightarrow>
     merkle_check sample_prims (digest_bytes 65) 0 leaf sib True = Inr True"
  using chunks32_concat [of "[sib]"]
  by (auto simp: merkle_check_def merkle_leaf_def sample_sha3 sample_node)

lemma merkle_paths_bind_witness:
  "merkle_check sample_prims (digest_bytes 65) 0 (replicate 32 7) (replicate 32 9) True = Inr True \<and>
   (replicate 32 7 = (replicate 32 7 :: bytes) \<or>
    collision sample_prims (path_inputs sample_prims 0 (replicate 32 7) (replicate 32 9)))"
proof -
  have acc: "merkle_check sample_prims (digest_bytes 65) 0 (replicate 32 7) (replicate 32 9) True = Inr True"
    by (rule sample_path) simp_all
  show ?thesis
    using merkle_paths_bind [OF acc acc, of 0] acc by simp
qed

text \<open>C23. Merkle paths are complete: for a tree of 1 to 64 levels over any leaf function, the path
  of siblings of a leaf is accepted against the root of the tree at the index of the leaf.\<close>

theorem merkle_paths_complete:
  assumes "tree_node P f h 0 = Inr root" and "tree_path P f i h = Inr ss"
    and "1 \<le> h" "h \<le> 64" and "i < 2 ^ h"
  shows "merkle_check P root (of_nat i) (f i) (concat ss) strict = Inr True"
  using assms by (rule merkle_complete)

lemma merkle_paths_complete_witness:
  "\<exists>root ss. merkle_check sample_prims root (of_nat 2) (replicate 32 (of_nat 2)) (concat ss) True = Inr True"
proof -
  let ?f = "\<lambda>i. replicate 32 (of_nat i) :: bytes"
  have "tree_node sample_prims ?f 2 0 = Inr (digest_bytes 65)"
      "tree_path sample_prims ?f 2 2 = Inr [digest_bytes 33, digest_bytes 65]"
    by (simp_all add: numeral_2_eq_2 sample_node sample_leaf)
  then have "merkle_check sample_prims (digest_bytes 65) (of_nat 2) (?f 2)
      (concat [digest_bytes 33, digest_bytes 65]) True = Inr True"
    by (rule merkle_paths_complete) simp_all
  then show ?thesis by blast
qed

end
