(* ===== verification/Listing.thy ===== *)
theory Listing
  imports Isa
begin

text \<open>
  The linear walks over a program's bytes: \<open>boundaries\<close> of \<open>interp.rs\<close>, which collects
  the offsets the interpreter accepts as jump targets, and the loop of \<open>halting_stubs\<close> in
  \<open>abort.rs\<close>, which lists the instructions.  Both are compared with one specification,
  \<open>seq_pc\<close>: the offsets reached from the start of the code by decoding in sequence.
\<close>

section \<open>The walks of the code\<close>

text \<open>The loop of \<open>boundaries\<close>, from \<open>pc\<close> with the offsets found so far.\<close>

function boundaries_from :: "bytes \<Rightarrow> nat \<Rightarrow> u32 fset \<Rightarrow> u32 fset" where
  "boundaries_from code pc found =
     (if pc < length code then
        if 2 ^ 32 \<le> pc then found
        else (case decode code pc of
                Inl _ \<Rightarrow> found
              | Inr (_, len) \<Rightarrow>
                  if len > 0 then boundaries_from code (pc + len) (finsert (of_nat pc) found) else found)
      else found)"
  by pat_completeness auto
termination
  by (relation "measure (\<lambda>(code, pc, _). length code - pc)") auto

declare boundaries_from.simps [simp del]

definition boundaries :: "bytes \<Rightarrow> u32 fset" where
  "boundaries code = boundaries_from code 0 {||}"

text \<open>The first loop of \<open>halting_stubs\<close>: offset, instruction and length of each instruction.\<close>

function listing :: "bytes \<Rightarrow> nat \<Rightarrow> (nat \<times> Instr \<times> nat) list option" where
  "listing code pc =
     (if pc < length code then
        (case decode code pc of
           Inl _ \<Rightarrow> None
         | Inr (instr, len) \<Rightarrow> map_option (\<lambda>rest. (pc, instr, len) # rest) (listing code (pc + len)))
      else Some [])"
  by pat_completeness auto
termination
  by (relation "measure (\<lambda>(code, pc). length code - pc)") (auto dest: decodeD(3))

declare listing.simps [simp del]

section \<open>Offsets reached in sequence\<close>

inductive seq_from :: "bytes \<Rightarrow> nat \<Rightarrow> nat \<Rightarrow> bool" for code where
  here: "seq_from code pc pc"
| next_instr: "decode code pc = Inr (i, n) \<Longrightarrow> seq_from code (pc + n) q \<Longrightarrow> seq_from code pc q"

abbreviation seq_pc :: "bytes \<Rightarrow> nat \<Rightarrow> bool" where
  "seq_pc code \<equiv> seq_from code 0"

lemma seq_from_le: "seq_from code pc q \<Longrightarrow> pc \<le> q"
  by (induction rule: seq_from.induct) auto

lemma seq_from_le_length: "seq_from code pc q \<Longrightarrow> pc \<le> length code \<Longrightarrow> q \<le> length code"
  by (induction rule: seq_from.induct) (auto dest: decodeD(5))

lemma seq_from_snoc:
  "seq_from code pc q \<Longrightarrow> decode code q = Inr (i, n) \<Longrightarrow> seq_from code pc (q + n)"
  by (induction rule: seq_from.induct) (auto intro: seq_from.intros)

lemma seq_from_trans: "seq_from code p q \<Longrightarrow> seq_from code q r \<Longrightarrow> seq_from code p r"
  by (induction rule: seq_from.induct) (auto intro: seq_from.intros)

lemma seq_from_unfold:
  "seq_from code pc q \<longleftrightarrow> q = pc \<or> (\<exists>i n. decode code pc = Inr (i, n) \<and> seq_from code (pc + n) q)"
  by (subst seq_from.simps) auto

text \<open>Two offsets reached in sequence: the later one is reached from the earlier one.\<close>

lemma seq_from_linear:
  "seq_from code pc q \<Longrightarrow> seq_from code pc r \<Longrightarrow> q \<le> r \<Longrightarrow> seq_from code q r"
proof (induction rule: seq_from.induct)
  case (here pc)
  then show ?case by simp
next
  case (next_instr pc i n q)
  have "pc + n \<le> q"
    using next_instr.hyps(2) by (rule seq_from_le)
  moreover have "0 < n"
    using next_instr.hyps(1) by (rule decodeD)
  ultimately have "r \<noteq> pc"
    using next_instr.prems(2) by simp
  then have "seq_from code (pc + n) r"
    using next_instr.prems(1) next_instr.hyps(1) by (subst (asm) seq_from_unfold) auto
  then show ?case
    using next_instr.IH next_instr.prems(2) by blast
qed

section \<open>What the walks compute\<close>

definition decodes :: "bytes \<Rightarrow> nat \<Rightarrow> bool" where
  "decodes code pc \<longleftrightarrow> (\<exists>i n. decode code pc = Inr (i, n))"

lemma boundaries_from_iff:
  "t |\<in>| boundaries_from code pc found \<longleftrightarrow>
     t |\<in>| found \<or> (seq_from code pc (unat t) \<and> decodes code (unat t))"
proof (induction code pc found rule: boundaries_from.induct)
  case (1 code pc found)
  show ?case
  proof (cases "pc < length code \<and> pc < 2 ^ 32 \<and> decodes code pc")
    case True
    then obtain i n where d: "decode code pc = Inr (i, n)"
      by (auto simp: decodes_def)
    then have n: "0 < n"
      by (rule decodeD)
    have pc: "unat (of_nat pc :: u32) = pc"
      using True by (simp add: unsigned_of_nat take_bit_nat_eq_self)
    have "t |\<in>| boundaries_from code pc found \<longleftrightarrow>
        t |\<in>| boundaries_from code (pc + n) (finsert (of_nat pc) found)"
      using True d n by (subst boundaries_from.simps) simp
    also have "\<dots> \<longleftrightarrow> t = of_nat pc \<or> t |\<in>| found \<or> (seq_from code (pc + n) (unat t) \<and> decodes code (unat t))"
      using 1 True d n by auto
    also have "\<dots> \<longleftrightarrow> t |\<in>| found \<or> (seq_from code pc (unat t) \<and> decodes code (unat t))"
      using True d pc by (subst (2) seq_from_unfold) (auto simp: word_unat_eq_iff)
    finally show ?thesis .
  next
    case False
    have stop: "boundaries_from code pc found = found"
      using False by (subst boundaries_from.simps) (auto simp: decodes_def split: sum.splits)
    have "\<not> (seq_from code pc (unat t) \<and> decodes code (unat t))"
    proof
      assume t: "seq_from code pc (unat t) \<and> decodes code (unat t)"
      have "pc \<le> unat t"
        using t seq_from_le by blast
      then have small: "pc < 2 ^ 32"
        using unat_bound [of t] by simp
      have "decodes code pc"
        using t by (subst (asm) seq_from_unfold) (auto simp: decodes_def)
      moreover have "pc < length code"
        using calculation decodeD(3) decodeD(5) unfolding decodes_def by fastforce
      ultimately show False
        using False small by simp
    qed
    then show ?thesis
      unfolding stop by blast
  qed
qed

lemma boundaries_iff: "t |\<in>| boundaries code \<longleftrightarrow> seq_pc code (unat t) \<and> decodes code (unat t)"
  by (simp add: boundaries_def boundaries_from_iff)

lemma listing_Some_iff:
  "listing code pc \<noteq> None \<longleftrightarrow> (\<forall>q. seq_from code pc q \<longrightarrow> q < length code \<longrightarrow> decodes code q)"
proof (induction code pc rule: listing.induct)
  case (1 code pc)
  show ?case
  proof (cases "pc < length code \<and> decodes code pc")
    case True
    then obtain i n where d: "decode code pc = Inr (i, n)"
      by (auto simp: decodes_def)
    then have "listing code pc \<noteq> None \<longleftrightarrow> listing code (pc + n) \<noteq> None"
      using True by (subst listing.simps) simp
    also have "\<dots> \<longleftrightarrow> (\<forall>q. seq_from code (pc + n) q \<longrightarrow> q < length code \<longrightarrow> decodes code q)"
      using 1 True d by simp
    also have "\<dots> \<longleftrightarrow> (\<forall>q. seq_from code pc q \<longrightarrow> q < length code \<longrightarrow> decodes code q)"
      using True d by (subst (2) seq_from_unfold) auto
    finally show ?thesis .
  next
    case False
    then show ?thesis
      using seq_from.here [of code pc] seq_from_le [of code pc]
      by (subst listing.simps) (fastforce simp: decodes_def split: sum.splits)
  qed
qed

lemma listing_set:
  "listing code pc = Some L \<Longrightarrow>
     (p, i, n) \<in> set L \<longleftrightarrow> seq_from code pc p \<and> decode code p = Inr (i, n)"
proof (induction code pc arbitrary: L rule: listing.induct)
  case (1 code pc)
  show ?case
  proof (cases "pc < length code")
    case True
    then obtain i' n' L' where d: "decode code pc = Inr (i', n')"
      and L': "listing code (pc + n') = Some L'" "L = (pc, i', n') # L'"
      using 1(2) by (subst (asm) listing.simps) (auto split: sum.splits)
    then show ?thesis
      using 1(1) [OF True d refl L'(1)] by (subst seq_from_unfold) (auto simp: d)
  next
    case False
    then have "decode code q = Inl Truncated" if "seq_from code pc q" for q
      using seq_from_le [OF that] by (simp add: decode_end)
    then show ?thesis
      using 1(2) False by (subst (asm) listing.simps) auto
  qed
qed

section \<open>Programs\<close>

text \<open>The encoding of a program.\<close>

abbreviation bytes_of :: "Instr list \<Rightarrow> bytes" where
  "bytes_of is \<equiv> concat (map encode is)"

text \<open>Where the instructions of a program lie when they are encoded one after the other.\<close>

fun layout :: "nat \<Rightarrow> Instr list \<Rightarrow> (nat \<times> Instr \<times> nat) list" where
  "layout p [] = []"
| "layout p (i # is) = (p, i, encoded_len i) # layout (p + encoded_len i) is"

lemma listing_program:
  assumes "list_all wf_instr is"
  shows "listing (pre @ bytes_of is) (length pre) = Some (layout (length pre) is)"
  using assms
proof (induction "is" arbitrary: pre)
  case Nil
  then show ?case by (simp add: listing.simps)
next
  case (Cons i "is")
  let ?code = "pre @ encode i @ bytes_of is"
  have d: "decode ?code (length pre) = Inr (i, encoded_len i)"
    using Cons.prems by (intro decode_encode) simp
  have "listing ((pre @ encode i) @ bytes_of is) (length (pre @ encode i)) =
      Some (layout (length (pre @ encode i)) is)"
    using Cons.prems by (intro Cons.IH) simp
  then have "listing ?code (length pre + encoded_len i) = Some (layout (length pre + encoded_len i) is)"
    by (simp add: encoded_len_def)
  moreover have "length pre < length ?code"
    using decodeD(3,5) [OF d] by linarith
  ultimately show ?case
    using d by (simp add: listing.simps [of ?code "length pre"])
qed

lemma listing_code:
  "listing code pc = Some L \<Longrightarrow> pc \<le> length code \<Longrightarrow>
     drop pc code = concat (map (\<lambda>(p, i, n). encode i) L) \<and> list_all (\<lambda>(p, i, n). wf_instr i \<and> n = encoded_len i) L"
proof (induction code pc arbitrary: L rule: listing.induct)
  case (1 code pc)
  show ?case
  proof (cases "pc < length code")
    case True
    then obtain i n L' where d: "decode code pc = Inr (i, n)"
      and L': "listing code (pc + n) = Some L'" "L = (pc, i, n) # L'"
      using 1(2) by (subst (asm) listing.simps) (auto split: sum.splits)
    have "drop pc code = encode i @ drop (pc + n) code"
      using decodeD(6) [OF d] append_take_drop_id [of n "drop pc code"]
      by (auto simp: slice_get_def add.commute split: if_splits)
    then show ?thesis
      using 1(1) [OF True d _ L'(1)] decodeD(1,2,5) [OF d] L'(2) by simp
  next
    case False
    then show ?thesis
      using 1(2,3) by (subst (asm) listing.simps) auto
  qed
qed

lemma seq_from_program:
  "list_all wf_instr (pre @ post) \<Longrightarrow> seq_pc (bytes_of (pre @ post)) (length (bytes_of pre))"
proof (induction pre arbitrary: post rule: rev_induct)
  case Nil
  then show ?case
    using seq_from.here [of _ 0] by simp
next
  case (snoc i pre)
  have "decode (bytes_of (pre @ i # post)) (length (bytes_of pre)) = Inr (i, encoded_len i)"
    using snoc.prems decode_encode [of i "bytes_of pre" "bytes_of post"] by simp
  then show ?case
    using snoc.IH [of "i # post"] snoc.prems seq_from_snoc [of _ 0] by (simp add: encoded_len_def)
qed

lemma seq_program_decodes:
  assumes "list_all wf_instr (pre @ post)" and "post \<noteq> []"
  shows "decodes (bytes_of (pre @ post)) (length (bytes_of pre))"
proof -
  obtain i r where "post = i # r"
    using assms(2) by (cases post) auto
  then show ?thesis
    using assms(1) decode_encode [of i "bytes_of pre" "bytes_of r"] by (auto simp: decodes_def)
qed

lemma seq_in_program:
  assumes "list_all wf_instr is" and "seq_pc (bytes_of is) q"
  obtains pre post where "is = pre @ post" "q = length (bytes_of pre)"
proof -
  have "\<exists>pre post. is = pre @ post \<and> q = length (bytes_of pre)"
    if "seq_from (bytes_of is) p q" "\<exists>pre post. is = pre @ post \<and> p = length (bytes_of pre)" for p
    using that
  proof (induction rule: seq_from.induct)
    case (next_instr p i n q)
    then obtain pre post where p: "is = pre @ post" "p = length (bytes_of pre)"
      by blast
    show ?case
    proof (cases post)
      case Nil
      then show ?thesis
        using next_instr.hyps(1) p by (simp add: decode_end)
    next
      case (Cons j r)
      have "decode (bytes_of is) p = Inr (j, encoded_len j)"
        using p Cons assms(1) decode_encode [of j "bytes_of pre" "bytes_of r"] by simp
      then have "p + n = length (bytes_of (pre @ [j]))"
        using next_instr.hyps(1) p(2) by (auto simp: encoded_len_def)
      then show ?thesis
        using next_instr.IH p(1) Cons by (metis append.assoc append_Cons append_Nil)
    qed
  qed simp
  then show ?thesis
    using assms(2) that by fastforce
qed

lemma listing_iff:
  "listing code 0 = Some L \<longleftrightarrow>
     (\<exists>is. list_all wf_instr is \<and> code = bytes_of is \<and> L = layout 0 is)"
proof
  assume L: "listing code 0 = Some L"
  let ?is = "map (\<lambda>(p, i, n). i) L"
  have "code = concat (map encode ?is)" "list_all wf_instr ?is"
    using listing_code [OF L] by (auto simp: list_all_iff comp_def split_def)
  moreover from this have "L = layout 0 ?is"
    using listing_program [of ?is "[]"] L by simp
  ultimately show "\<exists>is. list_all wf_instr is \<and> code = bytes_of is \<and> L = layout 0 is"
    by blast
next
  assume "\<exists>is. list_all wf_instr is \<and> code = bytes_of is \<and> L = layout 0 is"
  then show "listing code 0 = Some L"
    using listing_program [of _ "[]"] by auto
qed

section \<open>Properties\<close>

text \<open>The instruction walk succeeds exactly on the encodings of programs, and returns each
  instruction of the program with its offset and length.\<close>

theorem listing_exact:
  "listing code 0 = Some L \<longleftrightarrow>
     (\<exists>is. list_all wf_instr is \<and> code = bytes_of is \<and> L = layout 0 is)"
  by (rule listing_iff)

text \<open>The interpreter's jump targets are exactly the offsets at which an instruction starts
  when the code is decoded in sequence from its first byte.\<close>

theorem boundaries_exact: "t |\<in>| boundaries code \<longleftrightarrow> seq_pc code (unat t) \<and> decodes code (unat t)"
  by (rule boundaries_iff)

end
