(* ===== verification/Container.thy ===== *)
theory Container
  imports Crypto Listing
begin

text \<open>
  The bytecode container of \<open>crates/qtv-vm/src/container.rs\<close>: its code, constant pool and
  entries with their state access manifest, the canonical serialisation behind the
  identifier, selectors, and the deploy-time verifier.  A selector, in the code the array
  \<open>[u8; 4]\<close>, is a byte list whose length \<open>entry_ok\<close> records.
\<close>

definition SELECTOR_BYTES :: nat where "SELECTOR_BYTES = 4"
definition GENESIS_SIGNATURE :: bytes where "GENESIS_SIGNATURE = ascii ''@genesis()''"
definition MAX_CODE_BYTES :: nat where "MAX_CODE_BYTES = 65536"
definition MAX_CONSTS :: nat where "MAX_CONSTS = 4096"
definition MAX_ENTRIES :: nat where "MAX_ENTRIES = 256"
definition MAX_ACCESS_SLOTS :: nat where "MAX_ACCESS_SLOTS = 4096"
definition FORMAT_TAG :: bytes where "FORMAT_TAG = ascii ''QVM1''"

lemmas container_limits =
  MAX_CODE_BYTES_def MAX_CONSTS_def MAX_ENTRIES_def MAX_ACCESS_SLOTS_def

datatype VerifyError =
    CodeTooLarge
  | ConstsTooLarge
  | EntriesTooLarge
  | UndecodableCode nat
  | ConstIndexOutOfRange u16
  | MisalignedTarget u32
  | EntryOffsetMisaligned bytes
  | DuplicateSelector bytes
  | AccessListTooLarge bytes

record StateAccess =
  reads :: "u64 list"
  writes :: "u64 list"
  keyed_reads :: "u64 list"
  keyed_writes :: "u64 list"

record Entry =
  e_selector :: bytes
  e_offset :: u32
  e_access :: StateAccess

record Container =
  c_code :: bytes
  c_consts :: "u64 list"
  c_entries :: "Entry list"

definition new_container :: "bytes \<Rightarrow> u64 list \<Rightarrow> Entry list \<Rightarrow> Container" where
  "new_container cd cs es = \<lparr>c_code = cd, c_consts = cs, c_entries = es\<rparr>"

definition put_len :: "nat \<Rightarrow> bytes" where
  "put_len len = to_be 4 (if len < 2 ^ 32 then of_nat len else - 1 :: u32)"

definition put_slots :: "u64 list \<Rightarrow> bytes" where
  "put_slots slots = put_len (length slots) @ concat (map (to_be 8) slots)"

text \<open>The bytes one iteration over the entries appends.\<close>

definition entry_bytes :: "Entry \<Rightarrow> bytes" where
  "entry_bytes e =
     e_selector e @ to_be 4 (e_offset e) @ put_slots (reads (e_access e)) @
     put_slots (writes (e_access e)) @ put_slots (keyed_reads (e_access e)) @
     put_slots (keyed_writes (e_access e))"

definition canonical_bytes :: "Container \<Rightarrow> bytes" where
  "canonical_bytes c =
     FORMAT_TAG @
     put_len (length (c_code c)) @ c_code c @
     put_len (length (c_consts c)) @ concat (map (to_be 8) (c_consts c)) @
     put_len (length (c_entries c)) @ concat (map entry_bytes (c_entries c))"

definition container_identifier :: "prims \<Rightarrow> Container \<Rightarrow> exn + bytes" where
  "container_identifier P c = sha3_256 P (canonical_bytes c)"

definition entry_offset :: "Container \<Rightarrow> bytes \<Rightarrow> u32 option" where
  "entry_offset c sel = map_option e_offset (find (\<lambda>e. e_selector e = sel) (c_entries c))"

definition selector :: "prims \<Rightarrow> bytes \<Rightarrow> exn + bytes" where
  "selector P signature = bindE (sha3_256 P signature) (\<lambda>digest. Inr (take SELECTOR_BYTES digest))"

section \<open>The verifier\<close>

text \<open>The match on the instruction: the targets collected so far, or the pool error.\<close>

definition verify_instr :: "nat \<Rightarrow> Instr \<Rightarrow> u32 list \<Rightarrow> VerifyError + u32 list" where
  "verify_instr nconsts instr targets =
     (case instr of
        Jmp target \<Rightarrow> Inr (targets @ [target])
      | Call target \<Rightarrow> Inr (targets @ [target])
      | Jz _ target \<Rightarrow> Inr (targets @ [target])
      | Jnz _ target \<Rightarrow> Inr (targets @ [target])
      | Ldc _ idx \<Rightarrow>
          if unat idx \<ge> nconsts then Inl (ConstIndexOutOfRange idx) else Inr targets
      | _ \<Rightarrow> Inr targets)"

function verify_code ::
  "bytes \<Rightarrow> nat \<Rightarrow> nat \<Rightarrow> u32 fset \<Rightarrow> u32 list \<Rightarrow> VerifyError + u32 fset \<times> u32 list" where
  "verify_code code nconsts pc starts targets =
     (if pc < length code then
        (case decode code pc of
           Inl _ \<Rightarrow> Inl (UndecodableCode pc)
         | Inr (instr, len) \<Rightarrow>
             bindE (verify_instr nconsts instr targets) (\<lambda>targets.
               verify_code code nconsts (pc + len) (finsert (of_nat pc) starts) targets))
      else Inr (starts, targets))"
  by pat_completeness auto
termination
  by (relation "measure (\<lambda>(code, _, pc, _). length code - pc)") (auto dest: decodeD(3))

declare verify_code.simps [simp del]

fun verify_targets :: "u32 fset \<Rightarrow> u32 list \<Rightarrow> VerifyError + unit" where
  "verify_targets starts [] = Inr ()"
| "verify_targets starts (target # targets) =
     (if target |\<notin>| starts then Inl (MisalignedTarget target) else verify_targets starts targets)"

definition declared_slots :: "StateAccess \<Rightarrow> nat" where
  "declared_slots a =
     length (reads a) + length (writes a) + length (keyed_reads a) + length (keyed_writes a)"

fun verify_entries :: "u32 fset \<Rightarrow> bytes fset \<Rightarrow> Entry list \<Rightarrow> VerifyError + unit" where
  "verify_entries starts seen [] = Inr ()"
| "verify_entries starts seen (e # es) =
     (if e_selector e |\<in>| seen then Inl (DuplicateSelector (e_selector e))
      else if e_offset e |\<notin>| starts then Inl (EntryOffsetMisaligned (e_selector e))
      else if declared_slots (e_access e) > MAX_ACCESS_SLOTS then Inl (AccessListTooLarge (e_selector e))
      else verify_entries starts (finsert (e_selector e) seen) es)"

definition verify :: "Container \<Rightarrow> VerifyError + unit" where
  "verify c =
     (if length (c_code c) > MAX_CODE_BYTES then Inl CodeTooLarge
      else if length (c_consts c) > MAX_CONSTS then Inl ConstsTooLarge
      else if length (c_entries c) > MAX_ENTRIES then Inl EntriesTooLarge
      else bindE (verify_code (c_code c) (length (c_consts c)) 0 {||} []) (\<lambda>(starts, targets).
           bindE (verify_targets starts targets) (\<lambda>_.
             verify_entries starts {||} (c_entries c))))"

section \<open>The serialisation is injective\<close>

definition short :: "'a list \<Rightarrow> bool" where
  "short xs \<longleftrightarrow> length xs < 2 ^ 32"

definition access_ok :: "StateAccess \<Rightarrow> bool" where
  "access_ok a \<longleftrightarrow> short (reads a) \<and> short (writes a) \<and> short (keyed_reads a) \<and> short (keyed_writes a)"

definition entry_ok :: "Entry \<Rightarrow> bool" where
  "entry_ok e \<longleftrightarrow> length (e_selector e) = SELECTOR_BYTES \<and> access_ok (e_access e)"

definition container_ok :: "Container \<Rightarrow> bool" where
  "container_ok c \<longleftrightarrow>
     short (c_code c) \<and> short (c_consts c) \<and> short (c_entries c) \<and> list_all entry_ok (c_entries c)"

lemma put_len_prefix:
  assumes "n < 2 ^ 32" and "m < 2 ^ 32" and "put_len n @ r = put_len m @ s"
  shows "n = m \<and> r = s"
proof -
  have "to_be 4 (of_nat n :: u32) @ r = to_be 4 (of_nat m :: u32) @ s"
    using assms by (simp add: put_len_def del: to_be.simps)
  then have "(of_nat n :: u32) = of_nat m \<and> r = s"
    by (rule to_be_prefix [rotated]) simp
  then have "unat (of_nat n :: u32) = unat (of_nat m :: u32)" and "r = s"
    by simp_all
  then show ?thesis
    using assms(1,2) by (simp add: unsigned_of_nat take_bit_nat_eq_self)
qed

context prefix_code
begin

text \<open>A list behind its length is itself a prefix code.\<close>

lemma counted:
  assumes "list_all ok xs" and "list_all ok ys" and "short xs" and "short ys"
    and "put_len (length xs) @ concat (map enc xs) @ r = put_len (length ys) @ concat (map enc ys) @ s"
  shows "xs = ys \<and> r = s"
proof -
  have "length xs = length ys \<and> concat (map enc xs) @ r = concat (map enc ys) @ s"
    using assms(3-5) unfolding short_def by (intro put_len_prefix) simp_all
  then show ?thesis
    using assms(1,2) items by blast
qed

end

interpretation slots_code: prefix_code put_slots short
proof
  fix x y :: "u64 list" and r s
  assume "short x" "short y" "put_slots x @ r = put_slots y @ s"
  then show "x = y \<and> r = s"
    using u64_code.counted [of x y r s] by (simp add: put_slots_def list_all_iff del: to_be.simps)
qed

interpretation entry_code: prefix_code entry_bytes entry_ok
proof
  fix x y :: Entry and r s
  assume ok: "entry_ok x" "entry_ok y" and eq: "entry_bytes x @ r = entry_bytes y @ s"
  let ?a = "e_access x" and ?b = "e_access y"
  have sel: "e_selector x = e_selector y" and
    rest: "to_be 4 (e_offset x) @ put_slots (reads ?a) @ put_slots (writes ?a) @ put_slots (keyed_reads ?a) @
        put_slots (keyed_writes ?a) @ r =
      to_be 4 (e_offset y) @ put_slots (reads ?b) @ put_slots (writes ?b) @ put_slots (keyed_reads ?b) @
        put_slots (keyed_writes ?b) @ s"
    using eq ok by (simp_all add: entry_bytes_def entry_ok_def del: to_be.simps)
  note ofs = u32_code.prefix [OF TrueI TrueI rest]
  have shorts: "access_ok ?a" "access_ok ?b"
    using ok by (simp_all add: entry_ok_def)
  note rd = slots_code.prefix [OF _ _ conjunct2 [OF ofs]]
  have "reads ?a = reads ?b \<and> writes ?a = writes ?b \<and> keyed_reads ?a = keyed_reads ?b \<and>
      keyed_writes ?a = keyed_writes ?b \<and> r = s"
    using shorts rd slots_code.prefix unfolding access_ok_def by metis
  then show "x = y \<and> r = s"
    using sel ofs by (auto intro!: Entry.equality StateAccess.equality)
qed

interpretation container_code: prefix_code canonical_bytes container_ok
proof
  fix x y :: Container and r s
  assume ok: "container_ok x" "container_ok y" and eq: "canonical_bytes x @ r = canonical_bytes y @ s"
  have len: "length (c_code x) = length (c_code y) \<and>
      c_code x @ put_len (length (c_consts x)) @ concat (map (to_be 8) (c_consts x)) @
        put_len (length (c_entries x)) @ concat (map entry_bytes (c_entries x)) @ r =
      c_code y @ put_len (length (c_consts y)) @ concat (map (to_be 8) (c_consts y)) @
        put_len (length (c_entries y)) @ concat (map entry_bytes (c_entries y)) @ s"
    using ok eq unfolding container_ok_def short_def canonical_bytes_def
    by (intro put_len_prefix) simp_all
  then have code: "c_code x = c_code y"
    and rest: "put_len (length (c_consts x)) @ concat (map (to_be 8) (c_consts x)) @
        put_len (length (c_entries x)) @ concat (map entry_bytes (c_entries x)) @ r =
      put_len (length (c_consts y)) @ concat (map (to_be 8) (c_consts y)) @
        put_len (length (c_entries y)) @ concat (map entry_bytes (c_entries y)) @ s"
    using append_eq_append_conv by blast+
  have "c_consts x = c_consts y \<and> put_len (length (c_entries x)) @ concat (map entry_bytes (c_entries x)) @ r =
      put_len (length (c_entries y)) @ concat (map entry_bytes (c_entries y)) @ s"
    using ok rest unfolding container_ok_def
    by (intro u64_code.counted) (simp_all add: list_all_iff)
  then have "c_consts x = c_consts y" "c_entries x = c_entries y \<and> r = s"
    using ok entry_code.counted unfolding container_ok_def by blast+
  then show "x = y \<and> r = s"
    using code by (auto intro!: Container.equality)
qed

lemma identifier_binding:
  assumes "container_identifier P c = Inr d" and "container_identifier P c' = Inr d"
    and "container_ok c" and "container_ok c'"
  shows "c = c' \<or> collision P {canonical_bytes c, canonical_bytes c'}"
proof (cases "canonical_bytes c = canonical_bytes c'")
  case True
  then show ?thesis
    using container_code.inject [OF assms(3,4)] by simp
next
  case False
  then have "collision P {canonical_bytes c, canonical_bytes c'}"
    using collisionI [OF assms(1,2) [unfolded container_identifier_def]] by simp
  then show ?thesis ..
qed

section \<open>What the verifier accepts\<close>

text \<open>
  The declarative reading of \<open>verify\<close>: the code decodes in sequence from its start to its
  end, every direct jump lands on an instruction, every constant index is in the pool, and
  every entry has its own selector, starts at an instruction and declares a bounded number
  of slots.
\<close>

definition instr_start :: "bytes \<Rightarrow> nat \<Rightarrow> bool" where
  "instr_start code p \<longleftrightarrow> seq_pc code p \<and> p < length code"

definition jump_target :: "Instr \<Rightarrow> u32 option" where
  "jump_target i =
     (case i of Jmp t \<Rightarrow> Some t | Call t \<Rightarrow> Some t | Jz _ t \<Rightarrow> Some t | Jnz _ t \<Rightarrow> Some t | _ \<Rightarrow> None)"

definition const_ok :: "nat \<Rightarrow> Instr \<Rightarrow> bool" where
  "const_ok nconsts i = (case i of Ldc _ idx \<Rightarrow> unat idx < nconsts | _ \<Rightarrow> True)"

definition code_ok :: "bytes \<Rightarrow> nat \<Rightarrow> bool" where
  "code_ok code nconsts \<longleftrightarrow>
     (\<forall>p. instr_start code p \<longrightarrow>
        (\<exists>i n. decode code p = Inr (i, n) \<and> const_ok nconsts i \<and>
           (\<forall>t. jump_target i = Some t \<longrightarrow> instr_start code (unat t))))"

definition entries_ok :: "bytes \<Rightarrow> Entry list \<Rightarrow> bool" where
  "entries_ok code es \<longleftrightarrow>
     distinct (map e_selector es) \<and>
     (\<forall>e \<in> set es. instr_start code (unat (e_offset e)) \<and> declared_slots (e_access e) \<le> MAX_ACCESS_SLOTS)"

definition well_formed :: "Container \<Rightarrow> bool" where
  "well_formed c \<longleftrightarrow>
     length (c_code c) \<le> MAX_CODE_BYTES \<and> length (c_consts c) \<le> MAX_CONSTS \<and>
     length (c_entries c) \<le> MAX_ENTRIES \<and>
     code_ok (c_code c) (length (c_consts c)) \<and> entries_ok (c_code c) (c_entries c)"

lemma verify_instr_iff:
  "verify_instr nc i T = Inr T' \<longleftrightarrow>
     const_ok nc i \<and> T' = T @ (case jump_target i of None \<Rightarrow> [] | Some t \<Rightarrow> [t])"
  by (cases i) (auto simp: verify_instr_def const_ok_def jump_target_def)

lemma verify_code_iff:
  "verify_code code nc p S T = Inr (S', T') \<longleftrightarrow>
     (\<exists>L. listing code p = Some L \<and> (\<forall>x \<in> set L. const_ok nc (fst (snd x))) \<and>
        S' = fset_of_list (map (\<lambda>x. of_nat (fst x)) L) |\<union>| S \<and>
        T' = T @ concat (map (\<lambda>x. case jump_target (fst (snd x)) of None \<Rightarrow> [] | Some t \<Rightarrow> [t]) L))"
proof (induction code nc p S T rule: verify_code.induct)
  case (1 code nc p S T)
  show ?case
  proof (cases "p < length code")
    case False
    then show ?thesis
      by (auto simp: verify_code.simps [of code] listing.simps [of code])
  next
    case True
    show ?thesis
    proof (cases "decode code p")
      case (Inl e)
      with True show ?thesis
        by (simp add: verify_code.simps [of code] listing.simps [of code])
    next
      case (Inr r)
      obtain i n where r: "decode code p = Inr (i, n)"
        using Inr by (cases r) simp
      show ?thesis
      proof (cases "const_ok nc i")
        case False
        then show ?thesis
          using True r by (auto simp: verify_code.simps [of code] listing.simps [of code] verify_instr_iff)
      next
        case ok: True
        then have v: "verify_instr nc i T = Inr (T @ (case jump_target i of None \<Rightarrow> [] | Some t \<Rightarrow> [t]))"
          by (simp add: verify_instr_iff)
        have ex: "(\<exists>L. listing code p = Some L \<and> Q L) \<longleftrightarrow> (\<exists>L. listing code (p + n) = Some L \<and> Q ((p, i, n) # L))" for Q
          using True r by (auto simp: listing.simps [of code p])
        have "verify_code code nc p S T =
            verify_code code nc (p + n) (finsert (of_nat p) S) (T @ (case jump_target i of None \<Rightarrow> [] | Some t \<Rightarrow> [t]))"
          using True r v by (simp add: verify_code.simps [of code nc p])
        then show ?thesis
          unfolding ex using 1 [OF True r refl v] ok by simp
      qed
    qed
  qed
qed

lemma targets_iff:
  "(\<forall>t \<in> set (concat (map (\<lambda>x. case jump_target (fst (snd x)) of None \<Rightarrow> [] | Some t \<Rightarrow> [t]) L)). R t) \<longleftrightarrow>
     (\<forall>x \<in> set L. \<forall>t. jump_target (fst (snd x)) = Some t \<longrightarrow> R t)"
  by (induction L) (auto split: option.splits)

lemma verify_targets_iff: "verify_targets S T = Inr () \<longleftrightarrow> (\<forall>t \<in> set T. t |\<in>| S)"
  by (induction T) auto

lemma verify_entries_iff:
  "verify_entries S seen es = Inr () \<longleftrightarrow>
     distinct (map e_selector es) \<and>
     (\<forall>e \<in> set es. e_selector e |\<notin>| seen \<and> e_offset e |\<in>| S \<and> declared_slots (e_access e) \<le> MAX_ACCESS_SLOTS)"
proof (induction es arbitrary: seen)
  case Nil
  then show ?case by simp
next
  case (Cons e es)
  have "e_selector e \<notin> e_selector ` set es \<longleftrightarrow> (\<forall>x \<in> set es. e_selector x \<noteq> e_selector e)"
    unfolding image_iff by metis
  then show ?case
    by (simp add: Cons.IH linorder_not_less) blast
qed

text \<open>The offsets the verifier collects are the instruction starts: none is cut to 32 bits.\<close>

lemma starts_iff:
  assumes L: "listing code 0 = Some L" and small: "length code \<le> MAX_CODE_BYTES"
  shows "t |\<in>| fset_of_list (map (\<lambda>x. of_nat (fst x)) L) \<longleftrightarrow> instr_start code (unat (t :: u32))"
proof -
  have L': "(q, i, n) \<in> set L \<longleftrightarrow> seq_pc code q \<and> decode code q = Inr (i, n)" for q i n
    using listing_set [OF L] by blast
  have all: "decodes code q" if "instr_start code q" for q
    using that listing_Some_iff [of code 0] L by (auto simp: instr_start_def)
  have exact: "unat (of_nat q :: u32) = q" if "(q, i, n) \<in> set L" for q i n
    using that decodeD(3,5) [of code q i n] small
    by (simp add: L' unsigned_of_nat take_bit_nat_eq_self container_limits)
  show ?thesis
  proof
    assume "t |\<in>| fset_of_list (map (\<lambda>x. of_nat (fst x)) L)"
    then obtain q i n where q: "(q, i, n) \<in> set L" and t: "t = of_nat q"
      by (auto simp: fset_of_list_elem)
    then show "instr_start code (unat t)"
      using exact [OF q] decodeD(3,5) [of code q i n] by (auto simp: L' instr_start_def)
  next
    assume t: "instr_start code (unat t)"
    then obtain i n where "decode code (unat t) = Inr (i, n)"
      using all [OF t] by (auto simp: decodes_def)
    then have "(unat t, i, n) \<in> set L"
      using t by (simp add: L' instr_start_def)
    then show "t |\<in>| fset_of_list (map (\<lambda>x. of_nat (fst x)) L)"
      by (force simp: fset_of_list_elem)
  qed
qed

lemma instr_start_decodes:
  assumes "listing code 0 = Some L" and "instr_start code p"
  obtains i n where "decode code p = Inr (i, n)" "(p, i, n) \<in> set L"
  using assms listing_Some_iff [of code 0] listing_set [OF assms(1)]
  by (auto simp: instr_start_def decodes_def)

lemma code_ok_iff:
  assumes small: "length code \<le> MAX_CODE_BYTES"
  shows "code_ok code nc \<longleftrightarrow>
    (\<exists>L. listing code 0 = Some L \<and> (\<forall>(q, i, n) \<in> set L. const_ok nc i \<and>
       (\<forall>t. jump_target i = Some t \<longrightarrow> instr_start code (unat t))))"
proof
  assume ok: "code_ok code nc"
  have "listing code 0 \<noteq> None"
    unfolding listing_Some_iff using ok by (auto simp: code_ok_def instr_start_def decodes_def)
  then obtain L where L: "listing code 0 = Some L" by blast
  have "const_ok nc i \<and> (\<forall>t. jump_target i = Some t \<longrightarrow> instr_start code (unat t))"
    if q: "(q, i, n) \<in> set L" for q i n
  proof -
    have "seq_pc code q" "decode code q = Inr (i, n)"
      using q listing_set [OF L] by auto
    moreover have "q < length code"
      using decodeD(3,5) [OF calculation(2)] by linarith
    ultimately show ?thesis
      using ok by (fastforce simp: code_ok_def instr_start_def)
  qed
  with L show "\<exists>L. listing code 0 = Some L \<and> (\<forall>(q, i, n) \<in> set L. const_ok nc i \<and>
       (\<forall>t. jump_target i = Some t \<longrightarrow> instr_start code (unat t)))"
    by auto
next
  assume "\<exists>L. listing code 0 = Some L \<and> (\<forall>(q, i, n) \<in> set L. const_ok nc i \<and>
       (\<forall>t. jump_target i = Some t \<longrightarrow> instr_start code (unat t)))"
  then obtain L where L: "listing code 0 = Some L" and ok: "\<forall>(q, i, n) \<in> set L. const_ok nc i \<and>
       (\<forall>t. jump_target i = Some t \<longrightarrow> instr_start code (unat t))"
    by blast
  show "code_ok code nc"
    unfolding code_ok_def
  proof (intro allI impI)
    fix p
    assume "instr_start code p"
    with L obtain i n where "decode code p = Inr (i, n)" "(p, i, n) \<in> set L"
      by (rule instr_start_decodes)
    then show "\<exists>i n. decode code p = Inr (i, n) \<and> const_ok nc i \<and>
        (\<forall>t. jump_target i = Some t \<longrightarrow> instr_start code (unat t))"
      using ok by blast
  qed
qed

text \<open>For the encoding of a program: its instructions are the ones looked at.\<close>

lemma program_start:
  assumes "list_all wf_instr (pre @ i # post)"
  shows "instr_start (bytes_of (pre @ i # post)) (length (bytes_of pre))"
    and "decode (bytes_of (pre @ i # post)) (length (bytes_of pre)) = Inr (i, encoded_len i)"
proof -
  show d: "decode (bytes_of (pre @ i # post)) (length (bytes_of pre)) = Inr (i, encoded_len i)"
    using assms decode_encode [of i "bytes_of pre" "bytes_of post"] by simp
  have "length (bytes_of pre) < length (bytes_of (pre @ i # post))"
    using decodeD(3,5) [OF d] by linarith
  then show "instr_start (bytes_of (pre @ i # post)) (length (bytes_of pre))"
    unfolding instr_start_def using seq_from_program [OF assms] by blast
qed

lemma start_in_program:
  assumes "list_all wf_instr is" and "instr_start (bytes_of is) p"
  obtains pre i post where "is = pre @ i # post" "p = length (bytes_of pre)"
    "decode (bytes_of is) p = Inr (i, encoded_len i)"
proof -
  obtain pre post where p: "is = pre @ post" "p = length (bytes_of pre)"
    using seq_in_program [OF assms(1)] assms(2) by (auto simp: instr_start_def)
  then obtain i r where "post = i # r"
    using assms(2) by (cases post) (auto simp: instr_start_def)
  then show ?thesis
    using p that assms(1) program_start(2) [of pre i r] by simp
qed

lemma code_ok_program:
  assumes "list_all wf_instr is"
  shows "code_ok (bytes_of is) n \<longleftrightarrow>
    (\<forall>i \<in> set is. const_ok n i \<and> (\<forall>t. jump_target i = Some t \<longrightarrow> instr_start (bytes_of is) (unat t)))"
proof
  assume ok: "code_ok (bytes_of is) n"
  show "\<forall>i \<in> set is. const_ok n i \<and> (\<forall>t. jump_target i = Some t \<longrightarrow> instr_start (bytes_of is) (unat t))"
  proof
    fix i
    assume "i \<in> set is"
    then obtain pre post where "is = pre @ i # post"
      by (auto simp: in_set_conv_decomp)
    then show "const_ok n i \<and> (\<forall>t. jump_target i = Some t \<longrightarrow> instr_start (bytes_of is) (unat t))"
      using ok assms program_start [of pre i post] by (fastforce simp: code_ok_def)
  qed
next
  assume ok: "\<forall>i \<in> set is. const_ok n i \<and> (\<forall>t. jump_target i = Some t \<longrightarrow> instr_start (bytes_of is) (unat t))"
  show "code_ok (bytes_of is) n"
    unfolding code_ok_def
  proof (intro allI impI)
    fix p
    assume "instr_start (bytes_of is) p"
    with assms obtain pre i post where "is = pre @ i # post" "decode (bytes_of is) p = Inr (i, encoded_len i)"
      by (rule start_in_program)
    then show "\<exists>i m. decode (bytes_of is) p = Inr (i, m) \<and> const_ok n i \<and>
        (\<forall>t. jump_target i = Some t \<longrightarrow> instr_start (bytes_of is) (unat t))"
      using ok by auto
  qed
qed

lemma verify_iff: "verify c = Inr () \<longleftrightarrow> well_formed c"
proof (cases "length (c_code c) \<le> MAX_CODE_BYTES \<and> length (c_consts c) \<le> MAX_CONSTS \<and>
    length (c_entries c) \<le> MAX_ENTRIES")
  case False
  then show ?thesis
    by (auto simp: verify_def well_formed_def)
next
  case True
  let ?code = "c_code c" and ?nc = "length (c_consts c)"
  have start: "t |\<in>| fset_of_list (map (\<lambda>x. of_nat (fst x)) L) \<longleftrightarrow> instr_start ?code (unat (t :: u32))"
    if "listing ?code 0 = Some L" for L t
    using starts_iff [OF that] True by simp
  have "verify c = Inr () \<longleftrightarrow>
    (\<exists>L. listing ?code 0 = Some L \<and> (\<forall>(q, i, n) \<in> set L. const_ok ?nc i \<and>
       (\<forall>t. jump_target i = Some t \<longrightarrow> instr_start ?code (unat t))) \<and> entries_ok ?code (c_entries c))"
  proof -
    have "verify c = Inr () \<longleftrightarrow> (\<exists>L. listing ?code 0 = Some L \<and> (\<forall>x \<in> set L. const_ok ?nc (fst (snd x))) \<and>
        (\<forall>x \<in> set L. \<forall>t. jump_target (fst (snd x)) = Some t \<longrightarrow> t |\<in>| fset_of_list (map (\<lambda>x. of_nat (fst x)) L)) \<and>
        verify_entries (fset_of_list (map (\<lambda>x. of_nat (fst x)) L)) {||} (c_entries c) = Inr ())"
      using True
      by (auto simp: verify_def verify_code_iff verify_targets_iff targets_iff simp del: fset_of_list_map set_concat)
    also have "\<dots> \<longleftrightarrow> (\<exists>L. listing ?code 0 = Some L \<and> (\<forall>x \<in> set L. const_ok ?nc (fst (snd x))) \<and>
        (\<forall>x \<in> set L. \<forall>t. jump_target (fst (snd x)) = Some t \<longrightarrow> instr_start ?code (unat t)) \<and>
        entries_ok ?code (c_entries c))"
      using start by (simp add: verify_entries_iff entries_ok_def cong: conj_cong del: fset_of_list_map)
    finally show ?thesis
      by (simp add: split_def ball_conj_distrib conj_assoc)
  qed
  also have "\<dots> \<longleftrightarrow> well_formed c"
    using True code_ok_iff [of ?code ?nc] by (auto simp: well_formed_def)
  finally show ?thesis .
qed

lemma boundaries_start: "t |\<in>| boundaries code \<Longrightarrow> instr_start code (unat t)"
  using decodeD(3) decodeD(5) unfolding boundaries_iff decodes_def instr_start_def by fastforce

lemma boundaries_verified:
  "code_ok code nc \<Longrightarrow> t |\<in>| boundaries code \<longleftrightarrow> instr_start code (unat t)"
  by (auto simp: boundaries_start) (auto simp: boundaries_iff code_ok_def instr_start_def decodes_def)

lemma find_distinct:
  "distinct (map f xs) \<Longrightarrow> x \<in> set xs \<Longrightarrow> find (\<lambda>y. f y = f x) xs = Some x"
  by (induction xs) (auto simp: image_iff)

lemma entry_offset_verified:
  assumes "well_formed c" and "e \<in> set (c_entries c)"
  shows "entry_offset c (e_selector e) = Some (e_offset e)"
proof -
  have "distinct (map e_selector (c_entries c))"
    using assms(1) by (simp add: well_formed_def entries_ok_def)
  then have "find (\<lambda>x. e_selector x = e_selector e) (c_entries c) = Some e"
    using assms(2) by (rule find_distinct)
  then show ?thesis
    by (simp add: entry_offset_def)
qed

section \<open>Properties\<close>

text \<open>C7. The deploy-time verifier is exact: it accepts a container exactly when the container is
  within its limits, its code decodes in sequence from the first byte to the last with every
  constant index in the pool and every direct jump on an instruction, and its entries have
  distinct selectors, start on instructions and declare a bounded number of slots.\<close>

theorem verify_exact: "verify c = Inr () \<longleftrightarrow> well_formed c"
  by (rule verify_iff)

text \<open>C25. The identifier commits to the container: two containers with four-byte selectors and
  lists below \<open>2 ^ 32\<close> items have the same canonical bytes only when they are equal, so one
  identifier for two containers is a collision of the two serialisations.\<close>

theorem identifier_commits:
  assumes "container_ok c" and "container_ok c'"
    and "container_identifier P c = Inr d" and "container_identifier P c' = Inr d"
  shows "c = c' \<or>
    (canonical_bytes c \<noteq> canonical_bytes c' \<and>
     (\<exists>h. p_sha3_256 P (canonical_bytes c) = Some h \<and> p_sha3_256 P (canonical_bytes c') = Some h))"
  using identifier_binding [OF assms(3,4,1,2)] by (auto simp: collision_def)

text \<open>A container for the examples: two entries that store 5 in slot 2.\<close>

definition sample_access :: StateAccess where
  "sample_access = \<lparr>reads = [1], writes = [2], keyed_reads = [], keyed_writes = [5]\<rparr>"

definition sample_container :: Container where
  "sample_container =
     \<lparr>c_code = encode (Jmp 5) @ encode (Ldi 1 5) @ encode (SStore 0 1) @ encode Halt,
      c_consts = [7],
      c_entries =
        [\<lparr>e_selector = [1, 2, 3, 4], e_offset = 0, e_access = sample_access\<rparr>,
         \<lparr>e_selector = [0, 0, 0, 9], e_offset = 5, e_access = sample_access\<rparr>]\<rparr>"

lemma sample_selector: "selector sample_prims GENESIS_SIGNATURE = Inr [0, 0, 0, 0]"
proof -
  have "digest_bytes 10 = replicate 31 0 @ [10]"
    by code_simp
  then show ?thesis
    by (simp add: selector_def sample_sha3 GENESIS_SIGNATURE_def ascii_def SELECTOR_BYTES_def eval_nat_numeral)
qed

lemma sample_code:
  "c_code sample_container = [64, 0, 0, 0, 5, 3, 1, 0, 0, 0, 0, 0, 0, 0, 5, 81, 0, 1, 0]"
  by code_simp

lemma sample_decode:
  "decode (c_code sample_container) 0 = Inr (Jmp 5, 5)"
  "decode (c_code sample_container) 5 = Inr (Ldi 1 5, 10)"
  "decode (c_code sample_container) 15 = Inr (SStore 0 1, 3)"
  "decode (c_code sample_container) 18 = Inr (Halt, 1)"
  unfolding sample_code by code_simp+

lemma sample_parts:
  "length (c_code sample_container) = 19" "length (c_consts sample_container) = 1"
  "length (c_entries sample_container) = 2"
  by (simp_all add: sample_code) (simp_all add: sample_container_def)

lemma sample_verified: "verify sample_container = Inr ()"
  by (simp add: verify_def sample_parts sample_decode verify_code.simps container_limits verify_instr_def)
     (simp add: sample_container_def sample_access_def declared_slots_def container_limits)

lemma sample_boundaries: "boundaries (c_code sample_container) = {|0, 5, 15, 18|}"
  by (simp add: boundaries_def boundaries_from.simps sample_parts sample_decode) blast

lemma identifier_commits_witness:
  "container_ok sample_container \<and> container_identifier sample_prims sample_container =
     container_identifier sample_prims sample_container"
proof -
  have ok: "container_ok sample_container"
    by (simp add: container_ok_def short_def sample_parts)
      (simp add: entry_ok_def access_ok_def short_def sample_container_def sample_access_def SELECTOR_BYTES_def)
  obtain d where d: "container_identifier sample_prims sample_container = Inr d"
    by (simp add: container_identifier_def sha3_256_def call_def sample_prims_def)
  show ?thesis
    using identifier_commits [OF ok ok d d] ok by simp
qed

text \<open>In a verified container every entry is found under its selector: the offset looked up
  is that entry's own, an instruction start.\<close>

theorem verified_entry_offset:
  assumes "verify c = Inr ()" and "e \<in> set (c_entries c)"
  shows "entry_offset c (e_selector e) = Some (e_offset e) \<and> e_offset e |\<in>| boundaries (c_code c)"
proof -
  have wf: "well_formed c"
    using assms(1) by (simp add: verify_iff)
  then have "instr_start (c_code c) (unat (e_offset e))" "code_ok (c_code c) (length (c_consts c))"
    using assms(2) by (auto simp: well_formed_def entries_ok_def)
  then show ?thesis
    using entry_offset_verified [OF wf assms(2)] boundaries_verified by blast
qed

lemma verified_entry_offset_witness:
  "entry_offset sample_container [0, 0, 0, 9] = Some 5 \<and> 5 |\<in>| boundaries (c_code sample_container)"
  using verified_entry_offset [OF sample_verified, of "c_entries sample_container ! 1"]
  by (simp add: sample_container_def)

end
