(* ===== verification/Interp.thy ===== *)
theory Interp
  imports Container Meter
begin

text \<open>
  The metered interpreter of \<open>crates/qtv-vm/src/interp.rs\<close>, its constructors and its step,
  translated method by method.  The state \<open>interp\<close> has the fields of the Rust struct;
  \<open>BTreeMap\<close> and \<open>BTreeSet\<close>, finite by nature, are \<open>fmap\<close> and \<open>fset\<close>.  A mutating
  method returns the new state; on an error the state is dropped, as \<open>run\<close> consumes it.
  The storage loader is a function the host supplies.
\<close>

section \<open>Data\<close>

type_synonym StorageKey = bytes

datatype Effect =
    Transfer bytes u64
  | Event bytes bytes

definition DURABLE_TRANSFER :: u8 where "DURABLE_TRANSFER = 0"
definition DURABLE_MINT :: u8 where "DURABLE_MINT = 1"
definition STORAGE_KEY_BYTES :: nat where "STORAGE_KEY_BYTES = 32"

record Outcome =
  o_regs :: "u64 list"
  o_meter_used :: u64
  o_storage :: "(StorageKey, u64) fmap"
  o_dirty :: "StorageKey fset"
  o_fetched :: nat
  o_effects :: "Effect list"

datatype Step = Next | StepHalt | JumpTo u32

record Manifest =
  m_reads :: "StorageKey fset"
  m_writes :: "StorageKey fset"
  m_keyed_reads :: "u64 fset"
  m_keyed_writes :: "u64 fset"

definition can_read :: "Manifest \<Rightarrow> StorageKey \<Rightarrow> bool" where
  "can_read man key \<longleftrightarrow> key |\<in>| m_reads man \<or> key |\<in>| m_writes man"

definition can_write :: "Manifest \<Rightarrow> StorageKey \<Rightarrow> bool" where
  "can_write man key \<longleftrightarrow> key |\<in>| m_writes man"

record interp =
  code :: bytes
  consts_pool :: "u64 list"
  machine :: machine
  meter_limit :: u64
  meter_used :: u64
  storage :: "(StorageKey, u64) fmap"
  loader :: "(StorageKey \<Rightarrow> u64) option"
  loaded :: "(StorageKey, u64) fmap"
  dirty :: "StorageKey fset"
  effects :: "Effect list"
  effects_bytes :: u64
  keyed_bytes :: u64
  durable_targets :: "bytes fset"
  event_records :: u64
  manifest :: "Manifest option"
  bounds :: "u32 fset"
  keyed_authorized_reads :: "StorageKey fset"
  keyed_authorized_writes :: "StorageKey fset"
  fresh_charged :: "StorageKey fset"
  strict :: bool

section \<open>Constructors\<close>

text \<open>\<open>abi::scalar_key\<close>: the slot number in the last eight bytes of the key.\<close>

definition scalar_key :: "u64 \<Rightarrow> StorageKey" where
  "scalar_key slot = copy_into (replicate STORAGE_KEY_BYTES 0) (STORAGE_KEY_BYTES - 8) (to_be 8 slot)"

definition new_interp :: "bytes \<Rightarrow> u64 list \<Rightarrow> u64 \<Rightarrow> interp" where
  "new_interp cd cs limit =
     \<lparr>code = cd, consts_pool = cs, machine = new_machine, meter_limit = limit, meter_used = 0,
      storage = fmempty, loader = None, loaded = fmempty, dirty = {||}, effects = [],
      effects_bytes = 0, keyed_bytes = 0, durable_targets = {||}, event_records = 0,
      manifest = None, bounds = boundaries cd, keyed_authorized_reads = {||},
      keyed_authorized_writes = {||}, fresh_charged = {||}, strict = True\<rparr>"

definition with_legacy_rules :: "interp \<Rightarrow> interp" where
  "with_legacy_rules s = s\<lparr>strict := False\<rparr>"

definition SYSTEM_PROGRAM_HASHES :: "bytes list" where
  "SYSTEM_PROGRAM_HASHES =
     [[0x15, 0xd9, 0x2a, 0xfa, 0x40, 0xf5, 0x31, 0x4c, 0x14, 0xde, 0x21, 0x73, 0xa4, 0x15, 0xe9, 0xd4,
       0x2b, 0x8f, 0x75, 0xeb, 0xf3, 0x30, 0x71, 0xe8, 0xea, 0x5e, 0xa5, 0xcd, 0x43, 0xe9, 0x5b, 0xd7]]"

record SystemProgram =
  sp_code :: bytes

definition verify_system_program :: "prims \<Rightarrow> bytes \<Rightarrow> exn + SystemProgram option" where
  "verify_system_program P cd =
     bindE (sha3_256 P cd) (\<lambda>digest.
       Inr (if digest \<in> set SYSTEM_PROGRAM_HASHES then Some \<lparr>sp_code = cd\<rparr> else None))"

definition for_system_program :: "SystemProgram \<Rightarrow> u64 list \<Rightarrow> u64 \<Rightarrow> interp" where
  "for_system_program program cs limit = new_interp (sp_code program) cs limit"

definition for_unchecked_program :: "bytes \<Rightarrow> u64 list \<Rightarrow> u64 \<Rightarrow> interp" where
  "for_unchecked_program cd cs limit = new_interp cd cs limit"

definition open_entry :: "Container \<Rightarrow> bytes \<Rightarrow> u64 \<Rightarrow> exn + interp" where
  "open_entry c sel limit =
     (if length (c_code c) > MAX_CODE_BYTES \<or> length (c_consts c) > MAX_CONSTS \<or>
         length (c_entries c) > MAX_ENTRIES
      then Inl (Fault Malformed)
      else
        (case filter (\<lambda>e. e_selector e = sel) (c_entries c) of
           [] \<Rightarrow> Inl (Fault UnknownSelector)
         | _ # _ # _ \<Rightarrow> Inl (Fault Malformed)
         | [entry] \<Rightarrow>
             if declared_slots (e_access entry) > MAX_ACCESS_SLOTS then Inl (Fault Malformed)
             else
               let scan = saturating_mul (of_nat (length (c_code c))) CODE_SCAN_PER_BYTE;
                   dispatch = saturating_add DISPATCH scan in
               if dispatch > limit then Inl (Fault OutOfMeter)
               else
                 let rs = fset_of_list (map scalar_key (reads (e_access entry)));
                     ws = fset_of_list (map scalar_key (writes (e_access entry)));
                     krs = fset_of_list (keyed_reads (e_access entry));
                     kws = fset_of_list (keyed_writes (e_access entry));
                     it = new_interp (c_code c) (c_consts c) limit in
                 if e_offset entry |\<notin>| bounds it then Inl (Fault Malformed)
                 else Inr (it\<lparr>machine := (machine it)\<lparr>mpc := e_offset entry\<rparr>,
                     meter_used := dispatch,
                     manifest := Some \<lparr>m_reads = rs, m_writes = ws,
                       m_keyed_reads = krs, m_keyed_writes = kws\<rparr>\<rparr>)))"

definition for_entry :: "prims \<Rightarrow> Container \<Rightarrow> bytes \<Rightarrow> u64 \<Rightarrow> exn + interp" where
  "for_entry P c sel limit =
     bindE (selector P GENESIS_SIGNATURE) (\<lambda>genesis.
       if sel = genesis then Inl (Fault UnknownSelector) else open_entry c sel limit)"

definition for_genesis :: "prims \<Rightarrow> Container \<Rightarrow> u64 \<Rightarrow> exn + interp" where
  "for_genesis P c limit = bindE (selector P GENESIS_SIGNATURE) (\<lambda>genesis. open_entry c genesis limit)"

definition with_storage :: "(StorageKey, u64) fmap \<Rightarrow> interp \<Rightarrow> interp" where
  "with_storage st s = s\<lparr>storage := st\<rparr>"

definition with_storage_loader :: "(StorageKey \<Rightarrow> u64) \<Rightarrow> interp \<Rightarrow> interp" where
  "with_storage_loader f s = s\<lparr>loader := Some f\<rparr>"

definition with_memory :: "bytes \<Rightarrow> interp \<Rightarrow> interp" where
  "with_memory data s =
     (let m = machine s; n = min (length data) (length (mem m)) in
      s\<lparr>machine := m\<lparr>mem := copy_into (mem m) 0 (take n data)\<rparr>\<rparr>)"

section \<open>Charges\<close>

definition charge :: "u64 \<Rightarrow> interp \<Rightarrow> exn + interp" where
  "charge amount s =
     bindE (ok_or (checked_add (meter_used s) amount) OutOfMeter) (\<lambda>spent.
       if spent > meter_limit s then Inl (Fault OutOfMeter) else Inr (s\<lparr>meter_used := spent\<rparr>))"

definition charge_effect :: "nat \<Rightarrow> interp \<Rightarrow> exn + interp" where
  "charge_effect len s =
     (let n = of_nat len in
      bindE (ok_or (checked_mul n EFFECT_BYTE) OutOfMeter) (\<lambda>byte_cost.
      bindE (charge byte_cost s) (\<lambda>s.
      bindE (ok_or (checked_add n EFFECT_RECORD_OVERHEAD) EffectsTooLarge) (\<lambda>record_bytes.
      bindE (ok_or (checked_add (effects_bytes s) record_bytes) EffectsTooLarge) (\<lambda>retained.
        if retained > EFFECTS_BYTES_CAP then Inl (Fault EffectsTooLarge)
        else Inr (s\<lparr>effects_bytes := retained\<rparr>))))))"

text \<open>The firewall: the closure runs on the machine, its panic becomes a fault.\<close>

definition run_crypto :: "(machine \<Rightarrow> exn + machine) \<Rightarrow> interp \<Rightarrow> exn + interp" where
  "run_crypto f s =
     (case f (machine s) of
        Inr m \<Rightarrow> Inr (s\<lparr>machine := m\<rparr>)
      | Inl Panic \<Rightarrow> Inl (Fault CryptoFault)
      | Inl (Fault e) \<Rightarrow> Inl (Fault e))"

definition charge_durable_target :: "u8 \<Rightarrow> bytes \<Rightarrow> interp \<Rightarrow> exn + interp" where
  "charge_durable_target kind target s =
     (let key = kind # target;
          inserted = (key |\<notin>| durable_targets s);
          s = s\<lparr>durable_targets := finsert key (durable_targets s)\<rparr> in
      if inserted \<and> fcard (durable_targets s) > 1 then charge KEYED_SLOT_METER s else Inr s)"

definition charge_keyed :: "interp \<Rightarrow> exn + interp" where
  "charge_keyed s =
     (if strict s then charge KEYED_READ_METER s else charge KEYED_SLOT_METER s)"

definition retain_keyed :: "u64 \<Rightarrow> interp \<Rightarrow> exn + interp" where
  "retain_keyed entries s =
     bindE (ok_or (Option.bind (checked_mul (of_nat STORAGE_KEY_BYTES) entries)
                    (\<lambda>bs. checked_add (keyed_bytes s) bs)) EffectsTooLarge) (\<lambda>retained.
       if retained > EFFECTS_BYTES_CAP then Inl (Fault EffectsTooLarge)
       else Inr (s\<lparr>keyed_bytes := retained\<rparr>))"

text \<open>The second half of \<open>taint_keyed_from_hash\<close>: charge, retain and record the key.\<close>

definition record_keyed :: "bool \<Rightarrow> bool \<Rightarrow> StorageKey \<Rightarrow> interp \<Rightarrow> exn + interp" where
  "record_keyed is_write is_read key s =
     (let already = (key |\<in>| keyed_authorized_writes s \<or> key |\<in>| keyed_authorized_reads s);
          entries = of_bool (is_write \<and> key |\<notin>| keyed_authorized_writes s) +
                    of_bool (is_read \<and> key |\<notin>| keyed_authorized_reads s) in
      bindE (if \<not> already then charge_keyed s else Inr s) (\<lambda>s.
      bindE (retain_keyed entries s) (\<lambda>s.
        let s = (if is_write then s\<lparr>keyed_authorized_writes := finsert key (keyed_authorized_writes s)\<rparr> else s);
            s = (if is_read then s\<lparr>keyed_authorized_reads := finsert key (keyed_authorized_reads s)\<rparr> else s) in
        Inr s)))"

definition taint_keyed_from_hash :: "u64 option \<Rightarrow> u64 \<Rightarrow> interp \<Rightarrow> exn + interp" where
  "taint_keyed_from_hash base_opt out_ptr s =
     (case base_opt of
        None \<Rightarrow> Inr s
      | Some base \<Rightarrow>
          (case manifest s of
             None \<Rightarrow> Inr s
           | Some man \<Rightarrow>
               let is_write = (base |\<in>| m_keyed_writes man);
                   is_read = (is_write \<or> base |\<in>| m_keyed_reads man) in
               if \<not> is_write \<and> \<not> is_read then Inr s
               else
                 (case mem_region (machine s) out_ptr (of_nat STORAGE_KEY_BYTES) of
                    None \<Rightarrow> Inr s
                  | Some key \<Rightarrow> record_keyed is_write is_read key s)))"

definition target_ok :: "interp \<Rightarrow> u32 \<Rightarrow> bool" where
  "target_ok s target \<longleftrightarrow> target |\<in>| bounds s"

definition read_key :: "machine \<Rightarrow> u64 \<Rightarrow> exn + StorageKey" where
  "read_key m offset = ok_or (mem_region m offset (of_nat STORAGE_KEY_BYTES)) BadMemory"

section \<open>The step\<close>

text \<open>An arm that only touches the machine.\<close>

definition on_machine :: "interp \<Rightarrow> exn + machine \<Rightarrow> exn + Step \<times> interp" where
  "on_machine s r = bindE r (\<lambda>m. Inr (Next, s\<lparr>machine := m\<rparr>))"

text \<open>Register to register arms: read the operands left to right, compute, write \<open>d\<close>.\<close>

definition unary :: "machine \<Rightarrow> Reg \<Rightarrow> Reg \<Rightarrow> (u64 \<Rightarrow> u64) \<Rightarrow> exn + machine" where
  "unary m d a f = bindE (reg m a) (\<lambda>x. set_reg m d (f x))"

definition binary :: "machine \<Rightarrow> Reg \<Rightarrow> Reg \<Rightarrow> Reg \<Rightarrow> (u64 \<Rightarrow> u64 \<Rightarrow> exn + u64) \<Rightarrow> exn + machine" where
  "binary m d a b f =
     bindE (reg m a) (\<lambda>x. bindE (reg m b) (\<lambda>y. bindE (f x y) (\<lambda>v. set_reg m d v)))"

definition mul_hi :: "u64 \<Rightarrow> u64 \<Rightarrow> u64" where
  "mul_hi x y = ucast (drop_bit 64 (ucast x * ucast y :: u128))"

definition wide :: "u64 \<Rightarrow> u64 \<Rightarrow> u128" where
  "wide hi lo = (push_bit 64 (ucast hi)) OR ucast lo"

text \<open>\<open>DivW\<close> and \<open>RemW\<close>: 128-bit operands in register pairs, the low word written first.\<close>

definition wide_op ::
  "machine \<Rightarrow> (u128 \<Rightarrow> u128 \<Rightarrow> u128 option) \<Rightarrow> Reg \<Rightarrow> Reg \<Rightarrow> Reg \<Rightarrow> Reg \<Rightarrow> Reg \<Rightarrow> Reg \<Rightarrow> exn + machine" where
  "wide_op m f dlo dhi alo ahi blo bhi =
     bindE (reg m ahi) (\<lambda>ah. bindE (reg m alo) (\<lambda>al.
     bindE (reg m bhi) (\<lambda>bh. bindE (reg m blo) (\<lambda>bl.
     bindE (ok_or (f (wide ah al) (wide bh bl)) DivByZero) (\<lambda>q.
     bindE (set_reg m dlo (ucast q)) (\<lambda>m.
       set_reg m dhi (ucast (drop_bit 64 q))))))))"

definition exec_ldc :: "u64 list \<Rightarrow> machine \<Rightarrow> Reg \<Rightarrow> u16 \<Rightarrow> exn + machine" where
  "exec_ldc cs m d idx =
     bindE (if unat idx < length cs then Inr (cs ! unat idx) else Inl (Fault BadConst)) (\<lambda>v. set_reg m d v)"

definition push_or_fault :: "machine \<Rightarrow> u64 \<Rightarrow> exn + machine" where
  "push_or_fault m v = (case push m v of (True, m') \<Rightarrow> Inr m' | (False, _) \<Rightarrow> Inl (Fault StackOverflow))"

definition exec_push :: "machine \<Rightarrow> Reg \<Rightarrow> exn + machine" where
  "exec_push m a = bindE (reg m a) (\<lambda>v. push_or_fault m v)"

definition exec_pop :: "machine \<Rightarrow> Reg \<Rightarrow> exn + machine" where
  "exec_pop m d = bindE (ok_or (pop m) StackUnderflow) (\<lambda>(v, m). set_reg m d v)"

definition exec_mload :: "machine \<Rightarrow> Reg \<Rightarrow> Reg \<Rightarrow> exn + machine" where
  "exec_mload m d a =
     bindE (reg m a) (\<lambda>ofs. bindE (ok_or (mem_load m ofs) BadMemory) (\<lambda>v. set_reg m d v))"

definition exec_mstore :: "machine \<Rightarrow> Reg \<Rightarrow> Reg \<Rightarrow> exn + machine" where
  "exec_mstore m a b =
     bindE (reg m a) (\<lambda>ofs. bindE (reg m b) (\<lambda>v.
       (case mem_store m ofs v of (True, m') \<Rightarrow> Inr m' | (False, _) \<Rightarrow> Inl (Fault BadMemory))))"

definition jump_to :: "interp \<Rightarrow> u32 \<Rightarrow> exn + Step \<times> interp" where
  "jump_to s target = (if \<not> target_ok s target then Inl (Fault BadJump) else Inr (JumpTo target, s))"

definition exec_jump_if :: "interp \<Rightarrow> Reg \<Rightarrow> (u64 \<Rightarrow> bool) \<Rightarrow> u32 \<Rightarrow> exn + Step \<times> interp" where
  "exec_jump_if s a cond target =
     bindE (reg (machine s) a) (\<lambda>v. if cond v then jump_to s target else Inr (Next, s))"

definition exec_call :: "interp \<Rightarrow> u32 \<Rightarrow> exn + Step \<times> interp" where
  "exec_call s target =
     bindE (push_or_fault (machine s) (ucast (mpc (machine s)))) (\<lambda>m. jump_to (s\<lparr>machine := m\<rparr>) target)"

definition exec_ret :: "interp \<Rightarrow> exn + Step \<times> interp" where
  "exec_ret s =
     bindE (ok_or (pop (machine s)) StackUnderflow) (\<lambda>(ret, m).
     bindE (if unat ret < 2 ^ 32 then Inr (ucast ret) else Inl (Fault BadJump)) (\<lambda>target.
       jump_to (s\<lparr>machine := m\<rparr>) target))"

text \<open>The nested match shared by \<open>SLoad\<close> and \<open>SStore\<close>: written, fetched, fetched now, absent.\<close>

definition fetch_slot :: "interp \<Rightarrow> StorageKey \<Rightarrow> u64 \<times> interp" where
  "fetch_slot s key =
     (case fmlookup (storage s) key of
        Some v \<Rightarrow> (v, s)
      | None \<Rightarrow>
          (case fmlookup (loaded s) key of
             Some v \<Rightarrow> (v, s)
           | None \<Rightarrow>
               (case loader s of
                  Some f \<Rightarrow> (f key, s\<lparr>loaded := fmupd key (f key) (loaded s)\<rparr>)
                | None \<Rightarrow> (0, s))))"

definition exec_sload :: "interp \<Rightarrow> Reg \<Rightarrow> Reg \<Rightarrow> exn + Step \<times> interp" where
  "exec_sload s d a =
     bindE (reg (machine s) a) (\<lambda>ofs.
     bindE (read_key (machine s) ofs) (\<lambda>key.
       if (case manifest s of
             Some man \<Rightarrow> \<not> can_read man key \<and> key |\<notin>| keyed_authorized_reads s
           | None \<Rightarrow> False)
       then Inl (Fault UndeclaredSlot)
       else
         let (v, s) = fetch_slot s key in
         on_machine s (set_reg (machine s) d v)))"

definition charge_store :: "StorageKey \<Rightarrow> u64 \<Rightarrow> interp \<Rightarrow> exn + interp" where
  "charge_store key val s =
     (if strict s then
        let (prior, s) = fetch_slot s key;
            fresh = (val \<noteq> 0 \<and> prior = 0 \<and> key |\<notin>| fresh_charged s);
            keyed = (key |\<in>| keyed_authorized_writes s) in
        bindE
          (if fresh \<and> (keyed \<or> fcard (dirty s) \<ge> FREE_DIRTY_SLOTS) then
             charge KEYED_SLOT_METER (s\<lparr>fresh_charged := finsert key (fresh_charged s)\<rparr>)
           else
             let inserted = (key |\<notin>| dirty s);
                 s = s\<lparr>dirty := finsert key (dirty s)\<rparr> in
             if inserted \<and> fcard (dirty s) > FREE_DIRTY_SLOTS \<and> key |\<notin>| fresh_charged s
             then charge KEYED_SLOT_METER s else Inr s)
          (\<lambda>s. Inr (s\<lparr>dirty := finsert key (dirty s)\<rparr>))
      else
        let inserted = (key |\<notin>| dirty s);
            s = s\<lparr>dirty := finsert key (dirty s)\<rparr> in
        if inserted \<and> fcard (dirty s) > FREE_DIRTY_SLOTS then charge KEYED_SLOT_METER s else Inr s)"

definition exec_sstore :: "interp \<Rightarrow> Reg \<Rightarrow> Reg \<Rightarrow> exn + Step \<times> interp" where
  "exec_sstore s a b =
     bindE (reg (machine s) a) (\<lambda>ofs.
     bindE (read_key (machine s) ofs) (\<lambda>key.
     bindE (reg (machine s) b) (\<lambda>val.
       if (case manifest s of
             Some man \<Rightarrow> \<not> can_write man key \<and> key |\<notin>| keyed_authorized_writes s
           | None \<Rightarrow> False)
       then Inl (Fault UndeclaredSlot)
       else
         bindE (charge_store key val s) (\<lambda>s.
           Inr (Next, s\<lparr>storage := fmupd key val (storage s)\<rparr>)))))"

definition exec_send :: "interp \<Rightarrow> Reg \<Rightarrow> Reg \<Rightarrow> Reg \<Rightarrow> exn + Step \<times> interp" where
  "exec_send s a b c =
     bindE (reg (machine s) c) (\<lambda>amount.
     bindE (reg (machine s) a) (\<lambda>ptr.
     bindE (reg (machine s) b) (\<lambda>len.
     bindE (ok_or (mem_region (machine s) ptr len) BadMemory) (\<lambda>to.
     bindE (charge_effect (length to) s) (\<lambda>s.
     bindE (charge_durable_target DURABLE_TRANSFER to s) (\<lambda>s.
       Inr (Next, s\<lparr>effects := effects s @ [Transfer to amount]\<rparr>)))))))"

definition count_event :: "interp \<Rightarrow> exn + interp" where
  "count_event s =
     bindE (case checked_add (event_records s) 1 of None \<Rightarrow> Inl Panic | Some n \<Rightarrow> Inr n) (\<lambda>n.
       let s = s\<lparr>event_records := n\<rparr> in
       if event_records s > FREE_EVENT_RECORDS then charge EVENT_RECORD_METER s else Inr s)"

definition exec_emit :: "interp \<Rightarrow> Reg \<Rightarrow> Reg \<Rightarrow> Reg \<Rightarrow> exn + Step \<times> interp" where
  "exec_emit s a b c =
     bindE (reg (machine s) c) (\<lambda>word.
       if strict s \<and> word > 0xFFFFFFFF then Inl (Fault Malformed)
       else
         let selector = to_be 4 (ucast word :: u32) in
         bindE (reg (machine s) a) (\<lambda>ptr.
         bindE (reg (machine s) b) (\<lambda>len.
         bindE (ok_or (mem_region (machine s) ptr len) BadMemory) (\<lambda>data.
         bindE (charge_effect (length data) s) (\<lambda>s.
         bindE (ok_or (checked_mul (of_nat (length data)) (EVENT_BYTE - EFFECT_BYTE)) EffectsTooLarge) (\<lambda>durable.
         bindE (charge durable s) (\<lambda>s.
         bindE (if selector = ASSET_MINT_SELECTOR \<and> length data \<ge> ASSET_MINT_DATA_BYTES
                then charge_durable_target DURABLE_MINT (take 32 data) s else Inr s) (\<lambda>s.
         bindE (count_event s) (\<lambda>s.
           Inr (Next, s\<lparr>effects := effects s @ [Event selector data]\<rparr>))))))))))"

definition exec_hash :: "prims \<Rightarrow> interp \<Rightarrow> Reg \<Rightarrow> Reg \<Rightarrow> Reg \<Rightarrow> exn + Step \<times> interp" where
  "exec_hash P s a b c =
     bindE (reg (machine s) a) (\<lambda>preimage_ptr.
     bindE (reg (machine s) b) (\<lambda>len.
     bindE (reg (machine s) c) (\<lambda>out_ptr.
       let base = (if len \<ge> 8 then map_option from_be (mem_region (machine s) preimage_ptr 8) else None) in
       bindE (charge (hash_variable len) s) (\<lambda>s.
       bindE (run_crypto (\<lambda>m. hash P m a b c) s) (\<lambda>s.
       bindE (taint_keyed_from_hash base out_ptr s) (\<lambda>s.
         Inr (Next, s)))))))"

definition exec_verify ::
  "(machine \<Rightarrow> exn + machine) \<Rightarrow> u64 \<Rightarrow> (u64 \<Rightarrow> u64) \<Rightarrow> interp \<Rightarrow> Reg \<Rightarrow> exn + Step \<times> interp" where
  "exec_verify f header price s b =
     bindE (reg (machine s) b) (\<lambda>len.
     bindE (charge (price (saturating_sub len header)) s) (\<lambda>s.
     bindE (run_crypto f s) (\<lambda>s.
       Inr (Next, s))))"

definition step :: "prims \<Rightarrow> interp \<Rightarrow> Instr \<Rightarrow> exn + Step \<times> interp" where
  "step P s instr =
     (let m = machine s in
      case instr of
        Halt \<Rightarrow> Inr (StepHalt, s)
      | Nop \<Rightarrow> Inr (Next, s)
      | Mov d a \<Rightarrow> on_machine s (unary m d a (\<lambda>v. v))
      | Ldi d imm \<Rightarrow> on_machine s (set_reg m d imm)
      | Ldc d idx \<Rightarrow> on_machine s (exec_ldc (consts_pool s) m d idx)
      | Add d a b \<Rightarrow> on_machine s (binary m d a b (\<lambda>x y. ok_or (checked_add x y) Overflow))
      | Sub d a b \<Rightarrow> on_machine s (binary m d a b (\<lambda>x y. ok_or (checked_sub x y) Overflow))
      | Mul d a b \<Rightarrow> on_machine s (binary m d a b (\<lambda>x y. ok_or (checked_mul x y) Overflow))
      | Div d a b \<Rightarrow> on_machine s (binary m d a b (\<lambda>x y. ok_or (checked_div x y) DivByZero))
      | Rem d a b \<Rightarrow> on_machine s (binary m d a b (\<lambda>x y. ok_or (checked_rem x y) DivByZero))
      | AddW d a b \<Rightarrow> on_machine s (binary m d a b (\<lambda>x y. Inr (x + y)))
      | SubW d a b \<Rightarrow> on_machine s (binary m d a b (\<lambda>x y. Inr (x - y)))
      | MulW d a b \<Rightarrow> on_machine s (binary m d a b (\<lambda>x y. Inr (x * y)))
      | MulHi d a b \<Rightarrow> on_machine s (binary m d a b (\<lambda>x y. Inr (mul_hi x y)))
      | DivW dlo dhi alo ahi blo bhi \<Rightarrow> on_machine s (wide_op m checked_div dlo dhi alo ahi blo bhi)
      | RemW dlo dhi alo ahi blo bhi \<Rightarrow> on_machine s (wide_op m checked_rem dlo dhi alo ahi blo bhi)
      | And d a b \<Rightarrow> on_machine s (binary m d a b (\<lambda>x y. Inr (x AND y)))
      | Or d a b \<Rightarrow> on_machine s (binary m d a b (\<lambda>x y. Inr (x OR y)))
      | Xor d a b \<Rightarrow> on_machine s (binary m d a b (\<lambda>x y. Inr (x XOR y)))
      | NotW d a \<Rightarrow> on_machine s (unary m d a (\<lambda>v. NOT v))
      | Shl d a b \<Rightarrow> on_machine s (binary m d a b (\<lambda>x y. Inr (push_bit (unat (y AND 63)) x)))
      | Shr d a b \<Rightarrow> on_machine s (binary m d a b (\<lambda>x y. Inr (drop_bit (unat (y AND 63)) x)))
      | Eq d a b \<Rightarrow> on_machine s (binary m d a b (\<lambda>x y. Inr (of_bool (x = y))))
      | LtU d a b \<Rightarrow> on_machine s (binary m d a b (\<lambda>x y. Inr (of_bool (x < y))))
      | GtU d a b \<Rightarrow> on_machine s (binary m d a b (\<lambda>x y. Inr (of_bool (x > y))))
      | Push a \<Rightarrow> on_machine s (exec_push m a)
      | Pop d \<Rightarrow> on_machine s (exec_pop m d)
      | MLoad d a \<Rightarrow> on_machine s (exec_mload m d a)
      | MStore a b \<Rightarrow> on_machine s (exec_mstore m a b)
      | Jmp target \<Rightarrow> jump_to s target
      | Jz a target \<Rightarrow> exec_jump_if s a (\<lambda>v. v = 0) target
      | Jnz a target \<Rightarrow> exec_jump_if s a (\<lambda>v. v \<noteq> 0) target
      | Call target \<Rightarrow> exec_call s target
      | Ret \<Rightarrow> exec_ret s
      | SLoad d a \<Rightarrow> exec_sload s d a
      | SStore a b \<Rightarrow> exec_sstore s a b
      | Send a b c \<Rightarrow> exec_send s a b c
      | Emit a b c \<Rightarrow> exec_emit s a b c
      | Hash a b c \<Rightarrow> exec_hash P s a b c
      | VerifyMl a b c \<Rightarrow> exec_verify (\<lambda>m. verify_ml P m a b c) (ML_DSA_SIGNED_BYTES P) message_variable s b
      | VerifySlh a b c \<Rightarrow> exec_verify (\<lambda>m. verify_slh P m a b c) (SLH_DSA_SIGNED_BYTES P) message_variable s b
      | MerkleVerify a b c \<Rightarrow>
          exec_verify (\<lambda>m. merkle_verify P m a b c (strict s)) MERKLE_HEADER merkle_variable s b
      | Addr a b c \<Rightarrow> bindE (run_crypto (\<lambda>m. address P m a b c) s) (\<lambda>s. Inr (Next, s)))"

section \<open>The loop\<close>

definition outcome_of :: "interp \<Rightarrow> Outcome" where
  "outcome_of s =
     \<lparr>o_regs = regs (machine s), o_meter_used = meter_used s, o_storage = storage s,
      o_dirty = dirty s, o_fetched = fcard (fmdom (loaded s)), o_effects = effects s\<rparr>"

text \<open>
  The head of the loop body: the instruction at the program counter, its base cost charged,
  the program counter moved behind it.
\<close>

definition fetch :: "interp \<Rightarrow> exn + Instr \<times> interp" where
  "fetch s =
     (let p = unat (mpc (machine s)) in
      bindE (case decode (code s) p of Inl e \<Rightarrow> Inl (Fault (DecodeFault e)) | Inr x \<Rightarrow> Inr x) (\<lambda>(instr, len).
      bindE (charge (cost (opcode instr)) s) (\<lambda>s.
      bindE (ok_or (usize_add p len) BadJump) (\<lambda>next.
      bindE (if next < 2 ^ 32 then Inr (of_nat next :: u32) else Inl (Fault BadJump)) (\<lambda>next.
        Inr (instr, s\<lparr>machine := (machine s)\<lparr>mpc := next\<rparr>\<rparr>))))))"

text \<open>One turn of the loop: an outcome at \<open>Halt\<close>, else the next state.\<close>

definition turn :: "prims \<Rightarrow> interp \<Rightarrow> exn + (Outcome + interp)" where
  "turn P s =
     bindE (fetch s) (\<lambda>(instr, s).
     bindE (step P s instr) (\<lambda>(st, s).
       Inr (case st of
              Next \<Rightarrow> Inr s
            | StepHalt \<Rightarrow> Inl (outcome_of s)
            | JumpTo target \<Rightarrow> Inr (s\<lparr>machine := (machine s)\<lparr>mpc := target\<rparr>\<rparr>))))"

end
