(* ===== verification/Run.thy ===== *)
theory Run
  imports Interp
begin

text \<open>
  What the charges and the instructions do to the meter and to what a run must not change, and
  the loop \<open>run\<close> of \<open>interp.rs\<close>, total because every turn that goes on pays.
\<close>

section \<open>Charges\<close>

text \<open>What a successful charge leaves behind, in numbers.\<close>

lemma charge_Inr_iff [simp]:
  "charge a s = Inr s' \<longleftrightarrow>
     (\<exists>u. unat u = unat (meter_used s) + unat a \<and> u \<le> meter_limit s \<and> s' = s\<lparr>meter_used := u\<rparr>)"
  by (auto simp: charge_def checked_add_Some_iff not_less split: if_splits)

lemma charge_Inl: "charge a s = Inl e \<Longrightarrow> e = Fault OutOfMeter"
  by (auto simp: charge_def bindE_Inl_iff ok_or_Inl_iff split: if_splits)

lemma unat_of_length: "n < 2 ^ 64 \<Longrightarrow> unat (of_nat n :: u64) = n"
  by (simp add: unsigned_of_nat take_bit_nat_eq_self)

lemma effects_cap: "unat EFFECTS_BYTES_CAP = 2 ^ 20"
  by (simp add: EFFECTS_BYTES_CAP_def)

lemma word_of_nat: "n \<le> unat (w :: 'a::len word) \<Longrightarrow> \<exists>x. unat (x :: 'a word) = n"
  using unat_bound [of w]
  by (intro exI [of _ "of_nat n"]) (simp add: unsigned_of_nat take_bit_nat_eq_self le_less_trans [OF _ unsigned_less])

lemma charge_effect_Inr_iff [simp]:
  assumes "n < 2 ^ 64"
  shows "charge_effect n s = Inr s' \<longleftrightarrow>
     (\<exists>u e. unat u = unat (meter_used s) + 2 * n \<and> u \<le> meter_limit s \<and>
        unat e = unat (effects_bytes s) + (n + 32) \<and> e \<le> EFFECTS_BYTES_CAP \<and>
        s' = s\<lparr>meter_used := u, effects_bytes := e\<rparr>)" (is "?l \<longleftrightarrow> ?r")
proof
  assume ?l
  then show ?r
    using assms
    by (auto simp: charge_effect_def Let_def checked_mul_Some_iff checked_add_Some_iff unat_of_length
        EFFECT_BYTE_def EFFECT_RECORD_OVERHEAD_def not_less mult.commute split: if_splits)
next
  assume ?r
  then obtain u e where u: "unat u = unat (meter_used s) + n * 2" "u \<le> meter_limit s"
    and e: "unat e = unat (effects_bytes s) + (n + 32)" "e \<le> EFFECTS_BYTES_CAP"
    and s': "s' = s\<lparr>meter_used := u, effects_bytes := e\<rparr>"
    by (auto simp: mult.commute)
  moreover have "\<exists>x :: u64. unat x = n * 2" "\<exists>x :: u64. unat x = n + 32"
    using u(1) e(1) word_of_nat [of "n * 2" u] word_of_nat [of "n + 32" e] by simp_all
  ultimately show ?l
    using assms
    by (force simp: charge_effect_def Let_def checked_mul_Some_iff checked_add_Some_iff unat_of_length
        EFFECT_BYTE_def EFFECT_RECORD_OVERHEAD_def not_less)
qed

lemma charge_effect_Inl: "charge_effect n s = Inl e \<Longrightarrow> e = Fault OutOfMeter \<or> e = Fault EffectsTooLarge"
  by (auto simp: charge_effect_def Let_def bindE_Inl_iff ok_or_Inl_iff dest!: charge_Inl split: if_splits)

lemma retain_keyed_Inr_iff [simp]:
  "retain_keyed n s = Inr s' \<longleftrightarrow>
     (\<exists>k. unat k = unat (keyed_bytes s) + 32 * unat n \<and> k \<le> EFFECTS_BYTES_CAP \<and> s' = s\<lparr>keyed_bytes := k\<rparr>)"
  (is "?l \<longleftrightarrow> ?r")
proof
  assume ?l
  then show ?r
    by (auto simp: retain_keyed_def bind_eq_Some_conv checked_mul_Some_iff checked_add_Some_iff
        STORAGE_KEY_BYTES_def not_less split: if_splits)
next
  assume ?r
  then obtain k where k: "unat k = unat (keyed_bytes s) + 32 * unat n" "k \<le> EFFECTS_BYTES_CAP"
    and s': "s' = s\<lparr>keyed_bytes := k\<rparr>"
    by blast
  moreover have "\<exists>x :: u64. unat x = 32 * unat n"
    using k(1) word_of_nat [of "32 * unat n" k] by simp
  ultimately show ?l
    by (force simp: retain_keyed_def bind_eq_Some_conv checked_mul_Some_iff checked_add_Some_iff
        STORAGE_KEY_BYTES_def not_less)
qed

lemma retain_keyed_Inl: "retain_keyed n s = Inl e \<Longrightarrow> e = Fault EffectsTooLarge"
  by (auto simp: retain_keyed_def bindE_Inl_iff ok_or_Inl_iff split: if_splits)

section \<open>What every operation keeps\<close>

text \<open>
  An operation leaves the program, its limits and the host's functions alone, only ever
  adds to the meter and within the limit, and keeps the shape of the machine.
\<close>

definition same_program :: "interp \<Rightarrow> interp \<Rightarrow> bool" where
  "same_program s s' \<longleftrightarrow>
     code s' = code s \<and> consts_pool s' = consts_pool s \<and> meter_limit s' = meter_limit s \<and>
     loader s' = loader s \<and> manifest s' = manifest s \<and> bounds s' = bounds s \<and> strict s' = strict s"

definition grows :: "interp \<Rightarrow> interp \<Rightarrow> bool" where
  "grows s s' \<longleftrightarrow>
     same_program s s' \<and> unat (meter_used s) \<le> unat (meter_used s') \<and>
     (meter_used s \<le> meter_limit s \<longrightarrow> meter_used s' \<le> meter_limit s') \<and>
     (wf_machine (machine s) \<longrightarrow> wf_machine (machine s'))"

lemmas grows_defs = grows_def same_program_def

lemma grows_refl [simp]: "grows s s"
  by (simp add: grows_defs)

lemma grows_trans: "grows s s' \<Longrightarrow> grows s' s'' \<Longrightarrow> grows s s''"
  by (auto simp: grows_defs)

lemma grows_machine: "(wf_machine (machine s) \<Longrightarrow> wf_machine m) \<Longrightarrow> grows s (s\<lparr>machine := m\<rparr>)"
  by (simp add: grows_defs)

lemma grows_charge: "charge a s = Inr s' \<Longrightarrow> grows s s'"
  by (auto simp: grows_defs)

lemma grows_charge_effect: "n < 2 ^ 64 \<Longrightarrow> charge_effect n s = Inr s' \<Longrightarrow> grows s s'"
  by (auto simp: grows_defs)

lemma grows_charge_durable_target: "charge_durable_target k t s = Inr s' \<Longrightarrow> grows s s'"
  by (auto simp: charge_durable_target_def Let_def grows_defs split: if_splits)

text \<open>The result of tainting: either nothing, or one key recorded for a declared base.\<close>

definition tainted :: "bool \<Rightarrow> StorageKey \<Rightarrow> interp \<Rightarrow> interp \<Rightarrow> bool" where
  "tainted is_write key s s' \<longleftrightarrow>
     (\<exists>u k. s' = s\<lparr>meter_used := u, keyed_bytes := k,
        keyed_authorized_reads := finsert key (keyed_authorized_reads s),
        keyed_authorized_writes :=
          (if is_write then finsert key (keyed_authorized_writes s) else keyed_authorized_writes s)\<rparr> \<and>
      unat (meter_used s) \<le> unat u \<and> (u = meter_used s \<or> u \<le> meter_limit s) \<and>
      (key |\<notin>| keyed_authorized_reads s \<longrightarrow> key |\<notin>| keyed_authorized_writes s \<longrightarrow>
         unat u = unat (meter_used s) + unat (if strict s then KEYED_READ_METER else KEYED_SLOT_METER)) \<and>
      unat k = unat (keyed_bytes s) + 32 * (of_bool (is_write \<and> key |\<notin>| keyed_authorized_writes s) +
        of_bool (key |\<notin>| keyed_authorized_reads s)) \<and> k \<le> EFFECTS_BYTES_CAP)"

lemma record_keyed_InrD:
  assumes "record_keyed w True key s = Inr s'"
  shows "tainted w key s s'"
proof -
  let ?new = "key |\<notin>| keyed_authorized_writes s \<and> key |\<notin>| keyed_authorized_reads s"
  let ?n = "of_bool (w \<and> key |\<notin>| keyed_authorized_writes s) + of_bool (key |\<notin>| keyed_authorized_reads s) :: u64"
  have n: "unat ?n = of_bool (w \<and> key |\<notin>| keyed_authorized_writes s) + of_bool (key |\<notin>| keyed_authorized_reads s)"
    by auto
  obtain u where u: "(if ?new then charge_keyed s else Inr s) = Inr (s\<lparr>meter_used := u\<rparr>)"
    and price: "unat (meter_used s) \<le> unat u" "u = meter_used s \<or> u \<le> meter_limit s"
      "?new \<Longrightarrow> unat u = unat (meter_used s) + unat (if strict s then KEYED_READ_METER else KEYED_SLOT_METER)"
    and rest: "bindE (retain_keyed ?n (s\<lparr>meter_used := u\<rparr>)) (\<lambda>s.
        let s = (if w then s\<lparr>keyed_authorized_writes := finsert key (keyed_authorized_writes s)\<rparr> else s);
            s = (if True then s\<lparr>keyed_authorized_reads := finsert key (keyed_authorized_reads s)\<rparr> else s) in
        Inr s) = Inr s'"
  proof (cases ?new)
    case True
    then show ?thesis
      using assms that unfolding record_keyed_def charge_keyed_def Let_def
      by (cases "strict s") (auto simp del: retain_keyed_Inr_iff)
  next
    case False
    then have u: "(if ?new then charge_keyed s else Inr s) = Inr (s\<lparr>meter_used := meter_used s\<rparr>)"
      by auto
    have "\<not> \<not> (key |\<in>| keyed_authorized_writes s \<or> key |\<in>| keyed_authorized_reads s)"
      using False by simp
    then show ?thesis
      by (intro that [OF u]) (use assms False in \<open>simp_all add: record_keyed_def del: retain_keyed_Inr_iff bindE_Inr_iff\<close>)
  qed
  obtain k where k: "unat k = unat (keyed_bytes s) + 32 * unat ?n" "k \<le> EFFECTS_BYTES_CAP"
    and s': "s' = (let s = s\<lparr>meter_used := u, keyed_bytes := k\<rparr>;
        s = (if w then s\<lparr>keyed_authorized_writes := finsert key (keyed_authorized_writes s)\<rparr> else s) in
        s\<lparr>keyed_authorized_reads := finsert key (keyed_authorized_reads s)\<rparr>)"
    using rest by (auto simp: Let_def)
  have "s' = s\<lparr>meter_used := u, keyed_bytes := k,
        keyed_authorized_reads := finsert key (keyed_authorized_reads s),
        keyed_authorized_writes := (if w then finsert key (keyed_authorized_writes s) else keyed_authorized_writes s)\<rparr>"
    unfolding s' by (cases w) simp_all
  then show ?thesis
    unfolding tainted_def using price k [unfolded n] by blast
qed

lemma taint_keyed_InrD:
  assumes "taint_keyed_from_hash base out s = Inr s'"
  obtains "s' = s"
  | b man key where "base = Some b" "manifest s = Some man"
      "b |\<in>| m_keyed_writes man \<or> b |\<in>| m_keyed_reads man"
      "mem_region (machine s) out 32 = Some key" "tainted (b |\<in>| m_keyed_writes man) key s s'"
proof (cases "s' = s")
  case False
  obtain b where b: "base = Some b"
    using assms False by (cases base) (simp_all add: taint_keyed_from_hash_def)
  obtain man where man: "manifest s = Some man"
    using assms False b by (cases "manifest s") (simp_all add: taint_keyed_from_hash_def)
  have dec: "b |\<in>| m_keyed_writes man \<or> b |\<in>| m_keyed_reads man"
    using assms False b man by (auto simp: taint_keyed_from_hash_def Let_def split: if_splits)
  obtain key where key: "mem_region (machine s) out 32 = Some key"
    using assms False b man dec
    by (cases "mem_region (machine s) out 32") (simp_all add: taint_keyed_from_hash_def STORAGE_KEY_BYTES_def Let_def split: if_splits)
  have "record_keyed (b |\<in>| m_keyed_writes man) True key s = Inr s'"
    using assms b man dec key
    by (cases "b |\<in>| m_keyed_writes man") (simp_all add: taint_keyed_from_hash_def STORAGE_KEY_BYTES_def)
  then show ?thesis
    using that(2) [OF b man dec key] record_keyed_InrD by blast
qed (rule that)

lemma grows_taint_keyed: "taint_keyed_from_hash base out s = Inr s' \<Longrightarrow> grows s s'"
  by (erule taint_keyed_InrD) (auto simp: tainted_def grows_defs)

lemma grows_run_crypto:
  "run_crypto f s = Inr s' \<Longrightarrow> (\<And>m'. f (machine s) = Inr m' \<Longrightarrow> wf_machine (machine s) \<Longrightarrow> wf_machine m') \<Longrightarrow> grows s s'"
  by (auto simp: run_crypto_def grows_defs split: sum.splits exn.splits)

text \<open>A slot fetched: only the cache of loaded slots moves.\<close>

definition slot_value :: "interp \<Rightarrow> StorageKey \<Rightarrow> u64" where
  "slot_value s key =
     (case fmlookup (storage s) key of Some v \<Rightarrow> v | None \<Rightarrow>
        (case fmlookup (loaded s) key of Some v \<Rightarrow> v | None \<Rightarrow>
           (case loader s of Some f \<Rightarrow> f key | None \<Rightarrow> 0)))"

definition fetched :: "interp \<Rightarrow> StorageKey \<Rightarrow> (StorageKey, u64) fmap" where
  "fetched s key =
     (case (fmlookup (storage s) key, fmlookup (loaded s) key, loader s) of
        (None, None, Some f) \<Rightarrow> fmupd key (f key) (loaded s)
      | _ \<Rightarrow> loaded s)"

lemma fetch_slot_eq: "fetch_slot s key = (slot_value s key, s\<lparr>loaded := fetched s key\<rparr>)"
  by (simp add: fetch_slot_def slot_value_def fetched_def split: option.split)

text \<open>A store charged: the key is dirty, and the surcharge is paid where the rules ask for it.\<close>

definition pays_fresh :: "interp \<Rightarrow> StorageKey \<Rightarrow> u64 \<Rightarrow> bool" where
  "pays_fresh s key val \<longleftrightarrow>
     strict s \<and> val \<noteq> 0 \<and> slot_value s key = 0 \<and> key |\<notin>| fresh_charged s \<and>
     (key |\<in>| keyed_authorized_writes s \<or> 8 \<le> fcard (dirty s))"

definition pays_dirty :: "interp \<Rightarrow> StorageKey \<Rightarrow> bool" where
  "pays_dirty s key \<longleftrightarrow> key |\<notin>| dirty s \<and> 8 \<le> fcard (dirty s) \<and> (strict s \<longrightarrow> key |\<notin>| fresh_charged s)"

definition store_charged :: "StorageKey \<Rightarrow> u64 \<Rightarrow> interp \<Rightarrow> interp \<Rightarrow> bool" where
  "store_charged key val s s' \<longleftrightarrow>
     (\<exists>u. s' = s\<lparr>meter_used := u, loaded := (if strict s then fetched s key else loaded s),
        dirty := finsert key (dirty s),
        fresh_charged := (if pays_fresh s key val then finsert key (fresh_charged s) else fresh_charged s)\<rparr> \<and>
        unat u = unat (meter_used s) + (if pays_fresh s key val \<or> pays_dirty s key then 227000 else 0) \<and>
        (u = meter_used s \<or> u \<le> meter_limit s))"

lemma charge_store_InrD:
  assumes "charge_store key val s = Inr s'"
  shows "store_charged key val s s'"
proof -
  have new: "key |\<notin>| dirty s \<and> 8 < fcard (finsert key (dirty s)) \<longleftrightarrow> key |\<notin>| dirty s \<and> 8 \<le> fcard (dirty s)"
    by (auto simp: fcard_finsert_if)
  let ?t = "s\<lparr>loaded := fetched s key, dirty := finsert key (dirty s)\<rparr>"
  consider (fresh) "strict s" "pays_fresh s key val" | (dirty) "strict s" "\<not> pays_fresh s key val" "pays_dirty s key"
    | (free) "strict s" "\<not> pays_fresh s key val" "\<not> pays_dirty s key" | (legacy) "\<not> strict s"
    by blast
  then show ?thesis
  proof cases
    case fresh
    then obtain u where "unat u = unat (meter_used s) + 227000" "u \<le> meter_limit s"
      "s' = s\<lparr>meter_used := u, loaded := fetched s key, dirty := finsert key (dirty s),
             fresh_charged := finsert key (fresh_charged s)\<rparr>"
      using assms
      by (auto simp: charge_store_def pays_fresh_def Let_def fetch_slot_eq FREE_DIRTY_SLOTS_def KEYED_SLOT_METER_def)
    then show ?thesis
      using fresh unfolding store_charged_def by auto
  next
    case dirty
    then have "bindE (charge KEYED_SLOT_METER ?t) (\<lambda>s. Inr (s\<lparr>dirty := finsert key (dirty s)\<rparr>)) = Inr s'"
      using assms new
      by (auto simp: charge_store_def pays_fresh_def pays_dirty_def Let_def fetch_slot_eq FREE_DIRTY_SLOTS_def
          simp del: charge_Inr_iff bindE_Inr_iff split: if_splits)
    then obtain u where "unat u = unat (meter_used s) + 227000" "u \<le> meter_limit s"
      "s' = s\<lparr>meter_used := u, loaded := fetched s key, dirty := finsert key (dirty s)\<rparr>"
      by (auto simp: KEYED_SLOT_METER_def)
    then show ?thesis
      using dirty unfolding store_charged_def by (intro exI [of _ u]) simp
  next
    case free
    then have "s' = ?t\<lparr>dirty := finsert key (dirty ?t)\<rparr>"
      using assms new
      by (auto simp: charge_store_def pays_fresh_def pays_dirty_def Let_def fetch_slot_eq FREE_DIRTY_SLOTS_def
          simp del: charge_Inr_iff bindE_Inr_iff split: if_splits)
    then show ?thesis
      using free unfolding store_charged_def by (intro exI [of _ "meter_used s"]) simp
  next
    case legacy
    then obtain u where "s' = s\<lparr>dirty := finsert key (dirty s), meter_used := u\<rparr>"
      "unat u = unat (meter_used s) + (if pays_dirty s key then 227000 else 0)"
      "u = meter_used s \<or> u \<le> meter_limit s"
      using assms new that [of "meter_used s"]
      by (cases "pays_dirty s key")
        (auto simp: charge_store_def pays_dirty_def Let_def FREE_DIRTY_SLOTS_def KEYED_SLOT_METER_def split: if_splits)
    then show ?thesis
      using legacy unfolding store_charged_def by (intro exI [of _ u]) (simp add: pays_fresh_def)
  qed
qed

lemma grows_charge_store: "charge_store key val s = Inr s' \<Longrightarrow> grows s s'"
  by (drule charge_store_InrD) (auto simp: store_charged_def grows_defs)

section \<open>The step keeps the program\<close>

lemma grows_on_machine:
  "on_machine s r = Inr (st, s') \<Longrightarrow> (\<And>m. r = Inr m \<Longrightarrow> wf_machine (machine s) \<Longrightarrow> wf_machine m) \<Longrightarrow> grows s s'"
  by (auto simp: on_machine_def intro!: grows_machine)

lemma jump_to_Inr_iff [simp]:
  "jump_to s t = Inr (st, s') \<longleftrightarrow> t |\<in>| bounds s \<and> st = JumpTo t \<and> s' = s"
  by (auto simp: jump_to_def target_ok_def)

lemma success_Inr_iff:
  "(case r of (True, m') \<Rightarrow> Inr m' | (False, _) \<Rightarrow> Inl e) = Inr m \<longleftrightarrow> r = (True, m)"
  by (cases r) (auto split: bool.splits)

lemma push_or_fault_Inr_iff [simp]: "push_or_fault m v = Inr m' \<longleftrightarrow> push m v = (True, m')"
  by (simp add: push_or_fault_def success_Inr_iff)

lemma wf_unary: "unary m d a f = Inr m' \<Longrightarrow> wf_machine m \<Longrightarrow> wf_machine m'"
  by (auto simp: unary_def dest: wf_set_reg)

lemma wf_binary: "binary m d a b f = Inr m' \<Longrightarrow> wf_machine m \<Longrightarrow> wf_machine m'"
  by (auto simp: binary_def dest: wf_set_reg)

lemma wf_wide_op: "wide_op m f d1 d2 a1 a2 b1 b2 = Inr m' \<Longrightarrow> wf_machine m \<Longrightarrow> wf_machine m'"
  by (auto simp: wide_op_def dest: wf_set_reg)

lemma exec_mstore_Inr_iff:
  "exec_mstore m a b = Inr m' \<longleftrightarrow>
     (\<exists>p v. reg m a = Inr p \<and> reg m b = Inr v \<and> mem_store m p v = (True, m'))"
  by (simp add: exec_mstore_def success_Inr_iff)

lemma wf_exec_machine:
  shows "exec_ldc cs m d idx = Inr m' \<Longrightarrow> wf_machine m \<Longrightarrow> wf_machine m'"
    and "exec_push m a = Inr m' \<Longrightarrow> wf_machine m \<Longrightarrow> wf_machine m'"
    and "exec_pop m d = Inr m' \<Longrightarrow> wf_machine m \<Longrightarrow> wf_machine m'"
    and "exec_mload m d a = Inr m' \<Longrightarrow> wf_machine m \<Longrightarrow> wf_machine m'"
    and "exec_mstore m a b = Inr m' \<Longrightarrow> wf_machine m \<Longrightarrow> wf_machine m'"
  by (auto simp: exec_ldc_def exec_push_def exec_pop_def exec_mload_def exec_mstore_Inr_iff
      dest: wf_set_reg wf_push wf_pop wf_mem_store split: if_splits prod.splits bool.splits)

lemmas wf_machine_ops = wf_unary wf_binary wf_wide_op wf_exec_machine wf_set_reg crypto_wf wf_push wf_pop

lemma region_small: "mem_region m p n = Some bs \<Longrightarrow> length bs < 2 ^ 64"
  using mem_region_length [of m p n bs] unat_bound [of n] by simp

text \<open>An effect pushed or a counter moved is not seen by \<open>grows\<close>.\<close>

lemma grows_tail:
  "grows s s' \<Longrightarrow> grows s (s'\<lparr>effects := es\<rparr>)"
  "grows s s' \<Longrightarrow> grows s (s'\<lparr>storage := st\<rparr>)"
  "grows s s' \<Longrightarrow> grows s (s'\<lparr>event_records := n\<rparr>)"
  "grows s s' \<Longrightarrow> (wf_machine (machine s) \<Longrightarrow> wf_machine m) \<Longrightarrow> grows s (s'\<lparr>machine := m\<rparr>)"
  by (auto simp: grows_defs)

lemma grows_count_event: "count_event s = Inr s' \<Longrightarrow> grows s s'"
  by (auto simp: count_event_def Let_def grows_defs split: option.splits if_splits)

lemma grows_exec_send: "exec_send s a b c = Inr (st, s') \<Longrightarrow> grows s s'"
  unfolding exec_send_def
  by (auto simp del: charge_effect_Inr_iff intro!: grows_tail
      dest!: region_small grows_charge_durable_target grows_charge_effect intro: grows_trans)

lemma grows_exec_emit: "exec_emit s a b c = Inr (st, s') \<Longrightarrow> grows s s'"
  unfolding exec_emit_def Let_def
  by (auto simp del: charge_effect_Inr_iff charge_Inr_iff intro!: grows_tail split: if_splits
      dest!: region_small grows_charge_durable_target grows_charge_effect grows_charge grows_count_event intro: grows_trans)

lemma grows_exec_sload: "exec_sload s d a = Inr (st, s') \<Longrightarrow> grows s s'"
  by (auto simp: exec_sload_def fetch_slot_eq on_machine_def grows_defs dest: wf_set_reg split: if_splits)

lemma grows_exec_sstore: "exec_sstore s a b = Inr (st, s') \<Longrightarrow> grows s s'"
  by (auto simp: exec_sstore_def intro!: grows_tail dest: grows_charge_store split: if_splits)

lemma grows_exec_hash: "exec_hash P s a b c = Inr (st, s') \<Longrightarrow> grows s s'"
  by (auto simp: exec_hash_def Let_def simp del: charge_Inr_iff
      dest!: grows_taint_keyed grows_charge grows_run_crypto [OF _ crypto_wf(1)] intro: grows_trans split: if_splits)

lemma grows_exec_verify:
  "exec_verify f header price s b = Inr (st, s') \<Longrightarrow>
     (\<And>m m'. f m = Inr m' \<Longrightarrow> wf_machine m \<Longrightarrow> wf_machine m') \<Longrightarrow> grows s s'"
  by (auto simp: exec_verify_def simp del: charge_Inr_iff dest!: grows_charge grows_run_crypto intro: grows_trans)

lemma grows_control:
  "exec_jump_if s a cond t = Inr (st, s') \<Longrightarrow> grows s s'"
  "exec_call s t = Inr (st, s') \<Longrightarrow> grows s s'"
  "exec_ret s = Inr (st, s') \<Longrightarrow> grows s s'"
  by (auto simp: exec_jump_if_def exec_call_def exec_ret_def intro!: grows_machine
      dest: wf_push wf_pop split: if_splits)

lemma grows_verify:
  "exec_verify (\<lambda>m. verify_ml P m a b c) h price s r = Inr (st, s') \<Longrightarrow> grows s s'"
  "exec_verify (\<lambda>m. verify_slh P m a b c) h price s r = Inr (st, s') \<Longrightarrow> grows s s'"
  "exec_verify (\<lambda>m. merkle_verify P m a b c str) h price s r = Inr (st, s') \<Longrightarrow> grows s s'"
  by (erule grows_exec_verify, erule (1) crypto_wf)+

lemma grows_addr: "run_crypto (\<lambda>m. address P m a b c) s = Inr s' \<Longrightarrow> grows s s'"
  by (erule grows_run_crypto, erule (1) crypto_wf)

lemma grows_step:
  assumes "step P s i = Inr (st, s')"
  shows "grows s s'"
  using assms
  by (cases i)
    (auto simp: step_def Let_def dest!: grows_exec_send grows_exec_emit grows_exec_sload grows_exec_sstore
      grows_exec_hash grows_control grows_verify grows_addr elim!: grows_on_machine intro: wf_machine_ops)

lemma fetch_Inr_iff:
  "fetch s = Inr (i, s') \<longleftrightarrow>
     (\<exists>n u. decode (code s) (unat (mpc (machine s))) = Inr (i, n) \<and>
        unat (mpc (machine s)) + n < 2 ^ 32 \<and>
        unat u = unat (meter_used s) + unat (cost (opcode i)) \<and> u \<le> meter_limit s \<and>
        s' = s\<lparr>meter_used := u, machine := (machine s)\<lparr>mpc := mpc (machine s) + of_nat n\<rparr>\<rparr>)"
  (is "?l \<longleftrightarrow> ?r")
proof
  assume ?l
  then show ?r
    by (clarsimp simp: fetch_def Let_def usize_add_def split: sum.splits if_splits) blast
next
  assume ?r
  then obtain n u where "decode (code s) (unat (mpc (machine s))) = Inr (i, n)"
      "unat (mpc (machine s)) + n < 2 ^ 32"
      "unat u = unat (meter_used s) + unat (cost (opcode i))" "u \<le> meter_limit s"
    and s': "s' = s\<lparr>meter_used := u, machine := (machine s)\<lparr>mpc := mpc (machine s) + of_nat n\<rparr>\<rparr>"
    by blast
  moreover from this have "charge (cost (opcode i)) s = Inr (s\<lparr>meter_used := u\<rparr>)"
    by auto
  ultimately show ?l
    by (simp add: fetch_def Let_def usize_add_def del: charge_Inr_iff bindE_Inr_iff)
qed

lemma grows_fetch: "fetch s = Inr (i, s') \<Longrightarrow> grows s s'"
  by (auto simp: fetch_Inr_iff grows_defs)

lemma turn_InrD:
  assumes "turn P s = Inr r"
  obtains i st s0 s1 where "fetch s = Inr (i, s0)" "step P s0 i = Inr (st, s1)"
    "r = (case st of Next \<Rightarrow> Inr s1 | StepHalt \<Rightarrow> Inl (outcome_of s1)
          | JumpTo t \<Rightarrow> Inr (s1\<lparr>machine := (machine s1)\<lparr>mpc := t\<rparr>\<rparr>))"
  using assms by (auto simp: turn_def)

lemma step_Halt_iff: "step P s i = Inr (StepHalt, s') \<longleftrightarrow> i = Halt \<and> s' = s"
  by (cases i) (auto simp: step_def Let_def on_machine_def exec_jump_if_def exec_call_def exec_ret_def
      exec_sload_def exec_sstore_def exec_send_def exec_emit_def exec_hash_def exec_verify_def split: if_splits prod.splits)

text \<open>A turn that does not halt pays, and stays within the limit.\<close>

lemma turn_pays:
  assumes "turn P s = Inr (Inr s')"
  shows "grows s s' \<and> unat (meter_used s) < unat (meter_used s') \<and> meter_used s' \<le> meter_limit s'"
  using assms
proof (rule turn_InrD)
  fix i st s0 s1
  assume f: "fetch s = Inr (i, s0)" and st: "step P s0 i = Inr (st, s1)"
    and r: "Inr s' = (case st of Next \<Rightarrow> Inr s1 | StepHalt \<Rightarrow> Inl (outcome_of s1)
          | JumpTo t \<Rightarrow> Inr (s1\<lparr>machine := (machine s1)\<lparr>mpc := t\<rparr>\<rparr>))"
  have "i \<noteq> Halt"
    using st r by (auto simp: step_def)
  then have "opcode i \<noteq> OpHalt"
    by (cases i) simp_all
  then have "unat (meter_used s) < unat (meter_used s0)" "meter_used s0 \<le> meter_limit s0"
    using f cost_pos [of "opcode i"] by (auto simp: fetch_Inr_iff)
  moreover have "grows s0 s1" "grows s s0"
    using grows_step [OF st] grows_fetch [OF f] .
  moreover have "s' = s1 \<or> (\<exists>t. s' = s1\<lparr>machine := (machine s1)\<lparr>mpc := t\<rparr>\<rparr>)"
    using r by (cases st) auto
  moreover have "grows s1 s'" "meter_used s' = meter_used s1"
    using calculation(5) by (auto simp: grows_defs)
  moreover have "grows s s'"
    using calculation by (meson grows_trans)
  moreover have "meter_used s' \<le> meter_limit s'" "unat (meter_used s0) \<le> unat (meter_used s')"
    using calculation(2,3,6) unfolding grows_def by auto
  ultimately show ?thesis
    by linarith
qed

section \<open>The run\<close>

function run :: "prims \<Rightarrow> interp \<Rightarrow> exn + Outcome" where
  "run P s =
     (case turn P s of
        Inl e \<Rightarrow> Inl e
      | Inr (Inl out) \<Rightarrow> Inr out
      | Inr (Inr s') \<Rightarrow> run P s')"
  by pat_completeness auto
termination
  by (relation "measure (\<lambda>(P, s). unat (meter_limit s) - unat (meter_used s))")
    (auto dest!: turn_pays simp: grows_defs word_le_nat_alt)

declare run.simps [simp del]
end
