(* ===== verification/Steps.thy ===== *)
theory Steps
  imports Run
begin

text \<open>
  The instructions by what they touch: five reach the host's data (\<open>SLoad\<close>, \<open>SStore\<close>, \<open>Send\<close>,
  \<open>Emit\<close>, \<open>Hash\<close>) and are characterised one by one, all others are plain steps.
\<close>

lemma run_crypto_Inr_iff [simp]:
  "run_crypto f s = Inr s' \<longleftrightarrow> (\<exists>m. f (machine s) = Inr m \<and> s' = s\<lparr>machine := m\<rparr>)"
  by (auto simp: run_crypto_def split: sum.splits exn.splits)

lemma on_machine_Inr_iff [simp]:
  "on_machine s r = Inr (st, s') \<longleftrightarrow> (\<exists>m. r = Inr m \<and> st = Next \<and> s' = s\<lparr>machine := m\<rparr>)"
  by (auto simp: on_machine_def)

section \<open>The five instructions that reach the host\<close>

definition may_read :: "interp \<Rightarrow> StorageKey \<Rightarrow> bool" where
  "may_read s key \<longleftrightarrow>
     (case manifest s of None \<Rightarrow> True
      | Some man \<Rightarrow> can_read man key \<or> key |\<in>| keyed_authorized_reads s)"

definition may_write :: "interp \<Rightarrow> StorageKey \<Rightarrow> bool" where
  "may_write s key \<longleftrightarrow>
     (case manifest s of None \<Rightarrow> True
      | Some man \<Rightarrow> can_write man key \<or> key |\<in>| keyed_authorized_writes s)"

lemma read_key_Inr_iff: "read_key m p = Inr key \<longleftrightarrow> mem_region m p 32 = Some key"
  by (simp add: read_key_def STORAGE_KEY_BYTES_def)

lemma guard_Inr_iff: "(if c then Inl e else r) = Inr x \<longleftrightarrow> \<not> c \<and> r = Inr x"
  by simp

lemma read_denied:
  "(case manifest s of Some man \<Rightarrow> \<not> can_read man key \<and> key |\<notin>| keyed_authorized_reads s | None \<Rightarrow> False)
     \<longleftrightarrow> \<not> may_read s key"
  "(case manifest s of Some man \<Rightarrow> \<not> can_write man key \<and> key |\<notin>| keyed_authorized_writes s | None \<Rightarrow> False)
     \<longleftrightarrow> \<not> may_write s key"
  by (simp_all add: may_read_def may_write_def split: option.split)

lemma exec_sload_Inr_iff:
  "exec_sload s d a = Inr (st, s') \<longleftrightarrow>
     (\<exists>p key m. reg (machine s) a = Inr p \<and> mem_region (machine s) p 32 = Some key \<and> may_read s key \<and>
        set_reg (machine s) d (slot_value s key) = Inr m \<and> st = Next \<and>
        s' = s\<lparr>loaded := fetched s key, machine := m\<rparr>)"
  by (simp add: exec_sload_def read_key_Inr_iff read_denied fetch_slot_eq guard_Inr_iff)

lemma exec_sstore_Inr_iff:
  "exec_sstore s a b = Inr (st, s') \<longleftrightarrow>
     (\<exists>p key v s1. reg (machine s) a = Inr p \<and> mem_region (machine s) p 32 = Some key \<and>
        reg (machine s) b = Inr v \<and> may_write s key \<and> charge_store key v s = Inr s1 \<and> st = Next \<and>
        s' = s1\<lparr>storage := fmupd key v (storage s1)\<rparr>)"
  by (simp add: exec_sstore_def read_key_Inr_iff read_denied guard_Inr_iff) blast

text \<open>A durable target: the first of a run is free.\<close>

definition target_price :: "interp \<Rightarrow> bytes \<Rightarrow> nat" where
  "target_price s key = (if key |\<notin>| durable_targets s \<and> durable_targets s \<noteq> {||} then 227000 else 0)"

lemma charge_durable_target_Inr:
  assumes "charge_durable_target k t s = Inr s'"
  shows "\<exists>u. s' = s\<lparr>durable_targets := finsert (k # t) (durable_targets s), meter_used := u\<rparr> \<and>
         unat u = unat (meter_used s) + target_price s (k # t)"
proof -
  let ?s = "s\<lparr>durable_targets := finsert (k # t) (durable_targets s)\<rparr>"
  have card: "1 < fcard (finsert (k # t) (durable_targets s)) \<longleftrightarrow> durable_targets s \<noteq> {||}"
    if "k # t |\<notin>| durable_targets s"
    using that fcard_0_eq [of "durable_targets s"] by (simp add: fcard_finsert_if flip: neq0_conv)
  show ?thesis
  proof (cases "target_price s (k # t) = 0")
    case True
    then have "s' = ?s"
      using assms card by (auto simp: charge_durable_target_def target_price_def Let_def split: if_splits)
    then show ?thesis
      using True by (intro exI [of _ "meter_used s"]) simp
  next
    case False
    then have "charge KEYED_SLOT_METER ?s = Inr s'"
      using assms card
      by (auto simp: charge_durable_target_def target_price_def Let_def simp del: charge_Inr_iff split: if_splits)
    then show ?thesis
      using False by (auto simp: KEYED_SLOT_METER_def target_price_def split: if_splits)
  qed
qed

lemma exec_send_InrD:
  assumes "exec_send s a b c = Inr (st, s')"
  obtains p n amount to u e where
    "reg (machine s) a = Inr p" "reg (machine s) b = Inr n" "reg (machine s) c = Inr amount"
    "mem_region (machine s) p n = Some to" "st = Next"
    "s' = s\<lparr>meter_used := u, effects_bytes := e,
        durable_targets := finsert (DURABLE_TRANSFER # to) (durable_targets s),
        effects := effects s @ [Transfer to amount]\<rparr>"
    "unat u = unat (meter_used s) + 2 * length to + target_price s (DURABLE_TRANSFER # to)"
    "unat e = unat (effects_bytes s) + (length to + 32)" "e \<le> EFFECTS_BYTES_CAP"
proof -
  obtain p n amount to s1 s2 where r: "reg (machine s) a = Inr p" "reg (machine s) b = Inr n"
      "reg (machine s) c = Inr amount" "mem_region (machine s) p n = Some to" "st = Next"
    and s1: "charge_effect (length to) s = Inr s1" and s2: "charge_durable_target DURABLE_TRANSFER to s1 = Inr s2"
    and s': "s' = s2\<lparr>effects := effects s2 @ [Transfer to amount]\<rparr>"
    using assms by (auto simp: exec_send_def simp del: charge_effect_Inr_iff)
  obtain u1 e where u1: "unat u1 = unat (meter_used s) + 2 * length to"
    and e: "unat e = unat (effects_bytes s) + (length to + 32)" "e \<le> EFFECTS_BYTES_CAP"
    and s1': "s1 = s\<lparr>meter_used := u1, effects_bytes := e\<rparr>"
    using s1 region_small [OF r(4)] by auto
  obtain u where u: "unat u = unat (meter_used s1) + target_price s1 (DURABLE_TRANSFER # to)"
    and s2': "s2 = s1\<lparr>durable_targets := finsert (DURABLE_TRANSFER # to) (durable_targets s1), meter_used := u\<rparr>"
    using charge_durable_target_Inr [OF s2] by blast
  show ?thesis
    by (rule that [OF r, where u = u and e = e]) (use u1 e u in \<open>simp_all add: s' s2' s1' target_price_def\<close>)
qed

text \<open>An event: its bytes, its mint target if it is one, and the record beyond the free ones.\<close>

definition mint_target :: "bytes \<Rightarrow> bytes \<Rightarrow> bytes option" where
  "mint_target sel data =
     (if sel = ASSET_MINT_SELECTOR \<and> length data \<ge> ASSET_MINT_DATA_BYTES
      then Some (DURABLE_MINT # take 32 data) else None)"

lemma count_event_Inr:
  assumes "count_event s = Inr s'"
  shows "\<exists>k u. s' = s\<lparr>event_records := k, meter_used := u\<rparr> \<and>
         unat k = unat (event_records s) + 1 \<and> unat u = unat (meter_used s) + (if unat k > 4 then 6250 else 0)"
proof -
  obtain k where k: "unat k = unat (event_records s) + 1"
    and r: "(if k > FREE_EVENT_RECORDS then charge EVENT_RECORD_METER (s\<lparr>event_records := k\<rparr>)
             else Inr (s\<lparr>event_records := k\<rparr>)) = Inr s'"
    using assms
    by (auto simp: count_event_def checked_add_Some_iff Let_def simp del: charge_Inr_iff split: option.splits)
  have gt: "k > FREE_EVENT_RECORDS \<longleftrightarrow> unat k > 4"
    by (simp add: word_less_nat_alt FREE_EVENT_RECORDS_def)
  show ?thesis
  proof (cases "unat k > 4")
    case True
    then show ?thesis
      using r k gt by (auto simp: EVENT_RECORD_METER_def)
  next
    case False
    then have "s' = s\<lparr>event_records := k, meter_used := meter_used s\<rparr>"
      using r gt by auto
    then show ?thesis
      using False k by (intro exI conjI) (assumption, simp_all)
  qed
qed

lemma exec_emit_InrD:
  assumes "exec_emit s a b c = Inr (st, s')"
  obtains p n w data u e k where
    "reg (machine s) a = Inr p" "reg (machine s) b = Inr n" "reg (machine s) c = Inr w"
    "strict s \<Longrightarrow> unat w < 2 ^ 32"
    "mem_region (machine s) p n = Some data" "st = Next"
    "s' = s\<lparr>meter_used := u, effects_bytes := e, event_records := k,
        durable_targets := (case mint_target (to_be 4 (ucast w :: u32)) data of
           None \<Rightarrow> durable_targets s | Some t \<Rightarrow> finsert t (durable_targets s)),
        effects := effects s @ [Event (to_be 4 (ucast w :: u32)) data]\<rparr>"
    "unat u = unat (meter_used s) + 100 * length data +
       (case mint_target (to_be 4 (ucast w :: u32)) data of None \<Rightarrow> 0 | Some t \<Rightarrow> target_price s t) +
       (if unat k > 4 then 6250 else 0)"
    "unat e = unat (effects_bytes s) + (length data + 32)" "e \<le> EFFECTS_BYTES_CAP"
    "unat k = unat (event_records s) + 1"
proof -
  obtain p n w data durable s1 s2 s3 s4 where r: "reg (machine s) a = Inr p" "reg (machine s) b = Inr n"
      "reg (machine s) c = Inr w" "strict s \<Longrightarrow> \<not> w > 0xFFFFFFFF"
      "mem_region (machine s) p n = Some data" "st = Next"
    and s1: "charge_effect (length data) s = Inr s1"
    and durable: "checked_mul (of_nat (length data)) (EVENT_BYTE - EFFECT_BYTE) = Some durable"
    and s2: "charge durable s1 = Inr s2"
    and s3: "(if to_be 4 (ucast w :: u32) = ASSET_MINT_SELECTOR \<and> length data \<ge> ASSET_MINT_DATA_BYTES
        then charge_durable_target DURABLE_MINT (take 32 data) s2 else Inr s2) = Inr s3"
    and s4: "count_event s3 = Inr s4"
    and s': "s' = s4\<lparr>effects := effects s4 @ [Event (to_be 4 (ucast w :: u32)) data]\<rparr>"
    using assms unfolding exec_emit_def Let_def
    by (auto simp: guard_Inr_iff simp del: charge_effect_Inr_iff charge_Inr_iff to_be.simps)
  have w: "strict s \<Longrightarrow> unat w < 2 ^ 32"
    using r(4) by (simp add: word_less_nat_alt not_less)
  obtain u1 e where u1: "unat u1 = unat (meter_used s) + 2 * length data"
    and e: "unat e = unat (effects_bytes s) + (length data + 32)" "e \<le> EFFECTS_BYTES_CAP"
    and s1': "s1 = s\<lparr>meter_used := u1, effects_bytes := e\<rparr>"
    using s1 region_small [OF r(5)] by auto
  have "unat durable = 98 * length data"
    using durable region_small [OF r(5)]
    by (simp add: checked_mul_Some_iff unat_of_length EVENT_BYTE_def EFFECT_BYTE_def)
  then obtain u2 where u2: "unat u2 = unat u1 + 98 * length data" and s2': "s2 = s1\<lparr>meter_used := u2\<rparr>"
    using s2 s1' by auto
  obtain u3 where u3: "unat u3 = unat u2 + (case mint_target (to_be 4 (ucast w :: u32)) data of None \<Rightarrow> 0 | Some t \<Rightarrow> target_price s t)"
    and s3': "s3 = s2\<lparr>meter_used := u3, durable_targets := (case mint_target (to_be 4 (ucast w :: u32)) data of
           None \<Rightarrow> durable_targets s | Some t \<Rightarrow> finsert t (durable_targets s))\<rparr>"
  proof (cases "to_be 4 (ucast w :: u32) = ASSET_MINT_SELECTOR \<and> length data \<ge> ASSET_MINT_DATA_BYTES")
    case True
    then show ?thesis
      using that s3 by (auto simp: mint_target_def s2' s1' target_price_def dest!: charge_durable_target_Inr)
  next
    case False
    then have "mint_target (to_be 4 (ucast w :: u32)) data = None" "s3 = s2"
      using s3 unfolding mint_target_def by auto
    then show ?thesis
      using that [of u2] by (simp add: s2' s1')
  qed
  obtain k u where k: "unat k = unat (event_records s) + 1"
    and u: "unat u = unat u3 + (if unat k > 4 then 6250 else 0)"
    and s4': "s4 = s3\<lparr>event_records := k, meter_used := u\<rparr>"
    using count_event_Inr [OF s4] by (auto simp: s1' s2' s3')
  show ?thesis
    by (rule that [OF r(1-3) w r(5,6), where u = u and e = e and k = k]) (use u1 u2 u3 u e k in \<open>simp_all add: s' s4' s3' s2' s1' del: to_be.simps\<close>)
qed

lemma exec_hash_InrD:
  assumes "exec_hash P s a b c = Inr (st, s')"
  obtains p n out region d m u where
    "reg (machine s) a = Inr p" "reg (machine s) b = Inr n" "reg (machine s) c = Inr out"
    "mem_region (machine s) p n = Some region" "p_sha3_256 P region = Some d"
    "mem_write (machine s) out (digest_bytes d) = (True, m)" "st = Next"
    "unat u = unat (meter_used s) + unat (hash_variable n)" "u \<le> meter_limit s"
    "taint_keyed_from_hash
       (if n \<ge> 8 then map_option from_be (mem_region (machine s) p 8) else None) out
       (s\<lparr>meter_used := u, machine := m\<rparr>) = Inr s'"
proof -
  obtain p n out u m where r: "reg (machine s) a = Inr p" "reg (machine s) b = Inr n" "reg (machine s) c = Inr out"
    and u: "unat u = unat (meter_used s) + unat (hash_variable n)" "u \<le> meter_limit s"
    and h: "hash P (machine s) a b c = Inr m" and st: "st = Next"
    and t: "taint_keyed_from_hash
       (if n \<ge> 8 then map_option from_be (mem_region (machine s) p 8) else None) out
       (s\<lparr>meter_used := u, machine := m\<rparr>) = Inr s'"
    using assms by (auto simp: exec_hash_def Let_def)
  obtain region d where "mem_region (machine s) p n = Some region" "p_sha3_256 P region = Some d"
      "mem_write (machine s) out (digest_bytes d) = (True, m)"
    using h r by (auto elim: hash_InrD)
  then show ?thesis
    using that r u st t by blast
qed

section \<open>The rest\<close>

definition reaches_host :: "Instr \<Rightarrow> bool" where
  "reaches_host i =
     (case i of SLoad _ _ \<Rightarrow> True | SStore _ _ \<Rightarrow> True | Send _ _ _ \<Rightarrow> True
      | Emit _ _ _ \<Rightarrow> True | Hash _ _ _ \<Rightarrow> True | _ \<Rightarrow> False)"

text \<open>Every other instruction changes the machine and the meter only.\<close>

definition plain_step :: "interp \<Rightarrow> interp \<Rightarrow> bool" where
  "plain_step s s' \<longleftrightarrow> (\<exists>m u. s' = s\<lparr>machine := m, meter_used := u\<rparr> \<and> unat (meter_used s) \<le> unat u)"

lemma plain_stepI:
  "s' = s \<Longrightarrow> plain_step s s'"
  "s' = s\<lparr>machine := m\<rparr> \<Longrightarrow> plain_step s s'"
  "s' = s\<lparr>meter_used := u, machine := m\<rparr> \<Longrightarrow> unat (meter_used s) \<le> unat u \<Longrightarrow> plain_step s s'"
  unfolding plain_step_def
    apply (rule exI [of _ "machine s"], rule exI [of _ "meter_used s"], simp)
   apply (rule exI [of _ m], rule exI [of _ "meter_used s"], simp)
  apply (rule exI [of _ m], rule exI [of _ u], simp)
  done

lemma step_plain:
  assumes "step P s i = Inr (st, s')" and "\<not> reaches_host i"
  shows "plain_step s s'"
  using assms
  by (cases i)
    (auto simp: step_def Let_def reaches_host_def exec_jump_if_def exec_call_def exec_ret_def exec_verify_def
      intro: plain_stepI split: if_splits)

lemma step_host:
  "step P s (SLoad d a) = exec_sload s d a"
  "step P s (SStore a b) = exec_sstore s a b"
  "step P s (Send a b c) = exec_send s a b c"
  "step P s (Emit a b c) = exec_emit s a b c"
  "step P s (Hash a b c) = exec_hash P s a b c"
  by (simp_all add: step_def Let_def)

text \<open>The case rule the invariants use.\<close>

lemma step_cases [consumes 1, case_names plain sload sstore send emit hash]:
  assumes "step P s i = Inr (st, s')"
  obtains "\<not> reaches_host i" "plain_step s s'"
  | d a where "i = SLoad d a" "exec_sload s d a = Inr (st, s')"
  | a b where "i = SStore a b" "exec_sstore s a b = Inr (st, s')"
  | a b c where "i = Send a b c" "exec_send s a b c = Inr (st, s')"
  | a b c where "i = Emit a b c" "exec_emit s a b c = Inr (st, s')"
  | a b c where "i = Hash a b c" "exec_hash P s a b c = Inr (st, s')"
proof (cases "reaches_host i")
  case True
  then show ?thesis
    using that(2-6) assms by (cases i) (simp_all add: reaches_host_def step_host)
next
  case False
  then show ?thesis
    using that(1) step_plain [OF assms] by blast
qed
end
