(* ===== verification/Reach.thy ===== *)
theory Reach
  imports Steps
begin

text \<open>
  The states a run passes through and the contract of an invariant of the loop, the locale
  \<open>run_invariant\<close>, with the shape of the machine as its first instance.
\<close>

section \<open>Turns\<close>

text \<open>\<open>turns P s n s'\<close>: after \<open>n\<close> turns of the loop from \<open>s\<close> the state is \<open>s'\<close>.\<close>

inductive turns :: "prims \<Rightarrow> interp \<Rightarrow> nat \<Rightarrow> interp \<Rightarrow> bool" for P s where
  none: "turns P s 0 s"
| more: "turns P s n s' \<Longrightarrow> turn P s' = Inr (Inr s'') \<Longrightarrow> turns P s (Suc n) s''"

inductive_cases turnsE: "turns P s n s'"

lemma turns_first: "turns P s' n t \<Longrightarrow> turn P s = Inr (Inr s') \<Longrightarrow> turns P s (Suc n) t"
  by (induction rule: turns.induct) (auto intro: turns.intros)

text \<open>The run is the first turn that does not continue.\<close>

lemma run_turns:
  "\<exists>n t. turns P s n t \<and>
     (case run P s of Inl e \<Rightarrow> turn P t = Inl e | Inr out \<Rightarrow> turn P t = Inr (Inl out))"
proof (induction P s rule: run.induct)
  case (1 P s)
  show ?case
  proof (cases "turn P s")
    case (Inl e)
    then show ?thesis
      using turns.none by (auto simp: run.simps [of P s])
  next
    case (Inr r)
    show ?thesis
    proof (cases r)
      case (Inl out)
      then show ?thesis
        using Inr turns.none by (auto simp: run.simps [of P s])
    next
      case continue: (Inr s')
      then have "turn P s = Inr (Inr s')" and "run P s = run P s'"
        using Inr continue by (simp_all add: run.simps [of P s])
      then show ?thesis
        using 1 [OF Inr continue] turns_first by fastforce
    qed
  qed
qed

text \<open>A run is found again from a turn on it.\<close>

lemma run_from: "turns P s n t \<Longrightarrow> run P s = run P t"
  by (induction rule: turns.induct) (simp_all add: run.simps [of P])

lemma turns_budget:
  "turns P s n s' \<Longrightarrow> grows s s' \<and> unat (meter_used s) + n \<le> unat (meter_used s') \<and>
     (n > 0 \<longrightarrow> meter_used s' \<le> meter_limit s')"
proof (induction rule: turns.induct)
  case none
  then show ?case by simp
next
  case (more n s' s'')
  then show ?case
    using turn_pays [OF more.hyps(2)] grows_trans by fastforce
qed

section \<open>Invariants of a run\<close>

lemma step_jump: "step P s i = Inr (JumpTo t, s') \<Longrightarrow> t |\<in>| bounds s'"
  by (cases i) (auto simp: step_def Let_def exec_jump_if_def exec_call_def exec_ret_def exec_sload_Inr_iff
      exec_sstore_Inr_iff exec_hash_def exec_verify_def exec_send_def exec_emit_def split: if_splits)

lemma fetch_wf_instr: "fetch s = Inr (i, s') \<Longrightarrow> wf_instr i"
  by (auto simp: fetch_Inr_iff dest: decodeD(1))

text \<open>
  A predicate kept by the head of the loop, by every instruction and by a jump holds at
  every turn, and of the state behind the outcome.
\<close>

locale run_invariant =
  fixes P :: prims and I :: "interp \<Rightarrow> bool"
  assumes fetch_keeps: "I s \<Longrightarrow> fetch s = Inr (i, s') \<Longrightarrow> I s'"
    and step_keeps: "I s \<Longrightarrow> wf_instr i \<Longrightarrow> step P s i = Inr (st, s') \<Longrightarrow> I s'"
    and jump_keeps: "I s \<Longrightarrow> t |\<in>| bounds s \<Longrightarrow> I (s\<lparr>machine := (machine s)\<lparr>mpc := t\<rparr>\<rparr>)"
begin

lemma turn_keeps:
  assumes "I s" and "turn P s = Inr (Inr s')"
  shows "I s'"
  using assms(2)
proof (rule turn_InrD)
  fix i st s0 s1
  assume f: "fetch s = Inr (i, s0)" and st: "step P s0 i = Inr (st, s1)"
    and r: "Inr s' = (case st of Next \<Rightarrow> Inr s1 | StepHalt \<Rightarrow> Inl (outcome_of s1)
          | JumpTo t \<Rightarrow> Inr (s1\<lparr>machine := (machine s1)\<lparr>mpc := t\<rparr>\<rparr>))"
  have "I s1"
    using assms(1) f st by (blast intro: fetch_keeps step_keeps fetch_wf_instr)
  then show ?thesis
    using r st step_jump jump_keeps by (cases st) auto
qed

lemma halt_keeps:
  assumes "I s" and "turn P s = Inr (Inl out)"
  shows "\<exists>s'. I s' \<and> grows s s' \<and> meter_used s' \<le> meter_limit s' \<and> out = outcome_of s'"
  using assms(2)
proof (rule turn_InrD)
  fix i st s0 s1
  assume f: "fetch s = Inr (i, s0)" and st: "step P s0 i = Inr (st, s1)"
    and r: "Inl out = (case st of Next \<Rightarrow> Inr s1 | StepHalt \<Rightarrow> Inl (outcome_of s1)
          | JumpTo t \<Rightarrow> Inr (s1\<lparr>machine := (machine s1)\<lparr>mpc := t\<rparr>\<rparr>))"
  have "I s0" "grows s s0"
    using assms(1) f by (blast intro: fetch_keeps grows_fetch)+
  moreover have "meter_used s0 \<le> meter_limit s0"
    using f by (auto simp: fetch_Inr_iff)
  moreover have "s1 = s0" "out = outcome_of s1"
    using r st by (cases st; simp add: step_Halt_iff)+
  ultimately show ?thesis
    by blast
qed

lemma turns_keep: "turns P s n s' \<Longrightarrow> I s \<Longrightarrow> I s'"
  by (induction rule: turns.induct) (auto intro: turn_keeps)

lemma outcome_keeps:
  assumes "I s" and "run P s = Inr out"
  shows "\<exists>s'. I s' \<and> grows s s' \<and> meter_used s' \<le> meter_limit s' \<and> out = outcome_of s'"
proof -
  obtain n t where t: "turns P s n t" "turn P t = Inr (Inl out)"
    using run_turns [of P s] assms(2) by auto
  then obtain s' where "I s'" "grows t s'" "meter_used s' \<le> meter_limit s'" "out = outcome_of s'"
    using halt_keeps turns_keep assms(1) by blast
  then show ?thesis
    using turns_budget [OF t(1)] grows_trans by blast
qed

lemma fault_at:
  assumes "I s" and "run P s = Inl e"
  shows "\<exists>s'. I s' \<and> turn P s' = Inl e"
  using run_turns [of P s] assms turns_keep by fastforce

end

text \<open>The shape of the machine is one, and what \<open>grows\<close> keeps of a start is another.\<close>

definition wf_interp :: "interp \<Rightarrow> bool" where
  "wf_interp s \<longleftrightarrow> wf_machine (machine s) \<and> bounds s = boundaries (code s)"

lemma wf_interp_grows: "wf_interp s \<Longrightarrow> grows s s' \<Longrightarrow> wf_interp s'"
  by (simp add: wf_interp_def grows_defs)

interpretation shape: run_invariant P wf_interp for P
proof
  show "wf_interp s \<Longrightarrow> fetch s = Inr (i, s') \<Longrightarrow> wf_interp s'" for s i s'
    using grows_fetch wf_interp_grows by blast
  show "wf_interp s \<Longrightarrow> wf_instr i \<Longrightarrow> step P s i = Inr (st, s') \<Longrightarrow> wf_interp s'" for s i st s'
    using grows_step wf_interp_grows by blast
  show "wf_interp s \<Longrightarrow> t |\<in>| bounds s \<Longrightarrow> wf_interp (s\<lparr>machine := machine s\<lparr>mpc := t\<rparr>\<rparr>)" for s t
    by (simp add: wf_interp_def)
qed
end
