(* ===== verification/Ledger.thy ===== *)
theory Ledger
  imports Reach
begin

text \<open>
  The ledger: the meter covers all that the host has to apply or keep, as an invariant of the run,
  and the states in which entries are opened.
\<close>

section \<open>Invariants over the host state\<close>

text \<open>
  A predicate on what the run keeps for the host: an instruction that only touches the
  machine and the meter keeps it, and so does each of the five others.
\<close>

lemma fetch_plain: "fetch s = Inr (i, s') \<Longrightarrow> plain_step s s'"
  by (auto simp: fetch_Inr_iff intro!: plain_stepI(3) [OF refl])

lemma jump_plain: "plain_step s (s\<lparr>machine := m\<rparr>)"
  by (rule plain_stepI(2)) simp

locale host_invariant =
  fixes P :: prims and J :: "interp \<Rightarrow> bool"
  assumes plain: "wf_interp s \<Longrightarrow> J s \<Longrightarrow> plain_step s s' \<Longrightarrow> J s'"
    and sload: "wf_interp s \<Longrightarrow> J s \<Longrightarrow> exec_sload s d a = Inr (st, s') \<Longrightarrow> J s'"
    and sstore: "wf_interp s \<Longrightarrow> J s \<Longrightarrow> exec_sstore s a b = Inr (st, s') \<Longrightarrow> J s'"
    and send: "wf_interp s \<Longrightarrow> J s \<Longrightarrow> exec_send s a b c = Inr (st, s') \<Longrightarrow> J s'"
    and emit: "wf_interp s \<Longrightarrow> J s \<Longrightarrow> exec_emit s a b c = Inr (st, s') \<Longrightarrow> J s'"
    and hash: "wf_interp s \<Longrightarrow> J s \<Longrightarrow> exec_hash P s a b c = Inr (st, s') \<Longrightarrow> J s'"
begin

lemma step_keeps_host: "wf_interp s \<Longrightarrow> J s \<Longrightarrow> step P s i = Inr (st, s') \<Longrightarrow> J s'"
  by (erule step_cases) (blast intro: plain sload sstore send emit hash)+

end

sublocale host_invariant \<subseteq> run_invariant P "\<lambda>s. wf_interp s \<and> J s"
proof
  show "wf_interp s' \<and> J s'" if "wf_interp s \<and> J s" "fetch s = Inr (i, s')" for s i s'
    using that plain fetch_plain shape.fetch_keeps by blast
  show "wf_interp s' \<and> J s'" if "wf_interp s \<and> J s" "wf_instr i" "step P s i = Inr (st, s')" for s i st s'
    using that step_keeps_host shape.step_keeps by blast
  show "wf_interp (s\<lparr>machine := machine s\<lparr>mpc := t\<rparr>\<rparr>) \<and> J (s\<lparr>machine := machine s\<lparr>mpc := t\<rparr>\<rparr>)"
    if "wf_interp s \<and> J s" "t |\<in>| bounds s" for s t
    using that plain jump_plain shape.jump_keeps by blast
qed

section \<open>The ledger\<close>

fun effect_len :: "Effect \<Rightarrow> nat" where
  "effect_len (Transfer to _) = length to"
| "effect_len (Event _ data) = length data"

fun effect_price :: "Effect \<Rightarrow> nat" where
  "effect_price (Transfer to _) = 2 * length to"
| "effect_price (Event _ data) = 100 * length data"

fun effect_target :: "Effect \<Rightarrow> bytes option" where
  "effect_target (Transfer to _) = Some (DURABLE_TRANSFER # to)"
| "effect_target (Event sel data) = mint_target sel data"

definition retained :: "Effect list \<Rightarrow> nat" where
  "retained es = (\<Sum>e\<leftarrow>es. effect_len e + 32)"

definition events :: "Effect list \<Rightarrow> nat" where
  "events es = length (filter (\<lambda>e. case e of Event _ _ \<Rightarrow> True | _ \<Rightarrow> False) es)"

definition targets :: "Effect list \<Rightarrow> bytes fset" where
  "targets es = fset_of_list (concat (map (\<lambda>e. case effect_target e of None \<Rightarrow> [] | Some t \<Rightarrow> [t]) es))"

text \<open>The counters and sets of the state agree with what they count.\<close>

definition ledger :: "interp \<Rightarrow> bool" where
  "ledger s \<longleftrightarrow>
     unat (effects_bytes s) = retained (effects s) \<and> effects_bytes s \<le> EFFECTS_BYTES_CAP \<and>
     unat (event_records s) = events (effects s) \<and>
     durable_targets s = targets (effects s) \<and>
     unat (keyed_bytes s) = 32 * (fcard (keyed_authorized_reads s) + fcard (keyed_authorized_writes s)) \<and>
     keyed_bytes s \<le> EFFECTS_BYTES_CAP \<and>
     keyed_authorized_writes s |\<subseteq>| keyed_authorized_reads s \<and>
     fresh_charged s |\<subseteq>| dirty s"

text \<open>What the effects, the dirty slots and the keyed slots of a state have to cost.\<close>

definition effects_price :: "Effect list \<Rightarrow> nat" where
  "effects_price es =
     sum_list (map effect_price es) + 6250 * (events es - 4) + 227000 * (fcard (targets es) - 1)"

definition dirty_price :: "StorageKey fset \<Rightarrow> nat" where
  "dirty_price D = 227000 * (fcard D - 8)"

definition keyed_price :: "interp \<Rightarrow> nat" where
  "keyed_price s = (if strict s then 948 else 227000) * fcard (keyed_authorized_reads s)"

definition owed :: "interp \<Rightarrow> nat" where
  "owed s = effects_price (effects s) + dirty_price (dirty s) + keyed_price s"

definition paid_up :: "nat \<Rightarrow> interp \<Rightarrow> bool" where
  "paid_up base s \<longleftrightarrow> ledger s \<and> base + owed s \<le> unat (meter_used s)"

lemmas ledger_defs = paid_up_def ledger_def owed_def keyed_price_def

lemma list_snoc [simp]:
  "retained (es @ [e]) = retained es + effect_len e + 32"
  "events (es @ [Transfer to v]) = events es"
  "events (es @ [Event sel data]) = Suc (events es)"
  "targets (es @ [e]) = (case effect_target e of None \<Rightarrow> targets es | Some t \<Rightarrow> finsert t (targets es))"
  by (auto simp: retained_def events_def targets_def split: option.split)

lemma effects_price_snoc:
  "effects_price (es @ [Transfer to v]) \<le> effects_price es + 2 * length to +
     (if DURABLE_TRANSFER # to |\<notin>| targets es \<and> targets es \<noteq> {||} then 227000 else 0)"
  "effects_price (es @ [Event sel data]) \<le> effects_price es + 100 * length data +
     (case mint_target sel data of None \<Rightarrow> 0
      | Some t \<Rightarrow> if t |\<notin>| targets es \<and> targets es \<noteq> {||} then 227000 else 0) +
     (if events es + 1 > 4 then 6250 else 0)"
  by (auto simp: effects_price_def fcard_finsert_if fcard_fempty split: option.splits)

lemma target_price_le:
  "target_price s t = (if t |\<notin>| durable_targets s \<and> durable_targets s \<noteq> {||} then 227000 else 0)"
  by (simp add: target_price_def)

lemma paid_plain: "paid_up base s \<Longrightarrow> plain_step s s' \<Longrightarrow> paid_up base s'"
  by (auto simp: plain_step_def ledger_defs)

lemma paid_sload: "paid_up base s \<Longrightarrow> exec_sload s d a = Inr (st, s') \<Longrightarrow> paid_up base s'"
  by (auto simp: exec_sload_Inr_iff ledger_defs)

lemma paid_send:
  assumes inv: "paid_up base s" and "exec_send s a b c = Inr (st, s')"
  shows "paid_up base s'"
  using assms(2)
proof (rule exec_send_InrD)
  fix p n amount to u e
  assume s': "s' = s\<lparr>meter_used := u, effects_bytes := e,
        durable_targets := finsert (DURABLE_TRANSFER # to) (durable_targets s),
        effects := effects s @ [Transfer to amount]\<rparr>"
    and u: "unat u = unat (meter_used s) + 2 * length to + target_price s (DURABLE_TRANSFER # to)"
    and e: "unat e = unat (effects_bytes s) + (length to + 32)" "e \<le> EFFECTS_BYTES_CAP"
  have "ledger s'"
    using inv e unfolding paid_up_def ledger_def by (simp add: s')
  moreover have "owed s' \<le> owed s + 2 * length to + target_price s (DURABLE_TRANSFER # to)"
    using inv effects_price_snoc(1) [of "effects s" to amount]
    by (simp add: s' owed_def keyed_price_def target_price_def paid_up_def ledger_def)
  ultimately show ?thesis
    using inv u by (simp add: paid_up_def s')
qed

lemma paid_emit:
  assumes inv: "paid_up base s" and "exec_emit s a b c = Inr (st, s')"
  shows "paid_up base s'"
  using assms(2)
proof (rule exec_emit_InrD)
  fix p n w data u e k
  let ?sel = "to_be 4 (ucast w :: u32)"
  let ?t = "mint_target ?sel data"
  assume s': "s' = s\<lparr>meter_used := u, effects_bytes := e, event_records := k,
        durable_targets := (case ?t of None \<Rightarrow> durable_targets s | Some t \<Rightarrow> finsert t (durable_targets s)),
        effects := effects s @ [Event ?sel data]\<rparr>"
    and u: "unat u = unat (meter_used s) + 100 * length data +
       (case ?t of None \<Rightarrow> 0 | Some t \<Rightarrow> target_price s t) + (if unat k > 4 then 6250 else 0)"
    and e: "unat e = unat (effects_bytes s) + (length data + 32)" "e \<le> EFFECTS_BYTES_CAP"
    and k: "unat k = unat (event_records s) + 1"
  have led: "durable_targets s = targets (effects s)" "unat (event_records s) = events (effects s)"
    using inv by (simp_all add: paid_up_def ledger_def)
  have "ledger s'"
    using inv e k led unfolding paid_up_def ledger_def s' by (cases ?t) (simp_all del: to_be.simps)
  moreover have "owed s' \<le> owed s + 100 * length data + (case ?t of None \<Rightarrow> 0 | Some t \<Rightarrow> target_price s t) +
      (if unat k > 4 then 6250 else 0)"
    using effects_price_snoc(2) [of "effects s" ?sel data] led k
    by (cases ?t) (simp_all add: s' owed_def keyed_price_def target_price_def del: to_be.simps)
  ultimately show ?thesis
    using inv u by (simp add: paid_up_def s' del: to_be.simps)
qed

lemma paid_sstore:
  assumes inv: "paid_up base s" and "exec_sstore s a b = Inr (st, s')"
  shows "paid_up base s'"
proof -
  obtain key v s1 where c: "store_charged key v s s1" and s': "s' = s1\<lparr>storage := fmupd key v (storage s1)\<rparr>"
    using assms(2) by (auto simp: exec_sstore_Inr_iff dest: charge_store_InrD)
  obtain u where s1: "s1 = s\<lparr>meter_used := u, loaded := (if strict s then fetched s key else loaded s),
        dirty := finsert key (dirty s),
        fresh_charged := (if pays_fresh s key v then finsert key (fresh_charged s) else fresh_charged s)\<rparr>"
    and u: "unat u = unat (meter_used s) + (if pays_fresh s key v \<or> pays_dirty s key then 227000 else 0)"
    using c by (auto simp: store_charged_def)
  have fc: "fresh_charged s |\<subseteq>| dirty s"
    using inv by (simp add: paid_up_def ledger_def)
  have "dirty_price (finsert key (dirty s)) \<le> dirty_price (dirty s) +
      (if pays_fresh s key v \<or> pays_dirty s key then 227000 else 0)"
    using fc by (auto simp: dirty_price_def fcard_finsert_if pays_dirty_def)
  then have "owed s' \<le> owed s + (if pays_fresh s key v \<or> pays_dirty s key then 227000 else 0)"
    by (simp add: s' s1 owed_def keyed_price_def)
  moreover have "ledger s'"
    using inv unfolding paid_up_def ledger_def by (auto simp: s' s1)
  ultimately show ?thesis
    using inv u by (simp add: paid_up_def s' s1)
qed

lemma paid_tainted:
  assumes inv: "paid_up base s" and t: "tainted w key s s'"
  shows "paid_up base s'"
proof -
  obtain u k where s': "s' = s\<lparr>meter_used := u, keyed_bytes := k,
        keyed_authorized_reads := finsert key (keyed_authorized_reads s),
        keyed_authorized_writes :=
          (if w then finsert key (keyed_authorized_writes s) else keyed_authorized_writes s)\<rparr>"
    and u: "unat (meter_used s) \<le> unat u"
      "key |\<notin>| keyed_authorized_reads s \<Longrightarrow> key |\<notin>| keyed_authorized_writes s \<Longrightarrow>
         unat u = unat (meter_used s) + unat (if strict s then KEYED_READ_METER else KEYED_SLOT_METER)"
    and k: "unat k = unat (keyed_bytes s) + 32 * (of_bool (w \<and> key |\<notin>| keyed_authorized_writes s) +
        of_bool (key |\<notin>| keyed_authorized_reads s))" "k \<le> EFFECTS_BYTES_CAP"
    using t unfolding tainted_def by blast
  have led: "ledger s" and sub: "keyed_authorized_writes s |\<subseteq>| keyed_authorized_reads s"
    using inv by (simp_all add: paid_up_def ledger_def)
  have new: "key |\<notin>| keyed_authorized_writes s" if "key |\<notin>| keyed_authorized_reads s"
    using sub that by blast
  have "unat (if strict s then KEYED_READ_METER else KEYED_SLOT_METER) = (if strict s then 948 else 227000)"
    by (simp add: meter_consts)
  then have "owed s' + unat (meter_used s) \<le> owed s + unat u"
    using u(1) u(2) [OF _ new] by (auto simp: s' owed_def keyed_price_def fcard_finsert_if algebra_simps)
  moreover have "ledger s'"
    using led k sub unfolding ledger_def s' by (auto simp: fcard_finsert_if)
  ultimately show ?thesis
    using inv by (simp add: paid_up_def s')
qed

lemma paid_hash:
  assumes inv: "paid_up base s" and "exec_hash P s a b c = Inr (st, s')"
  shows "paid_up base s'"
  using assms(2)
proof (rule exec_hash_InrD)
  fix p n out m u
  let ?s = "s\<lparr>meter_used := u, machine := m\<rparr>"
  assume "unat u = unat (meter_used s) + unat (hash_variable n)"
    and t: "taint_keyed_from_hash
       (if n \<ge> 8 then map_option from_be (mem_region (machine s) p 8) else None) out ?s = Inr s'"
  then have inv': "paid_up base ?s"
    using inv by (simp add: ledger_defs)
  show ?thesis
    using t
  proof (rule taint_keyed_InrD)
    assume "s' = ?s"
    then show ?thesis using inv' by simp
  next
    fix b man key
    assume "tainted (b |\<in>| m_keyed_writes man) key ?s s'"
    with inv' show ?thesis
      by (rule paid_tainted)
  qed
qed

interpretation paid: host_invariant P "paid_up base" for P base
  by unfold_locales (blast intro: paid_plain paid_sload paid_sstore paid_send paid_emit paid_hash)+

section \<open>Starts\<close>

text \<open>A state the host may hand to \<open>run\<close>: nothing emitted, stored or authorised yet.\<close>

definition fresh_start :: "interp \<Rightarrow> bool" where
  "fresh_start s \<longleftrightarrow>
     wf_interp s \<and> effects s = [] \<and> effects_bytes s = 0 \<and> event_records s = 0 \<and>
     durable_targets s = {||} \<and> keyed_bytes s = 0 \<and> keyed_authorized_reads s = {||} \<and>
     keyed_authorized_writes s = {||} \<and> dirty s = {||} \<and> fresh_charged s = {||} \<and> loaded s = fmempty"

lemma fresh_new_interp [simp]: "fresh_start (new_interp cd cs limit)"
  by (simp add: fresh_start_def new_interp_def wf_interp_def)

lemma fresh_builders [simp]:
  "fresh_start s \<Longrightarrow> fresh_start (with_storage st s)"
  "fresh_start s \<Longrightarrow> fresh_start (with_storage_loader f s)"
  "fresh_start s \<Longrightarrow> fresh_start (with_legacy_rules s)"
  by (simp_all add: fresh_start_def with_storage_def with_storage_loader_def with_legacy_rules_def wf_interp_def)

lemma fresh_with_memory [simp]: "fresh_start s \<Longrightarrow> fresh_start (with_memory data s)"
  by (simp add: fresh_start_def with_memory_def wf_interp_def wf_machine_def Let_def)

lemma fresh_paid_up: "fresh_start s \<Longrightarrow> paid_up (unat (meter_used s)) s"
  by (simp add: fresh_start_def ledger_defs retained_def events_def targets_def effects_price_def dirty_price_def fcard_fempty)

lemma dispatch_price:
  "length cd \<le> MAX_CODE_BYTES \<Longrightarrow>
     unat (saturating_add DISPATCH (saturating_mul (of_nat (length cd)) CODE_SCAN_PER_BYTE)) = 4 + 9 * length cd"
  by (simp add: unat_saturating_add unat_saturating_mul meter_consts unat_of_length container_limits min_def)

text \<open>The state an entry is opened in, and when it is.\<close>

definition entered :: "Container \<Rightarrow> Entry \<Rightarrow> u64 \<Rightarrow> interp" where
  "entered c e limit =
     (new_interp (c_code c) (c_consts c) limit)\<lparr>
        machine := new_machine\<lparr>mpc := e_offset e\<rparr>,
        meter_used := of_nat (4 + 9 * length (c_code c)),
        manifest := Some \<lparr>m_reads = fset_of_list (map scalar_key (reads (e_access e))),
          m_writes = fset_of_list (map scalar_key (writes (e_access e))),
          m_keyed_reads = fset_of_list (keyed_reads (e_access e)),
          m_keyed_writes = fset_of_list (keyed_writes (e_access e))\<rparr>\<rparr>"

definition in_limits :: "Container \<Rightarrow> bool" where
  "in_limits c \<longleftrightarrow> length (c_code c) \<le> MAX_CODE_BYTES \<and> length (c_consts c) \<le> MAX_CONSTS \<and>
     length (c_entries c) \<le> MAX_ENTRIES"

lemma open_entry_Inr_iff:
  "open_entry c sel limit = Inr s \<longleftrightarrow>
     (\<exists>e. in_limits c \<and> filter (\<lambda>e. e_selector e = sel) (c_entries c) = [e] \<and>
        declared_slots (e_access e) \<le> MAX_ACCESS_SLOTS \<and> 4 + 9 * length (c_code c) \<le> unat limit \<and>
        e_offset e |\<in>| boundaries (c_code c) \<and> s = entered c e limit)"
proof (cases "in_limits c")
  case False
  then show ?thesis
    by (auto simp: open_entry_def in_limits_def)
next
  case True
  let ?d = "saturating_add DISPATCH (saturating_mul (of_nat (length (c_code c))) CODE_SCAN_PER_BYTE)"
  have d: "unat ?d = 4 + 9 * length (c_code c)"
    using True by (simp add: in_limits_def dispatch_price)
  then have used: "?d = of_nat (4 + 9 * length (c_code c))"
    by (metis ucast_id of_nat_unat)
  have le: "?d > limit \<longleftrightarrow> \<not> 4 + 9 * length (c_code c) \<le> unat limit"
    by (simp add: word_less_nat_alt d not_le)
  show ?thesis
  proof (cases "\<exists>e. filter (\<lambda>e. e_selector e = sel) (c_entries c) = [e]")
    case False
    then show ?thesis
      using True by (auto simp: open_entry_def in_limits_def split: list.splits)
  next
    case one: True
    then obtain e where "filter (\<lambda>e. e_selector e = sel) (c_entries c) = [e]" by blast
    then show ?thesis
      using True unfolding open_entry_def Let_def used le [unfolded used]
      by (auto simp: in_limits_def entered_def new_interp_def)
  qed
qed

lemma entered_fresh [simp]: "fresh_start (entered c e limit)"
  by (simp add: fresh_start_def entered_def new_interp_def wf_interp_def)

lemma entry_starts_fresh:
  "open_entry c sel limit = Inr s \<Longrightarrow> fresh_start s"
  "for_entry P c sel limit = Inr s \<Longrightarrow> fresh_start s"
  "for_genesis P c limit = Inr s \<Longrightarrow> fresh_start s"
  by (auto simp: for_entry_def for_genesis_def open_entry_Inr_iff split: if_splits)
end
