(* ===== verification/Safety.thy ===== *)
theory Safety
  imports Ledger
begin

text \<open>
  Faults and panics: the faults each instruction can end with, the absence of panics, and what
  the verifier of \<open>container.rs\<close> rules out at run time.
\<close>

section \<open>The ways an instruction ends early\<close>

text \<open>
  \<open>within E r\<close>: the operation does not panic, and a fault of it is one of \<open>E\<close>.  The rules
  follow the operations, so that a proof walks the model's definition.
\<close>

named_theorems within_intros

definition within :: "fault set \<Rightarrow> exn + 'a \<Rightarrow> bool" where
  "within E r \<longleftrightarrow> (\<forall>x. r = Inl x \<longrightarrow> (\<exists>e \<in> E. x = Fault e))"

lemma within_simps [simp]:
  "within E (Inr v)"
  "within E (Inl (Fault e)) \<longleftrightarrow> e \<in> E"
  by (simp_all add: within_def)

lemma within_ok_or [within_intros]: "e \<in> E \<Longrightarrow> within E (ok_or opt e)"
  by (simp add: within_def ok_or_Inl_iff)

lemma within_bindE [within_intros]:
  "within E r \<Longrightarrow> (\<And>x. r = Inr x \<Longrightarrow> within E (f x)) \<Longrightarrow> within E (bindE r f)"
  by (cases r) (auto simp: within_def)

lemma within_if [within_intros]: "(c \<Longrightarrow> within E r) \<Longrightarrow> (\<not> c \<Longrightarrow> within E t) \<Longrightarrow> within E (if c then r else t)"
  by simp

lemma within_reg [within_intros]: "wf_machine m \<Longrightarrow> unat r < NUM_REGS \<Longrightarrow> within E (reg m r)"
  by (simp add: reg_Inr)

lemma within_set_reg [within_intros]: "wf_machine m \<Longrightarrow> unat r < NUM_REGS \<Longrightarrow> within E (set_reg m r v)"
  by (simp add: set_reg_Inr)

lemma within_on_machine [within_intros]: "within E r \<Longrightarrow> within E (on_machine s r)"
  by (auto simp: on_machine_def intro!: within_intros)

lemma within_unary [within_intros]:
  "wf_machine m \<Longrightarrow> unat d < NUM_REGS \<Longrightarrow> unat a < NUM_REGS \<Longrightarrow> within E (unary m d a f)"
  by (auto simp: unary_def intro!: within_intros)

lemma within_binary [within_intros]:
  "wf_machine m \<Longrightarrow> unat d < NUM_REGS \<Longrightarrow> unat a < NUM_REGS \<Longrightarrow> unat b < NUM_REGS \<Longrightarrow>
     (\<And>x y. within E (f x y)) \<Longrightarrow> within E (binary m d a b f)"
  by (auto simp: binary_def intro!: within_intros)

lemma within_wide_op [within_intros]:
  "wf_machine m \<Longrightarrow> unat d1 < NUM_REGS \<Longrightarrow> unat d2 < NUM_REGS \<Longrightarrow> unat a1 < NUM_REGS \<Longrightarrow>
     unat a2 < NUM_REGS \<Longrightarrow> unat b1 < NUM_REGS \<Longrightarrow> unat b2 < NUM_REGS \<Longrightarrow> DivByZero \<in> E \<Longrightarrow>
     within E (wide_op m f d1 d2 a1 a2 b1 b2)"
  by (auto simp: wide_op_def intro!: within_intros dest: wf_set_reg)

lemma within_charge [within_intros]: "OutOfMeter \<in> E \<Longrightarrow> within E (charge a s)"
  unfolding within_def using charge_Inl by blast

lemma within_charge_effect [within_intros]:
  "OutOfMeter \<in> E \<Longrightarrow> EffectsTooLarge \<in> E \<Longrightarrow> within E (charge_effect n s)"
  unfolding within_def using charge_effect_Inl by blast

lemma within_retain_keyed [within_intros]: "EffectsTooLarge \<in> E \<Longrightarrow> within E (retain_keyed n s)"
  unfolding within_def using retain_keyed_Inl by blast

lemma within_success [within_intros]:
  "e \<in> E \<Longrightarrow> within E (case r of (True, m') \<Rightarrow> Inr m' | (False, _) \<Rightarrow> Inl (Fault e))"
  by (cases r) (auto split: bool.split)

lemma within_charge_durable_target [within_intros]:
  "OutOfMeter \<in> E \<Longrightarrow> within E (charge_durable_target k t s)"
  by (auto simp: charge_durable_target_def Let_def intro!: within_intros)

lemma within_taint [within_intros]:
  "OutOfMeter \<in> E \<Longrightarrow> EffectsTooLarge \<in> E \<Longrightarrow> within E (taint_keyed_from_hash base out s)"
  by (auto simp: taint_keyed_from_hash_def record_keyed_def charge_keyed_def Let_def intro!: within_intros
      split: option.split)

lemma within_read_key [within_intros]: "BadMemory \<in> E \<Longrightarrow> within E (read_key m p)"
  by (auto simp: read_key_def intro: within_intros)

lemma within_charge_store [within_intros]: "OutOfMeter \<in> E \<Longrightarrow> within E (charge_store key v s)"
  by (auto simp: charge_store_def fetch_slot_eq Let_def intro!: within_intros)

lemma within_jump_to [within_intros]: "BadJump \<in> E \<Longrightarrow> within E (jump_to s t)"
  by (simp add: jump_to_def)

lemma within_push_or_fault [within_intros]: "StackOverflow \<in> E \<Longrightarrow> within E (push_or_fault m v)"
  unfolding push_or_fault_def by (rule within_success)

lemma within_exec_machine [within_intros]:
  assumes "wf_machine m" "unat a < NUM_REGS"
  shows "unat idx < length cs \<or> BadConst \<in> E \<Longrightarrow> within E (exec_ldc cs m a idx)"
    and "StackOverflow \<in> E \<Longrightarrow> within E (exec_push m a)"
    and "StackUnderflow \<in> E \<Longrightarrow> within E (exec_pop m a)"
    and "BadMemory \<in> E \<Longrightarrow> unat b < NUM_REGS \<Longrightarrow> within E (exec_mload m a b)"
    and "BadMemory \<in> E \<Longrightarrow> unat b < NUM_REGS \<Longrightarrow> within E (exec_mstore m a b)"
  using assms
  by (auto simp: exec_ldc_def exec_push_def exec_pop_def exec_mload_def exec_mstore_def
      intro!: within_intros dest: wf_pop)

lemma within_exec_control [within_intros]:
  "wf_machine (machine s) \<Longrightarrow> unat a < NUM_REGS \<Longrightarrow> BadJump \<in> E \<Longrightarrow> within E (exec_jump_if s a cond t)"
  "StackOverflow \<in> E \<Longrightarrow> BadJump \<in> E \<Longrightarrow> within E (exec_call s t)"
  "StackUnderflow \<in> E \<Longrightarrow> BadJump \<in> E \<Longrightarrow> within E (exec_ret s)"
  by (auto simp: exec_jump_if_def exec_call_def exec_ret_def intro!: within_intros)

lemma within_count_event [within_intros]:
  "unat (event_records s) + 1 < 2 ^ 64 \<Longrightarrow> OutOfMeter \<in> E \<Longrightarrow> within E (count_event s)"
  by (auto simp: count_event_def checked_add_def Let_def intro!: within_intros)

lemma within_exec_storage [within_intros]:
  assumes "wf_machine (machine s)" "unat a < NUM_REGS" "unat b < NUM_REGS" "BadMemory \<in> E" "UndeclaredSlot \<in> E"
  shows "within E (exec_sload s a b)"
    and "OutOfMeter \<in> E \<Longrightarrow> within E (exec_sstore s a b)"
  using assms
  by (auto simp: exec_sload_def exec_sstore_def fetch_slot_eq intro!: within_intros)

lemma within_exec_send [within_intros]:
  assumes "wf_machine (machine s)" "unat a < NUM_REGS" "unat b < NUM_REGS" "unat c < NUM_REGS"
    and "BadMemory \<in> E" "OutOfMeter \<in> E" "EffectsTooLarge \<in> E"
  shows "within E (exec_send s a b c)"
  using assms by (auto simp: exec_send_def intro!: within_intros simp del: charge_effect_Inr_iff)

lemma charge_event_records: "charge a s = Inr s' \<Longrightarrow> event_records s' = event_records s"
  by auto

lemma charge_effect_event_records: "charge_effect n s = Inr s' \<Longrightarrow> event_records s' = event_records s"
  by (auto simp: charge_effect_def Let_def split: if_splits)

lemma charge_durable_event_records: "charge_durable_target k t s = Inr s' \<Longrightarrow> event_records s' = event_records s"
  by (auto simp: charge_durable_target_def Let_def split: if_splits)

lemmas event_records_frame = charge_event_records charge_effect_event_records charge_durable_event_records

lemma within_exec_emit [within_intros]:
  assumes "wf_machine (machine s)" "unat a < NUM_REGS" "unat b < NUM_REGS" "unat c < NUM_REGS"
    and "unat (event_records s) + 1 < 2 ^ 64"
    and "BadMemory \<in> E" "OutOfMeter \<in> E" "EffectsTooLarge \<in> E" "Malformed \<in> E"
  shows "within E (exec_emit s a b c)"
  using assms
  by (auto simp: exec_emit_def Let_def intro!: within_intros dest!: event_records_frame
      simp del: charge_Inr_iff charge_effect_Inr_iff to_be.simps split: if_splits)

text \<open>Behind the firewall a panic is a fault; what the cryptographic opcodes fault with themselves.\<close>

lemma within_run_crypto [within_intros]:
  assumes "CryptoFault \<in> E" and "\<And>e. f (machine s) = Inl (Fault e) \<Longrightarrow> e \<in> E"
  shows "within E (run_crypto f s)"
  using assms by (auto simp: run_crypto_def split: sum.split exn.split)

lemma sha3_not_Fault [simp]: "sha3_256 P bs \<noteq> Inl (Fault e)" "call opt \<noteq> Inl (Fault e)"
  by (auto simp: sha3_256_def call_def bindE_Inl_iff split: option.splits)

lemma reg_not_Fault [simp]: "reg m r \<noteq> Inl (Fault e)" "set_reg m r v \<noteq> Inl (Fault e)"
  by (simp_all add: reg_def set_reg_def)

lemma merkle_fold_not_Fault [simp]: "merkle_fold P i l n ss \<noteq> Inl (Fault e)"
  by (induction ss arbitrary: l n) (auto simp: bindE_Inl_iff merkle_node_def Let_def split: if_splits)

lemma merkle_check_not_Fault [simp]: "merkle_check P root i leaf path str \<noteq> Inl (Fault e)"
  by (auto simp: merkle_check_def bindE_Inl_iff merkle_leaf_def Let_def)

lemma write_or_fault_Fault: "write_or_fault m out bs = Inl (Fault e) \<Longrightarrow> e = BadMemory"
  by (auto simp: write_or_fault_def split: prod.splits bool.splits)

lemma crypto_faults:
  "hash P m a b c = Inl (Fault e) \<Longrightarrow> e = BadMemory"
  "verify_ml P m a b c = Inl (Fault e) \<Longrightarrow> e = BadMemory"
  "verify_slh P m a b c = Inl (Fault e) \<Longrightarrow> e = BadMemory"
  "merkle_verify P m a b c str = Inl (Fault e) \<Longrightarrow> e = BadMemory"
  "address P m a b c = Inl (Fault e) \<Longrightarrow> e = BadMemory \<or> e = BadScheme"
  by (auto simp: hash_def verify_ml_def verify_slh_def merkle_verify_def address_def Let_def bindE_Inl_iff
      ok_or_Inl_iff dest: write_or_fault_Fault split: if_splits)

lemma within_exec_hash [within_intros]:
  assumes "wf_machine (machine s)" "unat a < NUM_REGS" "unat b < NUM_REGS" "unat c < NUM_REGS"
    and "BadMemory \<in> E" "OutOfMeter \<in> E" "EffectsTooLarge \<in> E" "CryptoFault \<in> E"
  shows "within E (exec_hash P s a b c)"
  using assms by (auto simp: exec_hash_def Let_def intro!: within_intros dest!: crypto_faults(1) simp del: charge_Inr_iff)

lemma within_exec_verify [within_intros]:
  assumes "wf_machine (machine s)" "unat b < NUM_REGS" "OutOfMeter \<in> E" "CryptoFault \<in> E"
    and "\<And>m e. f m = Inl (Fault e) \<Longrightarrow> e \<in> E"
  shows "within E (exec_verify f h price s b)"
  using assms by (auto simp: exec_verify_def intro!: within_intros simp del: charge_Inr_iff)

section \<open>The faults of an instruction\<close>

definition faults_of :: "Instr \<Rightarrow> fault set" where
  "faults_of i =
     (case i of
        Ldc _ _ \<Rightarrow> {BadConst}
      | Add _ _ _ \<Rightarrow> {Overflow} | Sub _ _ _ \<Rightarrow> {Overflow} | Mul _ _ _ \<Rightarrow> {Overflow}
      | Div _ _ _ \<Rightarrow> {DivByZero} | Rem _ _ _ \<Rightarrow> {DivByZero}
      | DivW _ _ _ _ _ _ \<Rightarrow> {DivByZero} | RemW _ _ _ _ _ _ \<Rightarrow> {DivByZero}
      | Push _ \<Rightarrow> {StackOverflow} | Pop _ \<Rightarrow> {StackUnderflow}
      | MLoad _ _ \<Rightarrow> {BadMemory} | MStore _ _ \<Rightarrow> {BadMemory}
      | Jmp _ \<Rightarrow> {BadJump} | Jz _ _ \<Rightarrow> {BadJump} | Jnz _ _ \<Rightarrow> {BadJump}
      | Call _ \<Rightarrow> {StackOverflow, BadJump} | Ret \<Rightarrow> {StackUnderflow, BadJump}
      | SLoad _ _ \<Rightarrow> {BadMemory, UndeclaredSlot}
      | SStore _ _ \<Rightarrow> {BadMemory, UndeclaredSlot, OutOfMeter}
      | Send _ _ _ \<Rightarrow> {BadMemory, OutOfMeter, EffectsTooLarge}
      | Emit _ _ _ \<Rightarrow> {BadMemory, OutOfMeter, EffectsTooLarge, Malformed}
      | Hash _ _ _ \<Rightarrow> {BadMemory, OutOfMeter, EffectsTooLarge, CryptoFault}
      | VerifyMl _ _ _ \<Rightarrow> {BadMemory, OutOfMeter, CryptoFault}
      | VerifySlh _ _ _ \<Rightarrow> {BadMemory, OutOfMeter, CryptoFault}
      | MerkleVerify _ _ _ \<Rightarrow> {BadMemory, OutOfMeter, CryptoFault}
      | Addr _ _ _ \<Rightarrow> {BadMemory, BadScheme, CryptoFault}
      | _ \<Rightarrow> {})"

lemma step_within:
  assumes "wf_machine (machine s)" "wf_instr i" "unat (event_records s) + 1 < 2 ^ 64"
  shows "within (faults_of i) (step P s i)"
  using assms
  by (cases i) (auto simp: step_def Let_def wf_instr_def faults_of_def intro!: within_intros dest!: crypto_faults)

text \<open>The counter of events cannot reach its end: each event holds 32 of the retained bytes.\<close>

lemma events_retained: "32 * events es \<le> retained es"
  by (induction es) (auto simp: events_def retained_def split: Effect.split)

lemma ledger_event_room: "ledger s \<Longrightarrow> unat (event_records s) + 1 < 2 ^ 64"
  using events_retained [of "effects s"] effects_cap
  by (simp add: ledger_def word_le_nat_alt)

lemma fetch_Inl:
  assumes "fetch s = Inl x"
  obtains e where "decode (code s) (unat (mpc (machine s))) = Inl e" "x = Fault (DecodeFault e)"
  | i n where "decode (code s) (unat (mpc (machine s))) = Inr (i, n)" "x = Fault OutOfMeter"
  | i n where "decode (code s) (unat (mpc (machine s))) = Inr (i, n)" "2 ^ 32 \<le> unat (mpc (machine s)) + n"
      "x = Fault BadJump"
  using assms
  by (auto simp: fetch_def Let_def usize_add_def bindE_Inl_iff ok_or_Inl_iff dest!: charge_Inl
      split: sum.splits if_splits)

text \<open>A turn that ends early: in the head of the loop, or in the instruction it fetched.\<close>

lemma turn_Inl:
  assumes "turn P s = Inl x" and "wf_interp s" and "ledger s"
  obtains "fetch s = Inl x"
  | i s0 e where "fetch s = Inr (i, s0)" "step P s0 i = Inl (Fault e)" "x = Fault e" "e \<in> faults_of i"
proof (cases "fetch s")
  case (Inl y)
  then show ?thesis
    using assms(1) that(1) by (simp add: turn_def)
next
  case (Inr r)
  then obtain i s0 where f: "fetch s = Inr (i, s0)" by (cases r) auto
  then have st: "step P s0 i = Inl x"
    using assms(1) by (auto simp: turn_def bindE_Inl_iff)
  have "wf_machine (machine s0)"
    using shape.fetch_keeps [OF assms(2) f] by (simp add: wf_interp_def)
  moreover have "event_records s0 = event_records s"
    using f by (auto simp: fetch_Inr_iff)
  ultimately have "within (faults_of i) (step P s0 i)"
    using fetch_wf_instr [OF f] ledger_event_room [OF assms(3)] by (intro step_within) simp_all
  then show ?thesis
    using that(2) [OF f] st by (auto simp: within_def)
qed

lemma run_fault_at:
  assumes "fresh_start s" and "run P s = Inl x"
  obtains n t where "turns P s n t" "turn P t = Inl x" "wf_interp t" "ledger t"
proof -
  have start: "wf_interp s \<and> paid_up (unat (meter_used s)) s"
    using assms(1) fresh_paid_up by (simp add: fresh_start_def)
  obtain n t where t: "turns P s n t" "turn P t = Inl x"
    using run_turns [of P s] assms(2) by auto
  then have "wf_interp t \<and> paid_up (unat (meter_used s)) t"
    using paid.turns_keep start by blast
  then show ?thesis
    using that t by (auto simp: paid_up_def)
qed

lemma run_not_Panic:
  assumes "fresh_start s"
  shows "run P s \<noteq> Inl Panic"
proof
  assume "run P s = Inl Panic"
  with assms obtain t where "turn P t = Inl Panic" "wf_interp t" "ledger t"
    by (rule run_fault_at)
  then show False
    by (rule turn_Inl) (auto elim: fetch_Inl)
qed

section \<open>Control flow\<close>

text \<open>An instruction never moves the program counter itself: the loop does.\<close>

lemma mpc_frame:
  "push m v = (b, m') \<Longrightarrow> mpc m' = mpc m"
  "pop m = Some (v, m') \<Longrightarrow> mpc m' = mpc m"
  "mem_store m p v = (b, m') \<Longrightarrow> mpc m' = mpc m"
  "set_reg m r v = Inr m' \<Longrightarrow> mpc m' = mpc m"
  "mem_write m p bs = (b, m') \<Longrightarrow> mpc m' = mpc m"
  by (auto simp: push_def pop_def mem_store_def set_reg_def mem_write_def Let_def split: if_splits option.splits)

lemma mpc_exec:
  "unary m d a f = Inr m' \<Longrightarrow> mpc m' = mpc m"
  "binary m d a b g = Inr m' \<Longrightarrow> mpc m' = mpc m"
  "wide_op m h d a b d2 a2 b2 = Inr m' \<Longrightarrow> mpc m' = mpc m"
  "exec_ldc cs m d idx = Inr m' \<Longrightarrow> mpc m' = mpc m"
  "exec_push m a = Inr m' \<Longrightarrow> mpc m' = mpc m"
  "exec_pop m a = Inr m' \<Longrightarrow> mpc m' = mpc m"
  "exec_mload m a b = Inr m' \<Longrightarrow> mpc m' = mpc m"
  "exec_mstore m a b = Inr m' \<Longrightarrow> mpc m' = mpc m"
  by (auto simp: unary_def binary_def wide_op_def exec_ldc_def exec_push_def exec_pop_def exec_mload_def
      exec_mstore_Inr_iff dest!: mpc_frame split: if_splits)

lemma mpc_store: "charge_store key v s = Inr s' \<Longrightarrow> machine s' = machine s"
  by (drule charge_store_InrD) (auto simp: store_charged_def)

lemma mpc_taint: "taint_keyed_from_hash base out s = Inr s' \<Longrightarrow> machine s' = machine s"
  by (erule taint_keyed_InrD) (auto simp: tainted_def)

lemma step_mpc:
  assumes "step P s i = Inr (st, s')"
  shows "mpc (machine s') = mpc (machine s)"
proof (cases "reaches_host i")
  case False
  then show ?thesis
    using assms
    by (cases i) (auto simp: step_def Let_def reaches_host_def exec_jump_if_def exec_call_def exec_ret_def
        exec_verify_def dest!: mpc_exec mpc_frame dest: crypto_frame split: if_splits)
next
  case True
  then show ?thesis
    using assms
    by (cases i) (auto simp: step_host reaches_host_def exec_sload_Inr_iff exec_sstore_Inr_iff
        dest!: mpc_frame mpc_store elim!: exec_send_InrD exec_emit_InrD exec_hash_InrD dest!: mpc_taint)
qed

text \<open>The program counter is reached from the start of the code, instruction by instruction.\<close>

definition on_track :: "interp \<Rightarrow> bool" where
  "on_track s \<longleftrightarrow> wf_interp s \<and> seq_pc (code s) (unat (mpc (machine s)))"

interpretation track: run_invariant P on_track for P
proof
  fix s s' :: interp and i st and t :: u32
  assume inv: "on_track s"
  { assume f: "fetch s = Inr (i, s')"
    then obtain n where d: "decode (code s) (unat (mpc (machine s))) = Inr (i, n)"
      and small: "unat (mpc (machine s)) + n < 2 ^ 32"
      and s': "code s' = code s" "mpc (machine s') = mpc (machine s) + of_nat n"
      by (auto simp: fetch_Inr_iff)
    have "unat (mpc (machine s')) = unat (mpc (machine s)) + n"
      using small by (simp add: s'(2) unat_word_ariths unsigned_of_nat take_bit_nat_eq_self)
    then show "on_track s'"
      using inv seq_from_snoc [OF _ d] shape.fetch_keeps f by (auto simp: on_track_def s') }
  { assume "step P s i = Inr (st, s')"
    then show "on_track s'"
      using inv step_mpc [of P s i st s'] grows_step [of P s i st s'] wf_interp_grows [of s s']
      by (auto simp: on_track_def grows_def same_program_def) }
  { assume "t |\<in>| bounds s"
    then show "on_track (s\<lparr>machine := machine s\<lparr>mpc := t\<rparr>\<rparr>)"
      using inv boundaries_start [of t "code s"] by (auto simp: on_track_def wf_interp_def instr_start_def) }
qed

section \<open>Verified programs\<close>

text \<open>
  The interpreter runs code the verifier accepted: from every offset it reaches it decodes
  or stands at the end, constants are in the pool and static jumps land on instructions.
\<close>

definition verified :: "interp \<Rightarrow> bool" where
  "verified s \<longleftrightarrow> on_track s \<and> code_ok (code s) (length (consts_pool s)) \<and> length (code s) \<le> MAX_CODE_BYTES"

lemma verified_grows: "verified s \<Longrightarrow> grows s s' \<Longrightarrow> on_track s' \<Longrightarrow> verified s'"
  by (simp add: verified_def grows_def same_program_def)

lemma verified_turns: "turns P s n t \<Longrightarrow> verified s \<Longrightarrow> verified t"
  using turns_budget track.turns_keep verified_grows by (metis verified_def)

lemma verified_fetch:
  assumes v: "verified s" and d: "decode (code s) (unat (mpc (machine s))) = Inr (i, n)"
  shows "const_ok (length (consts_pool s)) i \<and> (\<forall>t. jump_target i = Some t \<longrightarrow> t |\<in>| bounds s) \<and>
     unat (mpc (machine s)) + n \<le> MAX_CODE_BYTES"
proof -
  have "instr_start (code s) (unat (mpc (machine s)))"
    using v decodeD(3,5) [OF d] by (simp add: verified_def on_track_def instr_start_def)
  then have ok: "const_ok (length (consts_pool s)) i \<and> (\<forall>t. jump_target i = Some t \<longrightarrow> instr_start (code s) (unat t))"
    using v d by (fastforce simp: verified_def code_ok_def)
  moreover have "t |\<in>| bounds s" if "instr_start (code s) (unat t)" for t
    using v that boundaries_verified by (auto simp: verified_def on_track_def wf_interp_def)
  ultimately show ?thesis
    using v decodeD(5) [OF d] by (auto simp: verified_def)
qed

lemma verified_end:
  assumes v: "verified s" and d: "decode (code s) (unat (mpc (machine s))) = Inl e"
  shows "unat (mpc (machine s)) = length (code s) \<and> e = Truncated"
proof -
  have seq: "seq_pc (code s) (unat (mpc (machine s)))"
    using v by (simp add: verified_def on_track_def)
  then have "\<not> unat (mpc (machine s)) < length (code s)"
    using v d by (fastforce simp: verified_def code_ok_def instr_start_def)
  moreover have "unat (mpc (machine s)) \<le> length (code s)"
    using seq_from_le_length [OF seq] by simp
  ultimately show ?thesis
    using d decode_end [of "code s" "unat (mpc (machine s))"] by simp
qed

lemma step_static:
  assumes "wf_machine (machine s)" "wf_instr i" "step P s i = Inl (Fault e)" "e \<in> faults_of i"
    and "const_ok (length (consts_pool s)) i" and "\<forall>t. jump_target i = Some t \<longrightarrow> t |\<in>| bounds s"
  shows "e \<noteq> BadConst \<and> (e = BadJump \<longrightarrow> i = Ret)"
  using assms
  by (cases i) (auto simp: faults_of_def step_def Let_def const_ok_def jump_target_def wf_instr_def on_machine_def
      exec_ldc_def bindE_Inl_iff exec_jump_if_def exec_call_def jump_to_def target_ok_def push_or_fault_def
      split: if_splits prod.splits bool.splits)

lemma verified_turn_fault:
  assumes v: "verified s" and l: "ledger s" and t: "turn P s = Inl (Fault e)"
  shows "e = OutOfMeter \<or>
     (e = DecodeFault Truncated \<and> unat (mpc (machine s)) = length (code s)) \<or>
     (\<exists>i n. decode (code s) (unat (mpc (machine s))) = Inr (i, n) \<and> e \<in> faults_of i \<and> e \<noteq> BadConst \<and>
        (e = BadJump \<longrightarrow> i = Ret))"
proof -
  have wf: "wf_interp s"
    using v by (simp add: verified_def on_track_def)
  show ?thesis
    using t wf l
  proof (rule turn_Inl)
    assume "fetch s = Inl (Fault e)"
    then show ?thesis
      by (rule fetch_Inl) (use verified_end [OF v] verified_fetch [OF v] in \<open>auto simp: container_limits\<close>)
  next
    fix i s0 e'
    assume f: "fetch s = Inr (i, s0)" and st: "step P s0 i = Inl (Fault e')" and e: "Fault e = Fault e'" "e' \<in> faults_of i"
    obtain n where d: "decode (code s) (unat (mpc (machine s))) = Inr (i, n)"
      using f by (auto simp: fetch_Inr_iff)
    have "consts_pool s0 = consts_pool s" "bounds s0 = bounds s"
      using grows_fetch [OF f] by (simp_all add: grows_defs)
    moreover have "wf_machine (machine s0)"
      using shape.fetch_keeps [OF wf f] by (simp add: wf_interp_def)
    ultimately have "e' \<noteq> BadConst \<and> (e' = BadJump \<longrightarrow> i = Ret)"
      using verified_fetch [OF v d] fetch_wf_instr [OF f] st e(2) step_static [of s0 i P e'] by auto
    then show ?thesis
      using d e by auto
  qed
qed

text \<open>An entry of a verified container is such a state, and so it stays under the host's builders.\<close>

lemma verified_builders [simp]:
  "verified s \<Longrightarrow> verified (with_storage st s)"
  "verified s \<Longrightarrow> verified (with_storage_loader f s)"
  "verified s \<Longrightarrow> verified (with_memory data s)"
  by (simp_all add: verified_def on_track_def wf_interp_def with_storage_def with_storage_loader_def
      with_memory_def wf_machine_def Let_def)

lemma entered_verified:
  assumes "well_formed c" and "open_entry c sel limit = Inr s"
  shows "verified s \<and> code s = c_code c \<and> consts_pool s = c_consts c \<and> meter_limit s = limit"
proof -
  obtain e where e: "in_limits c" "e_offset e |\<in>| boundaries (c_code c)" "s = entered c e limit"
    using assms(2) by (auto simp: open_entry_Inr_iff)
  then have "seq_pc (c_code c) (unat (e_offset e))"
    by (simp add: boundaries_iff)
  then show ?thesis
    using assms(1) e(3) entered_fresh [of c e limit]
    by (auto simp: verified_def on_track_def fresh_start_def well_formed_def entered_def new_interp_def)
qed
end
