(* ===== verification/StorageView.thy ===== *)
theory StorageView
  imports Safety
begin

text \<open>
  Storage: the written slots, the cache and the loader refine one map, and only declared slots or
  slots derived by a hash from a declared base are written.
\<close>

section \<open>The storage a program sees\<close>

text \<open>
  The specification: one map from keys to words, read and written.  The interpreter keeps
  written slots, a cache of fetched slots and the host's loader instead.
\<close>

definition host_value :: "interp \<Rightarrow> StorageKey \<Rightarrow> u64" where
  "host_value s key = (case loader s of Some f \<Rightarrow> f key | None \<Rightarrow> 0)"

definition view :: "interp \<Rightarrow> StorageKey \<Rightarrow> u64" where
  "view s key = (case fmlookup (storage s) key of Some v \<Rightarrow> v | None \<Rightarrow> host_value s key)"

text \<open>The cache only holds what the loader returns.\<close>

definition cache_ok :: "interp \<Rightarrow> bool" where
  "cache_ok s \<longleftrightarrow> (\<forall>key v. fmlookup (loaded s) key = Some v \<longrightarrow> v = host_value s key)"

lemma slot_value_view: "cache_ok s \<Longrightarrow> slot_value s key = view s key"
  by (auto simp: slot_value_def view_def cache_ok_def host_value_def split: option.splits)

lemma cache_ok_fetched: "cache_ok s \<Longrightarrow> cache_ok (s\<lparr>loaded := fetched s key\<rparr>)"
  by (auto simp: cache_ok_def fetched_def host_value_def split: option.splits)

definition store_operands :: "machine \<Rightarrow> Instr \<Rightarrow> (StorageKey \<times> u64) option" where
  "store_operands m i =
     (case i of
        SStore a b \<Rightarrow>
          (case (reg m a, reg m b) of
             (Inr p, Inr v) \<Rightarrow> map_option (\<lambda>key. (key, v)) (mem_region m p 32)
           | _ \<Rightarrow> None)
      | _ \<Rightarrow> None)"

definition view_step :: "(StorageKey \<Rightarrow> u64) \<Rightarrow> (StorageKey \<times> u64) option \<Rightarrow> StorageKey \<Rightarrow> u64" where
  "view_step v w = (case w of None \<Rightarrow> v | Some (key, x) \<Rightarrow> v(key := x))"

text \<open>States that agree on the storage fields, and steps that only move those between them.\<close>

definition same_storage :: "interp \<Rightarrow> interp \<Rightarrow> bool" where
  "same_storage s s' \<longleftrightarrow>
     storage s' = storage s \<and> dirty s' = dirty s \<and> loader s' = loader s \<and> manifest s' = manifest s \<and>
     loaded s' = loaded s"

lemma same_storage_view: "same_storage s s' \<Longrightarrow> view s' = view s \<and> (cache_ok s \<longrightarrow> cache_ok s')"
  by (simp add: same_storage_def view_def host_value_def cache_ok_def fun_eq_iff split: option.split)

lemma same_storage_steps:
  "plain_step s s' \<Longrightarrow> same_storage s s'"
  "exec_send s a b c = Inr (st, s') \<Longrightarrow> same_storage s s'"
  "exec_emit s a b c = Inr (st, s') \<Longrightarrow> same_storage s s'"
  "taint_keyed_from_hash base out s = Inr s' \<Longrightarrow> same_storage s s'"
  by (auto simp: plain_step_def same_storage_def tainted_def elim!: exec_send_InrD exec_emit_InrD taint_keyed_InrD)

lemma same_storage_hash: "exec_hash P s a b c = Inr (st, s') \<Longrightarrow> same_storage s s'"
  by (erule exec_hash_InrD) (auto dest!: same_storage_steps(4) simp: same_storage_def)

lemma sload_view:
  assumes "exec_sload s d a = Inr (st, s')" and "cache_ok s"
  shows "view s' = view s \<and> cache_ok s' \<and> storage s' = storage s \<and> dirty s' = dirty s \<and>
    (\<exists>p key. reg (machine s) a = Inr p \<and> mem_region (machine s) p 32 = Some key \<and> may_read s key \<and>
       set_reg (machine s) d (view s key) = Inr (machine s'))"
proof -
  obtain p key m where k: "reg (machine s) a = Inr p" "mem_region (machine s) p 32 = Some key" "may_read s key"
    and m: "set_reg (machine s) d (slot_value s key) = Inr m"
    and s': "s' = s\<lparr>loaded := fetched s key, machine := m\<rparr>"
    using assms(1) by (auto simp: exec_sload_Inr_iff)
  have "cache_ok (s\<lparr>loaded := fetched s key\<rparr>)"
    using assms(2) by (rule cache_ok_fetched)
  then show ?thesis
    using k m slot_value_view [OF assms(2), of key]
    by (auto simp: s' view_def cache_ok_def host_value_def fun_eq_iff split: option.split)
qed

lemma sstore_view:
  assumes "exec_sstore s a b = Inr (st, s')" and "cache_ok s"
  obtains p key v where "reg (machine s) a = Inr p" "mem_region (machine s) p 32 = Some key"
    "reg (machine s) b = Inr v" "may_write s key"
    "view s' = (view s)(key := v)" "cache_ok s'" "dirty s' = finsert key (dirty s)"
    "storage s' = fmupd key v (storage s)" "machine s' = machine s"
proof -
  obtain p key v s1 where k: "reg (machine s) a = Inr p" "mem_region (machine s) p 32 = Some key"
      "reg (machine s) b = Inr v" "may_write s key"
    and s1: "store_charged key v s s1" and s': "s' = s1\<lparr>storage := fmupd key v (storage s1)\<rparr>"
    using assms(1) by (auto simp: exec_sstore_Inr_iff dest: charge_store_InrD)
  have "cache_ok (s\<lparr>loaded := fetched s key\<rparr>)"
    using assms(2) by (rule cache_ok_fetched)
  then have "cache_ok s'"
    using s1 assms(2) by (cases "strict s") (auto simp: s' store_charged_def cache_ok_def host_value_def)
  moreover have f: "loader s' = loader s" "dirty s' = finsert key (dirty s)"
      "storage s' = fmupd key v (storage s)" "machine s' = machine s"
    using s1 by (auto simp: s' store_charged_def)
  moreover have "view s' = (view s)(key := v)"
    by (simp add: fun_eq_iff view_def host_value_def f split: option.split)
  ultimately show ?thesis
    using that k by blast
qed

text \<open>The refinement: an instruction acts on what the program sees as its specification does.\<close>

lemma step_refines_view:
  assumes "step P s i = Inr (st, s')" and "cache_ok s"
  shows "view s' = view_step (view s) (store_operands (machine s) i) \<and> cache_ok s'"
  using assms(1)
proof (cases rule: step_cases)
  case plain
  then have "store_operands (machine s) i = None"
    by (cases i) (simp_all add: store_operands_def reaches_host_def)
  then show ?thesis
    using same_storage_view [OF same_storage_steps(1) [OF plain(2)]] assms(2) by (simp add: view_step_def)
next
  case (sload d a)
  then show ?thesis
    using sload_view [OF sload(2) assms(2)] by (simp add: store_operands_def view_step_def)
next
  case (sstore a b)
  then show ?thesis
    using assms(2) by (auto simp: store_operands_def view_step_def elim: sstore_view)
next
  case (send a b c)
  then show ?thesis
    using same_storage_view [OF same_storage_steps(2)] assms(2) by (auto simp: store_operands_def view_step_def)
next
  case (emit a b c)
  then show ?thesis
    using same_storage_view [OF same_storage_steps(3)] assms(2) by (auto simp: store_operands_def view_step_def)
next
  case (hash a b c)
  then show ?thesis
    using same_storage_view [OF same_storage_hash] assms(2) by (auto simp: store_operands_def view_step_def)
qed

lemma fetch_same_storage: "fetch s = Inr (i, s') \<Longrightarrow> same_storage s s'"
  using fetch_plain same_storage_steps(1) by blast

interpretation cache: run_invariant P cache_ok for P
proof
  show "cache_ok s \<Longrightarrow> fetch s = Inr (i, s') \<Longrightarrow> cache_ok s'" for s i s'
    using fetch_same_storage same_storage_view by blast
  show "cache_ok s \<Longrightarrow> wf_instr i \<Longrightarrow> step P s i = Inr (st, s') \<Longrightarrow> cache_ok s'" for s i st s'
    using step_refines_view by blast
  show "cache_ok s \<Longrightarrow> t |\<in>| bounds s \<Longrightarrow> cache_ok (s\<lparr>machine := machine s\<lparr>mpc := t\<rparr>\<rparr>)" for s t
    by (simp add: cache_ok_def host_value_def)
qed

lemma cache_start: "fresh_start s \<Longrightarrow> cache_ok s"
  by (simp add: fresh_start_def cache_ok_def)

section \<open>Confinement to the manifest\<close>

text \<open>A key a program may derive: the digest of an input in its memory that starts with a declared base.\<close>

definition derived :: "prims \<Rightarrow> u64 fset \<Rightarrow> StorageKey \<Rightarrow> bool" where
  "derived P bases key \<longleftrightarrow>
     (\<exists>pre d. p_sha3_256 P pre = Some d \<and> key = digest_bytes d \<and> 8 \<le> length pre \<and>
        length pre \<le> MEM_BYTES \<and> from_be (take 8 pre) |\<in>| bases)"

definition confined :: "prims \<Rightarrow> interp \<Rightarrow> interp \<Rightarrow> bool" where
  "confined P s0 s \<longleftrightarrow>
     manifest s = manifest s0 \<and>
     (\<forall>key. fmlookup (storage s) key \<noteq> fmlookup (storage s0) key \<longrightarrow> key |\<in>| dirty s) \<and>
     (\<forall>man. manifest s0 = Some man \<longrightarrow>
        (\<forall>key. key |\<in>| dirty s \<longrightarrow> can_write man key \<or> key |\<in>| keyed_authorized_writes s) \<and>
        (\<forall>key. key |\<in>| keyed_authorized_writes s \<longrightarrow> derived P (m_keyed_writes man) key) \<and>
        (\<forall>key. key |\<in>| keyed_authorized_reads s \<longrightarrow>
           derived P (m_keyed_writes man |\<union>| m_keyed_reads man) key))"

definition same_keys :: "interp \<Rightarrow> interp \<Rightarrow> bool" where
  "same_keys s s' \<longleftrightarrow>
     storage s' = storage s \<and> dirty s' = dirty s \<and> manifest s' = manifest s \<and>
     keyed_authorized_reads s' = keyed_authorized_reads s \<and> keyed_authorized_writes s' = keyed_authorized_writes s"

lemma confined_same: "confined P s0 s \<Longrightarrow> same_keys s s' \<Longrightarrow> confined P s0 s'"
  by (simp add: confined_def same_keys_def)

lemma same_keys_steps:
  "plain_step s s' \<Longrightarrow> same_keys s s'"
  "exec_sload s d a = Inr (st, s') \<Longrightarrow> same_keys s s'"
  "exec_send s a b c = Inr (st, s') \<Longrightarrow> same_keys s s'"
  "exec_emit s a b c = Inr (st, s') \<Longrightarrow> same_keys s s'"
  by (auto simp: plain_step_def same_keys_def exec_sload_Inr_iff elim!: exec_send_InrD exec_emit_InrD)

lemma confined_sstore:
  assumes "confined P s0 s" and "exec_sstore s a b = Inr (st, s')"
  shows "confined P s0 s'"
proof -
  obtain key v s1 where may: "may_write s key" and s1: "store_charged key v s s1"
    and s': "s' = s1\<lparr>storage := fmupd key v (storage s1)\<rparr>"
    using assms(2) by (auto simp: exec_sstore_Inr_iff dest: charge_store_InrD)
  have f: "manifest s' = manifest s" "dirty s' = finsert key (dirty s)" "storage s' = fmupd key v (storage s)"
      "keyed_authorized_reads s' = keyed_authorized_reads s" "keyed_authorized_writes s' = keyed_authorized_writes s"
    using s1 by (auto simp: s' store_charged_def)
  show ?thesis
    using assms(1) may unfolding confined_def f may_write_def by auto
qed

text \<open>The key authorised after a hash is the digest of what was hashed.\<close>

lemma hash_derives:
  assumes wf: "wf_machine m" and rd: "mem_region m p n = Some region" and n: "n \<ge> 8"
    and w: "mem_write m out (digest_bytes d) = (True, m')" and key: "mem_region m' out 32 = Some key"
    and base: "map_option from_be (mem_region m p 8) = Some b" and d: "p_sha3_256 P region = Some d"
    and b: "b |\<in>| bases"
  shows "derived P bases key"
proof -
  have "mem_region m' out 32 = Some (digest_bytes d)"
    using machine_mem.read_written [OF wf w, of 32] by simp
  then have "key = digest_bytes d"
    using key by simp
  moreover have "8 \<le> unat n"
    using n by (simp add: word_le_nat_alt)
  then have "8 \<le> length region" "length region \<le> MEM_BYTES" "mem_region m p 8 = Some (take 8 region)"
    using rd wf mem_region_length [OF rd] by (auto simp: mem_region_iff split: if_splits)
  ultimately show ?thesis
    using base d b unfolding derived_def by auto
qed

lemma confined_hash:
  assumes wf: "wf_interp s" and inv: "confined P s0 s" and "exec_hash P s a b c = Inr (st, s')"
  shows "confined P s0 s'"
  using assms(3)
proof (rule exec_hash_InrD)
  fix p n out region d m u
  let ?s = "s\<lparr>meter_used := u, machine := m\<rparr>"
  assume rd: "mem_region (machine s) p n = Some region" and d: "p_sha3_256 P region = Some d"
    and w: "mem_write (machine s) out (digest_bytes d) = (True, m)"
    and t: "taint_keyed_from_hash
       (if n \<ge> 8 then map_option from_be (mem_region (machine s) p 8) else None) out ?s = Inr s'"
  have inv': "confined P s0 ?s"
    using inv by (rule confined_same) (simp add: same_keys_def)
  show ?thesis
    using t
  proof (rule taint_keyed_InrD)
    assume "s' = ?s"
    then show ?thesis using inv' by simp
  next
    fix b man key
    assume base: "(if n \<ge> 8 then map_option from_be (mem_region (machine s) p 8) else None) = Some b"
      and man: "manifest ?s = Some man"
      and dec: "b |\<in>| m_keyed_writes man \<or> b |\<in>| m_keyed_reads man"
      and key: "mem_region (machine ?s) out 32 = Some key"
      and tn: "tainted (b |\<in>| m_keyed_writes man) key ?s s'"
    have der: "derived P bases key" if "b |\<in>| bases" for bases
      using wf rd d w key base that by (intro hash_derives) (auto simp: wf_interp_def split: if_splits)
    have f: "manifest s' = manifest s" "dirty s' = dirty s" "storage s' = storage s"
      "keyed_authorized_reads s' = finsert key (keyed_authorized_reads s)"
      "keyed_authorized_writes s' =
         (if b |\<in>| m_keyed_writes man then finsert key (keyed_authorized_writes s) else keyed_authorized_writes s)"
      using tn by (auto simp: tainted_def)
    show ?thesis
      using inv man dec der unfolding confined_def f by auto
  qed
qed

interpretation confinement: host_invariant P "confined P s0" for P s0
  by unfold_locales (blast intro: confined_same same_keys_steps confined_sstore confined_hash)+

lemma confined_start: "fresh_start s \<Longrightarrow> confined P s s"
  by (simp add: confined_def fresh_start_def)

end
