(* ===== verification/WideArith.thy ===== *)
theory WideArith
  imports Run
begin

text \<open>
  The arithmetic instructions of the interpreter: the two words of the full product, the
  128-bit quotient and remainder over register pairs, and the exactness of the checked ones.
\<close>

unbundle bit_operations_syntax

section \<open>Two-word values\<close>

lemma unat_widen: "unat (ucast (x :: u64) :: u128) = unat x"
  using unat_bound [of x] by (simp add: unsigned_ucast_eq take_bit_nat_eq_self)

lemma product_bound: "unat (x :: u64) * unat (y :: u64) < 2 ^ 128"
proof -
  have "unat x < 2 ^ 64" "unat y < 2 ^ 64"
    using unat_bound [of x] unat_bound [of y] by simp_all
  then have "unat x * unat y < 2 ^ 64 * 2 ^ 64"
    by (rule mult_strict_mono) simp_all
  then show ?thesis by simp
qed

text \<open>The high word of a product, and the 128-bit operands of \<open>DivW\<close> and \<open>RemW\<close>.\<close>

lemma mul_hi_value: "unat (mul_hi x y) = unat x * unat y div 2 ^ 64"
proof -
  have "unat (ucast x * ucast y :: u128) = unat x * unat y"
    using product_bound [of x y] by (simp add: unat_mul_no_wrap unat_widen)
  moreover have "unat x * unat y div 2 ^ 64 < 2 ^ 64"
    using product_bound [of x y] by (simp add: less_mult_imp_div_less)
  ultimately show ?thesis
    by (simp add: mul_hi_def unsigned_ucast_eq unat_drop_bit_eq drop_bit_eq_div [of 64 "unat x * unat y"] take_bit_nat_eq_self)
qed

lemma mul_words: "unat (mul_hi x y) * 2 ^ 64 + unat (x * y) = unat x * unat y"
  by (simp add: mul_hi_value unat_word_ariths)



section \<open>What the arithmetic instructions leave in the registers\<close>

text \<open>The value of a register pair, low word first.\<close>

definition pair_value :: "machine \<Rightarrow> Reg \<Rightarrow> Reg \<Rightarrow> nat" where
  "pair_value m lo hi = unat (regs m ! unat hi) * 2 ^ 64 + unat (regs m ! unat lo)"

definition word_value :: "machine \<Rightarrow> Reg \<Rightarrow> nat" where
  "word_value m r = unat (regs m ! unat r)"

lemma binary_eq:
  assumes "wf_machine m" "unat d < NUM_REGS" "unat a < NUM_REGS" "unat b < NUM_REGS"
  shows "binary m d a b f =
    bindE (f (regs m ! unat a) (regs m ! unat b)) (\<lambda>v. Inr (m\<lparr>regs := (regs m)[unat d := v]\<rparr>))"
  using assms by (simp add: binary_def reg_Inr set_reg_Inr cong: bindE_cong)

lemma reg_inj: "unat (d :: Reg) = unat a \<longleftrightarrow> d = a"
  by (simp add: word_unat_eq_iff)





section \<open>Properties\<close>

text \<open>The wide product: \<open>MulHi\<close> and \<open>MulW\<close> of the same operands leave the two words of the full
  128-bit product in a pair of registers apart from the operands.\<close>

theorem wide_product:
  assumes "wf_machine (machine s)" and "\<forall>r \<in> {lo, hi, a, b}. unat r < NUM_REGS"
    and "hi \<notin> {lo, a, b}"
  shows "\<exists>s1 s2. step P s (MulHi hi a b) = Inr (Next, s1) \<and> step P s1 (MulW lo a b) = Inr (Next, s2) \<and>
    pair_value (machine s2) lo hi = word_value (machine s) a * word_value (machine s) b"
proof -
  let ?R = "regs (machine s)"
  let ?m1 = "(machine s)\<lparr>regs := ?R[unat hi := mul_hi (?R ! unat a) (?R ! unat b)]\<rparr>"
  let ?x = "?R ! unat a * ?R ! unat b"
  have len: "length ?R = NUM_REGS"
    using assms(1) by (simp add: wf_machine_def)
  have wf1: "wf_machine ?m1"
    using assms(1) by (simp add: wf_machine_def)
  have "step P s (MulHi hi a b) = Inr (Next, s\<lparr>machine := ?m1\<rparr>)"
    using assms by (simp add: step_def binary_eq on_machine_def)
  moreover have "step P (s\<lparr>machine := ?m1\<rparr>) (MulW lo a b) =
      Inr (Next, s\<lparr>machine := ?m1\<lparr>regs := (regs ?m1)[unat lo := ?x]\<rparr>\<rparr>)"
    using assms wf1 len by (simp add: step_def binary_eq on_machine_def reg_inj)
  moreover have "pair_value (?m1\<lparr>regs := (regs ?m1)[unat lo := ?x]\<rparr>) lo hi =
      word_value (machine s) a * word_value (machine s) b"
    using assms(2,3) len mul_words [of "?R ! unat a" "?R ! unat b"]
    by (auto simp: pair_value_def word_value_def reg_inj nth_list_update)
  ultimately show ?thesis
    by auto
qed


text \<open>\<open>leaves r d v\<close>: the instruction went on and register \<open>d\<close> holds \<open>v\<close>.\<close>

definition leaves :: "exn + Step \<times> interp \<Rightarrow> Reg \<Rightarrow> nat \<Rightarrow> bool" where
  "leaves r d v \<longleftrightarrow> (\<exists>s'. r = Inr (Next, s') \<and> word_value (machine s') d = v)"

lemma leaves_binary:
  assumes "wf_machine (machine s)" and "unat d < NUM_REGS" "unat a < NUM_REGS" "unat b < NUM_REGS"
    and "f (regs (machine s) ! unat a) (regs (machine s) ! unat b) = Inr w" and "unat w = v"
  shows "leaves (on_machine s (binary (machine s) d a b f)) d v"
  using assms by (simp add: leaves_def binary_eq on_machine_def word_value_def wf_machine_def)

lemma faults_binary:
  assumes "wf_machine (machine s)" and "unat d < NUM_REGS" "unat a < NUM_REGS" "unat b < NUM_REGS"
    and "f (regs (machine s) ! unat a) (regs (machine s) ! unat b) = Inl e"
  shows "on_machine s (binary (machine s) d a b f) = Inl e"
  using assms by (simp add: binary_eq on_machine_def)

text \<open>Checked arithmetic is exact: \<open>Add\<close>, \<open>Sub\<close> and \<open>Mul\<close> leave the exact result or fault with
  \<open>Overflow\<close> when it is no 64-bit word; \<open>Div\<close> and \<open>Rem\<close> fault only on zero.\<close>

theorem checked_arithmetic:
  assumes "wf_machine (machine s)" and "\<forall>r \<in> {d, a, b}. unat r < NUM_REGS"
    and "x = word_value (machine s) a" and "y = word_value (machine s) b"
  shows "(if x + y < 2 ^ 64 then leaves (step P s (Add d a b)) d (x + y)
      else step P s (Add d a b) = Inl (Fault Overflow)) \<and>
    (if y \<le> x then leaves (step P s (Sub d a b)) d (x - y) else step P s (Sub d a b) = Inl (Fault Overflow)) \<and>
    (if x * y < 2 ^ 64 then leaves (step P s (Mul d a b)) d (x * y)
      else step P s (Mul d a b) = Inl (Fault Overflow)) \<and>
    (if y \<noteq> 0 then leaves (step P s (Div d a b)) d (x div y) \<and> leaves (step P s (Rem d a b)) d (x mod y)
      else step P s (Div d a b) = Inl (Fault DivByZero) \<and> step P s (Rem d a b) = Inl (Fault DivByZero))"
proof -
  let ?x = "regs (machine s) ! unat a" and ?y = "regs (machine s) ! unat b"
  have xy: "x = unat ?x" "y = unat ?y"
    using assms(3,4) by (simp_all add: word_value_def)
  note le = leaves_binary [OF assms(1)] and fa = faults_binary [OF assms(1)]
  have add: "if x + y < 2 ^ 64 then leaves (step P s (Add d a b)) d (x + y)
      else step P s (Add d a b) = Inl (Fault Overflow)"
    using assms(2) le [of d a b "\<lambda>x y. ok_or (checked_add x y) Overflow"] fa [of d a b "\<lambda>x y. ok_or (checked_add x y) Overflow"]
    by (auto simp: step_def xy checked_add_def unat_add_no_wrap)
  have sub: "if y \<le> x then leaves (step P s (Sub d a b)) d (x - y) else step P s (Sub d a b) = Inl (Fault Overflow)"
    using assms(2) le [of d a b "\<lambda>x y. ok_or (checked_sub x y) Overflow"] fa [of d a b "\<lambda>x y. ok_or (checked_sub x y) Overflow"]
    by (auto simp: step_def xy checked_sub_def unat_sub word_le_nat_alt)
  have mul: "if x * y < 2 ^ 64 then leaves (step P s (Mul d a b)) d (x * y)
      else step P s (Mul d a b) = Inl (Fault Overflow)"
    using assms(2) le [of d a b "\<lambda>x y. ok_or (checked_mul x y) Overflow"] fa [of d a b "\<lambda>x y. ok_or (checked_mul x y) Overflow"]
    by (auto simp: step_def xy checked_mul_def unat_mul_no_wrap)
  have div_: "if y \<noteq> 0 then leaves (step P s (Div d a b)) d (x div y) \<and> leaves (step P s (Rem d a b)) d (x mod y)
      else step P s (Div d a b) = Inl (Fault DivByZero) \<and> step P s (Rem d a b) = Inl (Fault DivByZero)"
    using assms(2) le [of d a b "\<lambda>x y. ok_or (checked_div x y) DivByZero"] fa [of d a b "\<lambda>x y. ok_or (checked_div x y) DivByZero"]
      le [of d a b "\<lambda>x y. ok_or (checked_rem x y) DivByZero"] fa [of d a b "\<lambda>x y. ok_or (checked_rem x y) DivByZero"]
    by (auto simp: step_def xy checked_div_def checked_rem_def unat_div unat_mod unat_eq_0)
  from add sub mul div_ show ?thesis by blast
qed

text \<open>Examples: a machine with 2 in every register but a divisor pair of zero.\<close>

definition sample_words :: interp where
  "sample_words = (new_interp [] [] 0)\<lparr>machine := new_machine\<lparr>regs := (replicate 16 2)[8 := 0, 9 := 0]\<rparr>\<rparr>"

lemma sample_words_wf: "wf_machine (machine sample_words)"
  by (simp add: sample_words_def wf_machine_def new_machine_def NUM_REGS_def STACK_LIMIT_def)

lemma wide_product_witness:
  "\<exists>s1 s2. step sample_prims sample_words (MulHi 3 4 5) = Inr (Next, s1) \<and>
     step sample_prims s1 (MulW 2 4 5) = Inr (Next, s2) \<and> pair_value (machine s2) 2 3 = 4"
  using wide_product [OF sample_words_wf, of 2 3 4 5 sample_prims]
  by (simp add: NUM_REGS_def word_value_def sample_words_def)


lemma checked_arithmetic_witness:
  "leaves (step sample_prims sample_words (Mul 0 1 2)) 0 4 \<and>
   step sample_prims sample_words (Sub 0 8 2) = Inl (Fault Overflow)"
  using checked_arithmetic [OF sample_words_wf, of 0 1 2 _ _ sample_prims]
    checked_arithmetic [OF sample_words_wf, of 0 8 2 _ _ sample_prims]
  by (simp add: NUM_REGS_def word_value_def sample_words_def)

end
