(* ===== verification/Hosting.thy ===== *)
theory Hosting
  imports StorageView WideArith
begin

text \<open>
  The states a host can hand to \<open>run\<close>: what the public constructors of \<open>interp.rs\<close> return,
  under any of the builders, and the facts every run from one of them shares.
\<close>

section \<open>Starts\<close>

inductive host_start :: "prims \<Rightarrow> interp \<Rightarrow> bool" for P where
  system: "verify_system_program P cd = Inr (Some sp) \<Longrightarrow> host_start P (for_system_program sp cs limit)"
| raw: "host_start P (for_unchecked_program cd cs limit)"
| entry: "for_entry P c sel limit = Inr s \<Longrightarrow> host_start P s"
| genesis: "for_genesis P c limit = Inr s \<Longrightarrow> host_start P s"
| storage: "host_start P s \<Longrightarrow> host_start P (with_storage st s)"
| loader: "host_start P s \<Longrightarrow> host_start P (with_storage_loader f s)"
| memory: "host_start P s \<Longrightarrow> host_start P (with_memory data s)"

lemma host_start_fresh: "host_start P s \<Longrightarrow> fresh_start s"
  by (induction rule: host_start.induct)
    (auto simp: for_system_program_def for_unchecked_program_def dest: entry_starts_fresh)

lemma host_turns:
  assumes "host_start P s" and "turns P s n t"
  shows "wf_interp t" and "paid_up (unat (meter_used s)) t" and "cache_ok t" and "confined P s t" and "grows s t"
proof -
  have f: "fresh_start s"
    using assms(1) by (rule host_start_fresh)
  then have "wf_interp s"
    by (simp add: fresh_start_def)
  with f show "wf_interp t" "paid_up (unat (meter_used s)) t" "cache_ok t" "confined P s t"
    using assms(2) paid.turns_keep cache.turns_keep confinement.turns_keep
      fresh_paid_up cache_start confined_start by blast+
  show "grows s t"
    using turns_budget [OF assms(2)] by simp
qed

text \<open>A run that returns ends at a \<open>Halt\<close>, after the head of the loop.\<close>

lemma run_Inr:
  assumes "run P s = Inr out"
  obtains n t t' where "turns P s n t" "fetch t = Inr (Halt, t')" "out = outcome_of t'"
proof -
  obtain n t where t: "turns P s n t" "turn P t = Inr (Inl out)"
    using run_turns [of P s] assms by auto
  from t(2) show ?thesis
  proof (rule turn_InrD)
    fix i st s0 s1
    assume f: "fetch t = Inr (i, s0)" and st: "step P s0 i = Inr (st, s1)"
      and r: "Inl out = (case st of Next \<Rightarrow> Inr s1 | StepHalt \<Rightarrow> Inl (outcome_of s1)
          | JumpTo t \<Rightarrow> Inr (s1\<lparr>machine := (machine s1)\<lparr>mpc := t\<rparr>\<rparr>))"
    then have "i = Halt" "s1 = s0" "out = outcome_of s1"
      by (cases st; simp add: step_Halt_iff)+
    then show ?thesis
      using that t(1) f by blast
  qed
qed

lemma host_outcome:
  assumes "host_start P s" and "run P s = Inr out"
  obtains t where "paid_up (unat (meter_used s)) t" "confined P s t" "grows s t"
    "meter_used t \<le> meter_limit t" "out = outcome_of t"
proof -
  obtain n t t' where t: "turns P s n t" and f: "fetch t = Inr (Halt, t')" and out: "out = outcome_of t'"
    using assms(2) by (rule run_Inr)
  note h = host_turns [OF assms(1) t]
  have p: "plain_step t t'"
    using f by (rule fetch_plain)
  have "meter_used t' \<le> meter_limit t'"
    using f by (auto simp: fetch_Inr_iff)
  then show ?thesis
    using that [of t'] out h p paid_plain confined_same same_keys_steps(1) grows_fetch [OF f] grows_trans by blast
qed

text \<open>A verified container's entry, with the host's storage, loader and memory.\<close>

definition hosted :: "(StorageKey, u64) fmap \<Rightarrow> (StorageKey \<Rightarrow> u64) \<Rightarrow> bytes \<Rightarrow> interp \<Rightarrow> interp" where
  "hosted st f data s = with_memory data (with_storage_loader f (with_storage st s))"

lemma hosted_frame [simp]:
  "code (hosted st f data s) = code s" "meter_limit (hosted st f data s) = meter_limit s"
  "meter_used (hosted st f data s) = meter_used s" "manifest (hosted st f data s) = manifest s"
  "storage (hosted st f data s) = st" "consts_pool (hosted st f data s) = consts_pool s"
  by (simp_all add: hosted_def with_memory_def with_storage_loader_def with_storage_def Let_def)

lemma hosted_start [simp]: "host_start P s \<Longrightarrow> host_start P (hosted st f data s)"
  by (simp add: hosted_def host_start.intros)

lemma hosted_verified [simp]: "verified s \<Longrightarrow> verified (hosted st f data s)"
  by (simp add: hosted_def)

end
