(* ===== verification/Samples.thy ===== *)
theory Samples
  imports Hosting
begin

text \<open>
  A worked run: the first entry of the sample container, under a host with an empty storage
  and the slot's key in memory, jumps, loads 5, stores it in slot 2 and halts.
\<close>

section \<open>The start\<close>

definition sample_start :: interp where
  "sample_start = hosted fmempty (\<lambda>_. 0) (scalar_key 2) (entered sample_container (hd (c_entries sample_container)) 1000)"

lemma sample_open:
  "open_entry sample_container [1, 2, 3, 4] 1000 = Inr (entered sample_container (hd (c_entries sample_container)) 1000)"
  unfolding open_entry_Inr_iff
  by (intro exI [of _ "hd (c_entries sample_container)"])
    (auto simp: in_limits_def sample_parts container_limits sample_boundaries,
     auto simp: sample_container_def sample_access_def declared_slots_def)

lemma sample_key: "scalar_key 2 = replicate 31 0 @ [2]"
  by code_simp

lemma sample_fields:
  "code sample_start = c_code sample_container" "bounds sample_start = {|0, 5, 15, 18|}"
  "meter_limit sample_start = 1000" "meter_used sample_start = 175" "mpc (machine sample_start) = 0"
  "wf_machine (machine sample_start)" "strict sample_start" "dirty sample_start = {||}"
  "storage sample_start = fmempty" "loaded sample_start = fmempty" "loader sample_start = Some (\<lambda>_. 0)"
  "keyed_authorized_writes sample_start = {||}" "fresh_charged sample_start = {||}"
  "regs (machine sample_start) = replicate 16 0" "effects sample_start = []"
  by (simp_all add: sample_start_def hosted_def with_memory_def with_storage_loader_def with_storage_def Let_def
      entered_def new_interp_def sample_boundaries sample_parts new_machine_def NUM_REGS_def wf_machine_def
      STACK_LIMIT_def)
    (simp add: sample_container_def)

lemma sample_manifest: "may_write sample_start (scalar_key 2)"
  by (simp add: may_write_def sample_start_def hosted_def with_memory_def with_storage_loader_def with_storage_def
      Let_def entered_def can_write_def sample_container_def sample_access_def)

lemma sample_mem: "mem_region (machine sample_start) 0 32 = Some (scalar_key 2)"
proof -
  have "take 32 (mem (machine sample_start)) = scalar_key 2"
    by (simp add: sample_start_def hosted_def with_memory_def Let_def entered_def copy_into_def new_machine_def
       sample_key MEM_BYTES_def with_storage_loader_def with_storage_def)
  then show ?thesis
    by (simp add: mem_region_iff sample_fields MEM_BYTES_def)
qed

section \<open>The run\<close>

lemma run_turn:
  "turn P s = Inr (Inr s') \<Longrightarrow> run P s = run P s'"
  "turn P s = Inr (Inl out) \<Longrightarrow> run P s = Inr out"
  by (simp_all add: run.simps [of P s])

definition sample_out :: Outcome where
  "sample_out = \<lparr>o_regs = (replicate 16 0)[1 := 5], o_meter_used = 678,
     o_storage = fmupd (scalar_key 2) 5 fmempty, o_dirty = {|scalar_key 2|}, o_fetched = 1, o_effects = []\<rparr>"

abbreviation sample_machine :: machine where
  "sample_machine \<equiv> (machine sample_start)\<lparr>regs := (replicate 16 0)[1 := 5], mpc := 15\<rparr>"

definition at_load :: interp where
  "at_load = sample_start\<lparr>meter_used := 177, machine := (machine sample_start)\<lparr>mpc := 5\<rparr>\<rparr>"

definition at_store :: interp where
  "at_store = sample_start\<lparr>meter_used := 178, machine := sample_machine\<rparr>"

definition in_store :: interp where
  "in_store = sample_start\<lparr>meter_used := 678, machine := sample_machine\<lparr>mpc := 18\<rparr>\<rparr>"

definition at_halt :: interp where
  "at_halt = sample_start\<lparr>meter_used := 678, machine := sample_machine\<lparr>mpc := 18\<rparr>,
     loaded := fmupd (scalar_key 2) 0 fmempty, dirty := {|scalar_key 2|},
     storage := fmupd (scalar_key 2) 5 fmempty\<rparr>"

lemmas turn_simps = turn_def fetch_def charge_def checked_add_def usize_add_def step_def Let_def
  sample_fields sample_decode

lemma sample_turn_1: "turn sample_prims sample_start = Inr (Inr at_load)"
  by (simp add: turn_simps jump_to_def target_ok_def at_load_def)

lemma sample_turn_2: "turn sample_prims at_load = Inr (Inr at_store)"
  by (simp add: turn_simps set_reg_def at_load_def at_store_def)

lemma sample_fetch: "fetch at_store = Inr (SStore 0 1, in_store)"
  by (simp add: turn_simps at_store_def in_store_def)

lemma sample_step: "step sample_prims in_store (SStore 0 1) = Inr (Next, at_halt)"
proof -
  have "mem_region (sample_machine\<lparr>mpc := 18\<rparr>) 0 32 = Some (scalar_key 2)" "may_write in_store (scalar_key 2)"
    using sample_mem sample_manifest
    by (simp_all add: mem_region_def may_write_def in_store_def cong: option.case_cong)
  then show ?thesis
    unfolding step_host exec_sstore_def read_denied
    by (simp add: reg_def read_key_def STORAGE_KEY_BYTES_def charge_store_def fetch_slot_def fcard_finsert_if fcard_fempty FREE_DIRTY_SLOTS_def sample_fields
        Let_def in_store_def at_halt_def)
qed

lemma sample_turn_3: "turn sample_prims at_store = Inr (Inr at_halt)"
  by (simp add: turn_def sample_fetch sample_step)

lemma sample_turn_4: "turn sample_prims at_halt = Inr (Inl sample_out)"
  by (simp add: turn_simps at_halt_def outcome_of_def sample_out_def fcard_finsert_if fcard_fempty)

lemma sample_run: "run sample_prims sample_start = Inr sample_out"
  using run_turn(1) [OF sample_turn_1] run_turn(1) [OF sample_turn_2] run_turn(1) [OF sample_turn_3]
    run_turn(2) [OF sample_turn_4] by simp

lemma sample_turns:
  "turns sample_prims sample_start 2 at_store"
  "turns sample_prims sample_start 3 at_halt"
  using turns.more [OF turns.more [OF turns.none sample_turn_1] sample_turn_2]
    turns.more [OF turns.more [OF turns.more [OF turns.none sample_turn_1] sample_turn_2] sample_turn_3]
  by (simp_all add: numeral_2_eq_2 numeral_3_eq_3)

lemma sample_host: "host_start sample_prims sample_start"
proof -
  have "for_entry sample_prims sample_container [1, 2, 3, 4] 1000 =
      Inr (entered sample_container (hd (c_entries sample_container)) 1000)"
    using sample_open by (simp add: for_entry_def sample_selector)
  then show ?thesis
    unfolding sample_start_def by (intro hosted_start host_start.entry)
qed

section \<open>Starts that fault\<close>

text \<open>The same entry under a limit that covers its dispatch only, and a division by zero.\<close>

lemma sample_short_open:
  "open_entry sample_container [1, 2, 3, 4] 175 = Inr (entered sample_container (hd (c_entries sample_container)) 175)"
  unfolding open_entry_Inr_iff
  by (intro exI [of _ "hd (c_entries sample_container)"])
    (auto simp: in_limits_def sample_parts container_limits sample_boundaries,
     auto simp: sample_container_def sample_access_def declared_slots_def)

lemma sample_short_turn:
  "turn P (hosted st f data (entered sample_container (hd (c_entries sample_container)) 175)) = Inl (Fault OutOfMeter)"
proof -
  let ?s = "hosted st f data (entered sample_container (hd (c_entries sample_container)) 175)"
  have "code ?s = c_code sample_container" "meter_limit ?s = 175" "meter_used ?s = 175" "mpc (machine ?s) = 0"
    by (simp_all add: entered_def new_interp_def sample_parts)
      (simp add: hosted_def with_memory_def with_storage_loader_def with_storage_def Let_def sample_container_def)
  then show ?thesis
    by (simp add: turn_def fetch_def charge_def checked_add_def sample_decode Let_def)
qed

definition sample_div :: interp where
  "sample_div = for_unchecked_program (encode (Div 0 1 2)) [] 100"

definition in_div :: interp where
  "in_div = sample_div\<lparr>meter_used := 4, machine := (machine sample_div)\<lparr>mpc := 4\<rparr>\<rparr>"

lemma sample_div_fetch: "fetch sample_div = Inr (Div 0 1 2, in_div)"
proof -
  have "decode (encode (Div 0 1 2)) 0 = Inr (Div 0 1 2, 4)"
    by code_simp
  then show ?thesis
    by (simp add: fetch_def charge_def checked_add_def usize_add_def Let_def sample_div_def in_div_def
        for_unchecked_program_def new_interp_def new_machine_def)
qed

lemma sample_div_step: "step P in_div (Div 0 1 2) = Inl (Fault DivByZero)"
  by (simp add: step_def on_machine_def binary_def reg_def checked_div_def in_div_def sample_div_def
      for_unchecked_program_def new_interp_def new_machine_def NUM_REGS_def)

end
