(* ===== verification/Simulation.thy ===== *)
theory Simulation
  imports Reach
begin

text \<open>
  The contract of a simulation of a run by the run of a mapped state: away from the states
  \<open>stop\<close>, a turn that succeeds is mapped to a turn.  It carries runs that return.
  \<open>run_bisimulation\<close> is the contract of two runs in lockstep: turns of related states end alike.
\<close>

locale run_simulation =
  fixes P :: prims and I stop :: "interp \<Rightarrow> bool" and f :: "interp \<Rightarrow> interp"
  assumes turn_keeps: "I s \<Longrightarrow> turn P s = Inr (Inr s') \<Longrightarrow> I s'"
    and turn_maps: "I s \<Longrightarrow> \<not> stop s \<Longrightarrow> turn P s = Inr r \<Longrightarrow> turn P (f s) = Inr (map_sum id f r)"
begin

lemma turns_keep: "turns P s n t \<Longrightarrow> I s \<Longrightarrow> I t"
  by (induction rule: turns.induct) (auto intro: turn_keeps)

lemma turns_map:
  assumes "turns P s n t" and "I s" and "\<forall>m u. m < n \<longrightarrow> turns P s m u \<longrightarrow> \<not> stop u"
  shows "turns P (f s) n (f t)"
  using assms(1,3)
proof (induction rule: turns.induct)
  case none
  show ?case
    by (rule turns.none)
next
  case (more n t t')
  have "turn P (f t) = Inr (Inr (f t'))"
    using turn_maps [OF turns_keep [OF more.hyps(1) assms(2)] _ more.hyps(2)] more.prems more.hyps(1) by auto
  then show ?case
    using more.IH more.prems turns.more by (metis less_Suc_eq)
qed

lemma run_maps:
  assumes "I s" and "\<forall>n t. turns P s n t \<longrightarrow> \<not> stop t" and "run P s = Inr out"
  shows "run P (f s) = Inr out"
proof -
  obtain n t where t: "turns P s n t" "turn P t = Inr (Inl out)"
    using run_turns [of P s] assms(3) by auto
  have h: "turns P (f s) n (f t)"
    using assms(2) by (intro turns_map [OF t(1) assms(1)]) blast
  have "turn P (f t) = Inr (Inl out)"
    using turn_maps [OF turns_keep [OF t(1) assms(1)] _ t(2)] assms(2) t(1) by auto
  then show ?thesis
    using run_from [OF h] by (simp add: run.simps [of P "f t"])
qed

end
locale run_bisimulation =
  fixes P :: prims and R :: "interp \<Rightarrow> interp \<Rightarrow> bool" and Q :: "Outcome \<Rightarrow> Outcome \<Rightarrow> bool"
  assumes turns_alike: "R s t \<Longrightarrow> rel_sum (=) (rel_sum Q R) (turn P s) (turn P t)"
begin

lemma runs_alike:
  assumes "R s t"
  shows "rel_sum (=) Q (run P s) (run P t)"
proof -
  have "rel_sum (=) Q (run P' s) (run P' t)" if "P' = P" "R s t" for P' t
    using that
  proof (induction P' s arbitrary: t rule: run.induct)
    case (1 P' s)
    note a = turns_alike [OF 1(3), folded 1(2)]
    show ?case
    proof (cases "turn P' s")
      case (Inl e)
      then have "turn P' t = Inl e"
        using a by (cases "turn P' t") simp_all
      then show ?thesis
        using Inl by (simp add: run.simps [of P'])
    next
      case (Inr r)
      then obtain r' where "turn P' t = Inr r'" "rel_sum Q R r r'"
        using a by (cases "turn P' t") simp_all
      then show ?thesis
        using Inr 1(1) [OF Inr] 1(2) by (cases r; cases r') (simp_all add: run.simps [of P s] run.simps [of P t])
    qed
  qed
  then show ?thesis
    using assms by blast
qed

end
end
