(* ===== verification/Raise.thy ===== *)
theory Raise
  imports Samples Simulation
begin

text \<open>
  The meter limit in a run: nothing but the meter itself looks at it, so a run that does not
  run out of meter is the same run under a higher limit.
\<close>

section \<open>Raising the limit\<close>

definition raise :: "u64 \<Rightarrow> interp \<Rightarrow> interp" where
  "raise L s = s\<lparr>meter_limit := max L (meter_limit s)\<rparr>"

text \<open>\<open>raises g r r'\<close>: unless \<open>r\<close> is out of meter, \<open>r'\<close> is \<open>r\<close> with its value mapped by \<open>g\<close>.\<close>

definition raises :: "('a \<Rightarrow> 'a) \<Rightarrow> exn + 'a \<Rightarrow> exn + 'a \<Rightarrow> bool" where
  "raises g r r' \<longleftrightarrow> r = Inl (Fault OutOfMeter) \<or> r' = map_sum id g r"

named_theorems raises_intros

lemma raises_simps [simp]:
  "raises g (Inl e) (Inl e)" "raises g (Inr x) (Inr y) \<longleftrightarrow> y = g x"
  by (auto simp: raises_def)

lemma raises_bind [raises_intros]:
  "raises (raise L) r r' \<Longrightarrow> (\<And>x. raises h (f x) (f' (raise L x))) \<Longrightarrow> raises h (bindE r f) (bindE r' f')"
  by (cases r) (auto simp: raises_def)

lemma raises_same: "(\<And>x. raises h (f x) (f' x)) \<Longrightarrow> raises h (bindE r f) (bindE r f')"
  by (cases r) simp_all

lemma raises_if [raises_intros]:
  "raises g x x' \<Longrightarrow> raises g y y' \<Longrightarrow> raises g (if b then x else y) (if b then x' else y')"
  by simp

lemma raise_fields [simp]:
  "machine (raise L s) = machine s" "code (raise L s) = code s" "bounds (raise L s) = bounds s"
  "meter_used (raise L s) = meter_used s" "consts_pool (raise L s) = consts_pool s"
  "storage (raise L s) = storage s" "loader (raise L s) = loader s"
  "loaded (raise L s) = loaded s" "dirty (raise L s) = dirty s"
  "effects (raise L s) = effects s" "effects_bytes (raise L s) = effects_bytes s"
  "keyed_bytes (raise L s) = keyed_bytes s" "durable_targets (raise L s) = durable_targets s"
  "event_records (raise L s) = event_records s" "manifest (raise L s) = manifest s"
  "keyed_authorized_reads (raise L s) = keyed_authorized_reads s"
  "keyed_authorized_writes (raise L s) = keyed_authorized_writes s"
  "fresh_charged (raise L s) = fresh_charged s" "strict (raise L s) = strict s"
  "meter_limit (raise L s) = max L (meter_limit s)"
  by (simp_all add: raise_def)

lemma raise_updates [simp]:
  "(raise L s)\<lparr>machine := m\<rparr> = raise L (s\<lparr>machine := m\<rparr>)"
  "(raise L s)\<lparr>meter_used := u\<rparr> = raise L (s\<lparr>meter_used := u\<rparr>)"
  "(raise L s)\<lparr>storage := st\<rparr> = raise L (s\<lparr>storage := st\<rparr>)"
  "(raise L s)\<lparr>loaded := l\<rparr> = raise L (s\<lparr>loaded := l\<rparr>)"
  "(raise L s)\<lparr>dirty := d\<rparr> = raise L (s\<lparr>dirty := d\<rparr>)"
  "(raise L s)\<lparr>effects := e\<rparr> = raise L (s\<lparr>effects := e\<rparr>)"
  "(raise L s)\<lparr>effects_bytes := n\<rparr> = raise L (s\<lparr>effects_bytes := n\<rparr>)"
  "(raise L s)\<lparr>keyed_bytes := n\<rparr> = raise L (s\<lparr>keyed_bytes := n\<rparr>)"
  "(raise L s)\<lparr>durable_targets := t\<rparr> = raise L (s\<lparr>durable_targets := t\<rparr>)"
  "(raise L s)\<lparr>event_records := n\<rparr> = raise L (s\<lparr>event_records := n\<rparr>)"
  "(raise L s)\<lparr>keyed_authorized_reads := K\<rparr> = raise L (s\<lparr>keyed_authorized_reads := K\<rparr>)"
  "(raise L s)\<lparr>keyed_authorized_writes := K\<rparr> = raise L (s\<lparr>keyed_authorized_writes := K\<rparr>)"
  "(raise L s)\<lparr>fresh_charged := K\<rparr> = raise L (s\<lparr>fresh_charged := K\<rparr>)"
  by (simp_all add: raise_def)

section \<open>Operations\<close>

lemmas raise_simps = raise_fields raise_updates Let_def

lemma raises_charge [raises_intros]: "raises (raise L) (charge a s) (charge a (raise L s))"
  by (cases "checked_add (meter_used s) a") (auto simp: raises_def charge_def)

lemma raises_charge_effect [raises_intros]: "raises (raise L) (charge_effect n s) (charge_effect n (raise L s))"
  unfolding charge_effect_def Let_def
  by (rule raises_same, rule raises_bind [OF raises_charge], simp, rule raises_same, rule raises_same, simp)

lemma raises_run_crypto [raises_intros]: "raises (raise L) (run_crypto f s) (run_crypto f (raise L s))"
  by (simp add: run_crypto_def split: sum.split exn.split)

lemma raises_durable [raises_intros]:
  "raises (raise L) (charge_durable_target k t s) (charge_durable_target k t (raise L s))"
  by (simp add: charge_durable_target_def Let_def raises_intros)

lemma raises_retain [raises_intros]: "raises (raise L) (retain_keyed n s) (retain_keyed n (raise L s))"
  unfolding retain_keyed_def raise_simps by (rule raises_same) simp

lemma raises_charge_keyed [raises_intros]: "raises (raise L) (charge_keyed s) (charge_keyed (raise L s))"
  by (simp add: charge_keyed_def raises_intros)

lemma raises_record [raises_intros]: "raises (raise L) (record_keyed w r key s) (record_keyed w r key (raise L s))"
  unfolding record_keyed_def raise_simps
  by (rule raises_bind [of L], (intro raises_intros, simp), rule raises_bind [of L], rule raises_retain) simp

lemma raises_taint [raises_intros]:
  "raises (raise L) (taint_keyed_from_hash b p s) (taint_keyed_from_hash b p (raise L s))"
  by (simp add: taint_keyed_from_hash_def Let_def raises_intros split: option.split)

lemma raise_fetch_slot: "fetch_slot (raise L s) key = map_prod id (raise L) (fetch_slot s key)"
  by (simp add: fetch_slot_def split: option.split)

lemma raises_charge_store [raises_intros]:
  "raises (raise L) (charge_store key v s) (charge_store key v (raise L s))"
proof (cases "fetch_slot s key")
  case (Pair prior s0)
  show ?thesis
    unfolding charge_store_def raise_fetch_slot Pair map_prod_simp prod.case raise_simps id_apply
    by (intro raises_if raises_bind [of L] raises_charge) (simp_all add: raises_charge)
qed

lemma raises_count [raises_intros]: "raises (raise L) (count_event s) (count_event (raise L s))"
  unfolding count_event_def Let_def raise_fields raise_updates
  by (rule raises_same) (simp add: raises_intros)

section \<open>Instructions, turns and runs\<close>

abbreviation lifts :: "u64 \<Rightarrow> exn + Step \<times> interp \<Rightarrow> exn + Step \<times> interp \<Rightarrow> bool" where
  "lifts L \<equiv> raises (map_prod id (raise L))"

lemma lifts_on_machine: "lifts L (on_machine s r) (on_machine (raise L s) r)"
  by (cases r) (simp_all add: on_machine_def)

lemma lifts_sload: "lifts L (exec_sload s d a) (exec_sload (raise L s) d a)"
  unfolding exec_sload_def raise_fetch_slot raise_simps
  by (intro raises_same raises_if) (simp_all add: split_def lifts_on_machine)

lemma lifts_sstore: "lifts L (exec_sstore s a b) (exec_sstore (raise L s) a b)"
  unfolding exec_sstore_def raise_simps
  by (intro raises_same raises_if raises_simps(1), rule raises_bind [OF raises_charge_store]) simp

lemma lifts_send: "lifts L (exec_send s a b c) (exec_send (raise L s) a b c)"
  unfolding exec_send_def raise_simps
  by (rule raises_same)+
    (rule raises_bind [OF raises_charge_effect], rule raises_bind [OF raises_durable], simp)

lemma lifts_emit: "lifts L (exec_emit s a b c) (exec_emit (raise L s) a b c)"
proof -
  have "lifts L
     (bindE (charge_effect n s) (\<lambda>s. bindE (ok_or d EffectsTooLarge) (\<lambda>d. bindE (charge d s) (\<lambda>s.
        bindE (if mint then charge_durable_target k t s else Inr s) (\<lambda>s. bindE (count_event s) (\<lambda>s.
          Inr (Next, s\<lparr>effects := effects s @ [e]\<rparr>)))))))
     (bindE (charge_effect n (raise L s)) (\<lambda>s. bindE (ok_or d EffectsTooLarge) (\<lambda>d. bindE (charge d s) (\<lambda>s.
        bindE (if mint then charge_durable_target k t s else Inr s) (\<lambda>s. bindE (count_event s) (\<lambda>s.
          Inr (Next, s\<lparr>effects := effects s @ [e]\<rparr>)))))))" for n d mint k t e
    by (rule raises_bind [OF raises_charge_effect], rule raises_same, rule raises_bind [OF raises_charge],
        rule raises_bind [OF raises_if [OF raises_durable]], simp, rule raises_bind [OF raises_count], simp)
  then show ?thesis
    unfolding exec_emit_def raise_simps by (intro raises_same raises_if raises_simps(1))
qed

lemma lifts_hash: "lifts L (exec_hash P s a b c) (exec_hash P (raise L s) a b c)"
  unfolding exec_hash_def raise_simps
  by (rule raises_same)+
    (rule raises_bind [OF raises_charge], rule raises_bind [OF raises_run_crypto],
      rule raises_bind [OF raises_taint], simp)

lemma lifts_verify: "lifts L (exec_verify f h p s b) (exec_verify f h p (raise L s) b)"
  unfolding exec_verify_def raise_simps
  by (rule raises_same, rule raises_bind [OF raises_charge], rule raises_bind [OF raises_run_crypto], simp)

lemma lifts_addr:
  "lifts L (bindE (run_crypto f s) (\<lambda>s. Inr (Next, s))) (bindE (run_crypto f (raise L s)) (\<lambda>s. Inr (Next, s)))"
  by (rule raises_bind [OF raises_run_crypto]) simp

lemma lifts_jump_to: "lifts L (jump_to s t) (jump_to (raise L s) t)"
  by (simp add: jump_to_def target_ok_def)

lemma lifts_jumps:
  "lifts L (exec_jump_if s a c t) (exec_jump_if (raise L s) a c t)"
  "lifts L (exec_call s t) (exec_call (raise L s) t)" "lifts L (exec_ret s) (exec_ret (raise L s))"
  by (auto simp: exec_jump_if_def exec_call_def exec_ret_def lifts_jump_to split_def
      intro!: raises_same raises_if)

lemma lifts_step: "lifts L (step P s i) (step P (raise L s) i)"
  by (cases i) (simp_all add: step_def Let_def lifts_on_machine lifts_sload lifts_sstore lifts_send lifts_emit
      lifts_hash lifts_verify lifts_addr lifts_jump_to lifts_jumps)

lemma lifts_fetch: "raises (map_prod id (raise L)) (fetch s) (fetch (raise L s))"
  unfolding fetch_def raise_simps
  by (rule raises_same) (auto simp: split_def intro!: raises_bind [OF raises_charge] raises_same)

lemma raises_bind_pair:
  "raises (map_prod id (raise L)) r r' \<Longrightarrow> (\<And>x s. raises h (f (x, s)) (f' (x, raise L s))) \<Longrightarrow>
     raises h (bindE r f) (bindE r' f')"
  by (cases r) (auto simp: raises_def, metis)

lemma lifts_turn: "raises (map_sum id (raise L)) (turn P s) (turn P (raise L s))"
  unfolding turn_def
  by (rule raises_bind_pair [OF lifts_fetch], simp, rule raises_bind_pair [OF lifts_step])
    (simp add: outcome_of_def split: Step.split)

interpretation raised: run_simulation P "\<lambda>_. True" "\<lambda>_. False" "raise L" for P L
proof
  show "turn P (raise L s) = Inr (map_sum id (raise L) r)" if "turn P s = Inr r" for s r
    using lifts_turn [of L P s] that by (simp add: raises_def)
qed simp

lemma run_raise:
  assumes "run P s \<noteq> Inl (Fault OutOfMeter)"
  shows "run P (raise L s) = run P s"
proof -
  obtain n t where t: "turns P s n t"
    and r: "case run P s of Inl e \<Rightarrow> turn P t = Inl e | Inr out \<Rightarrow> turn P t = Inr (Inl out)"
    using run_turns by blast
  have "run P (raise L s) = run P (raise L t)"
    using run_from [OF raised.turns_map [OF t]] by simp
  also have "\<dots> = run P s"
    using lifts_turn [of L P t] assms r
    by (cases "run P s") (auto simp: raises_def run.simps [of P "raise L t"])
  finally show ?thesis .
qed

section \<open>Starts under another limit\<close>

lemma open_entry_raise:
  assumes "open_entry c sel limit = Inr s" and "limit \<le> L"
  shows "open_entry c sel L = Inr (raise L s)"
proof -
  obtain e where e: "in_limits c" "filter (\<lambda>e. e_selector e = sel) (c_entries c) = [e]"
      "declared_slots (e_access e) \<le> MAX_ACCESS_SLOTS" "4 + 9 * length (c_code c) \<le> unat limit"
      "e_offset e |\<in>| boundaries (c_code c)" "s = entered c e limit"
    using assms(1) by (auto simp: open_entry_Inr_iff)
  have "raise L s = entered c e L"
    using e(6) assms(2) by (simp add: entered_def new_interp_def raise_def max_def)
  moreover have "unat limit \<le> unat L"
    using assms(2) by (simp add: word_le_nat_alt)
  ultimately show ?thesis
    unfolding open_entry_Inr_iff using e by (intro exI [of _ e]) auto
qed

lemma for_entry_raise:
  "for_entry P c sel limit = Inr s \<Longrightarrow> limit \<le> L \<Longrightarrow> for_entry P c sel L = Inr (raise L s)"
  using open_entry_raise by (auto simp: for_entry_def split: if_splits)

lemma hosted_raise: "hosted st f data (raise L s) = raise L (hosted st f data s)"
  by (simp add: hosted_def with_memory_def with_storage_loader_def with_storage_def Let_def raise_def)

section \<open>Property\<close>

text \<open>C13. A higher limit changes no result but running out of meter: an entry that opens under a
  limit opens under every higher one, whatever its run does, and where its run on a host's storage,
  loader and memory does not run out of meter, the run under the higher limit has the same result,
  outcome and meter or fault.\<close>

theorem limit_monotone:
  assumes "for_entry P c sel limit = Inr s" and "limit \<le> L"
  shows "\<exists>s'. for_entry P c sel L = Inr s' \<and> meter_limit s' = L \<and>
     (\<forall>st f data. run P (hosted st f data s) \<noteq> Inl (Fault OutOfMeter) \<longrightarrow>
        run P (hosted st f data s') = run P (hosted st f data s))"
proof -
  obtain limit_s where "meter_limit s = limit_s" "limit_s = limit"
    using assms(1) by (auto simp: for_entry_def open_entry_Inr_iff entered_def new_interp_def split: if_splits)
  then have "meter_limit (raise L s) = L"
    using assms(2) by (simp add: max_def)
  then show ?thesis
    using for_entry_raise [OF assms] run_raise [of P _ L] by (auto simp: hosted_raise)
qed

lemma limit_monotone_witness:
  "\<exists>s'. for_entry sample_prims sample_container [1, 2, 3, 4] 5000 = Inr s' \<and> meter_limit s' = 5000 \<and>
     run sample_prims (hosted fmempty (\<lambda>_. 0) (scalar_key 2) s') = Inr sample_out"
proof -
  have "for_entry sample_prims sample_container [1, 2, 3, 4] 1000 =
      Inr (entered sample_container (hd (c_entries sample_container)) 1000)"
    using sample_open by (simp add: for_entry_def sample_selector)
  from limit_monotone [OF this, of 5000] sample_run show ?thesis
    by (fastforce simp flip: sample_start_def)
qed

end
