(* ===== verification/History.thy ===== *)
theory History
  imports Samples "HOL-Library.Sublist"
begin

text \<open>
  What a run has recorded for the host stays recorded: effects are only appended, dirty and authorised
  slots only added, a fetched slot keeps its value and the meter does not go back.
\<close>

section \<open>Records that grow\<close>

definition extends :: "interp \<Rightarrow> interp \<Rightarrow> bool" where
  "extends s t \<longleftrightarrow>
     unat (meter_used s) \<le> unat (meter_used t) \<and> prefix (effects s) (effects t) \<and> dirty s |\<subseteq>| dirty t \<and>
     durable_targets s |\<subseteq>| durable_targets t \<and> fresh_charged s |\<subseteq>| fresh_charged t \<and>
     keyed_authorized_reads s |\<subseteq>| keyed_authorized_reads t \<and>
     keyed_authorized_writes s |\<subseteq>| keyed_authorized_writes t \<and>
     (\<forall>key v. fmlookup (loaded s) key = Some v \<longrightarrow> fmlookup (loaded t) key = Some v) \<and>
     (\<forall>key. key |\<notin>| dirty t \<longrightarrow> fmlookup (storage t) key = fmlookup (storage s) key)"

lemma extends_refl [simp]: "extends s s"
  by (simp add: extends_def)

lemma extends_trans: "extends s t \<Longrightarrow> extends t u \<Longrightarrow> extends s u"
  unfolding extends_def by (auto dest: prefix_order.order_trans)

lemma extends_plain: "plain_step s s' \<Longrightarrow> extends s s'"
  by (auto simp: plain_step_def extends_def)

lemma fetched_keeps: "fmlookup (loaded s) key = Some v \<Longrightarrow> fmlookup (fetched s k) key = Some v"
  by (auto simp: fetched_def split: option.split)

lemma extends_sload: "exec_sload s d a = Inr (st, s') \<Longrightarrow> extends s s'"
  by (auto simp: exec_sload_Inr_iff extends_def fetched_keeps)

lemma extends_sstore: "exec_sstore s a b = Inr (st, s') \<Longrightarrow> extends s s'"
  by (auto simp: exec_sstore_Inr_iff extends_def fetched_keeps store_charged_def dest!: charge_store_InrD)

lemma extends_send: "exec_send s a b c = Inr (st, s') \<Longrightarrow> extends s s'"
  by (erule exec_send_InrD) (auto simp: extends_def)

lemma extends_emit: "exec_emit s a b c = Inr (st, s') \<Longrightarrow> extends s s'"
  by (erule exec_emit_InrD) (auto simp: extends_def split: option.splits)

lemma extends_tainted: "tainted w key s s' \<Longrightarrow> extends s s'"
  by (auto simp: tainted_def extends_def)

lemma extends_hash: "exec_hash P s a b c = Inr (st, s') \<Longrightarrow> extends s s'"
proof (erule exec_hash_InrD)
  fix p n out m u
  let ?s = "s\<lparr>meter_used := u, machine := m\<rparr>"
  assume "unat u = unat (meter_used s) + unat (hash_variable n)"
    and t: "taint_keyed_from_hash
       (if n \<ge> 8 then map_option from_be (mem_region (machine s) p 8) else None) out ?s = Inr s'"
  then have "extends s ?s"
    by (simp add: extends_def)
  moreover have "extends ?s s'"
    using t by (rule taint_keyed_InrD) (auto intro: extends_tainted)
  ultimately show ?thesis
    by (rule extends_trans)
qed

interpretation history: host_invariant P "extends t" for P t
  by unfold_locales (blast intro: extends_trans extends_plain extends_sload extends_sstore extends_send extends_emit
      extends_hash)+

section \<open>Property\<close>

text \<open>C39. The records of a run only grow: from every turn to every later one effects are appended and
  never changed, dirty slots, durable targets and authorised keys are added and never dropped, a fetched
  slot keeps its value, a slot that is not dirty keeps what it stores, and the meter does not go back; a
  successful outcome reports at least what any turn has recorded.\<close>

theorem records_grow:
  assumes "host_start P s" and "turns P s m t" and "turns P t n u"
  shows "extends t u \<and>
    (\<forall>out. run P s = Inr out \<longrightarrow>
       meter_used u \<le> o_meter_used out \<and> prefix (effects u) (o_effects out) \<and> dirty u |\<subseteq>| o_dirty out)"
proof -
  have "wf_interp s"
    using host_start_fresh [OF assms(1)] by (simp add: fresh_start_def)
  then have t: "wf_interp t"
    using shape.turns_keep [OF assms(2)] by blast
  then have u: "wf_interp u" "extends t u"
    using history.turns_keep [OF assms(3), of t] by simp_all
  have "meter_used u \<le> o_meter_used out \<and> prefix (effects u) (o_effects out) \<and> dirty u |\<subseteq>| o_dirty out"
    if out: "run P s = Inr out" for out
  proof -
    have "run P u = Inr out"
      using out run_from [OF assms(2)] run_from [OF assms(3)] by simp
    then obtain v where "extends u v" "out = outcome_of v"
      using history.outcome_keeps [of u u P out] u(1) by auto
    then show ?thesis
      by (simp add: extends_def outcome_of_def word_le_nat_alt)
  qed
  then show ?thesis
    using u(2) by blast
qed

lemma records_grow_witness:
  "extends at_store at_halt \<and> dirty at_halt |\<subseteq>| o_dirty sample_out"
  using records_grow [OF sample_host sample_turns(1), of 1 at_halt] sample_turn_3 sample_run
  by (auto intro: turns.intros)

end
