(* ===== verification/Asm.thy ===== *)
theory Asm
  imports Listing
begin

text \<open>
  \<open>crates/qtv-vm/src/asm.rs\<close>: the assembler of the text syntax.  A Rust \<open>&str\<close> is a
  \<open>string\<close> whose characters are code points below 256; the string functions of the standard
  library that the assembler calls are written out for them.  \<open>usize\<close> has 64 bits, line
  numbers are \<open>nat\<close>, the label table is a map.  The assembler makes two passes, one to place the
  labels and one to encode; the theorems say that the two agree.
\<close>

section \<open>Strings of the standard library\<close>

text \<open>\<open>char::is_whitespace\<close>, \<open>char::is_ascii_digit\<close> and \<open>str::to_ascii_uppercase\<close>.\<close>

definition is_whitespace :: "char \<Rightarrow> bool" where
  "is_whitespace c \<longleftrightarrow> (of_char c :: nat) \<in> {9, 10, 11, 12, 13, 32, 0x85, 0xA0}"

definition is_ascii_digit :: "char \<Rightarrow> bool" where
  "is_ascii_digit c \<longleftrightarrow> (48 :: nat) \<le> of_char c \<and> (of_char c :: nat) \<le> 57"

definition upper :: "char \<Rightarrow> char" where
  "upper c = (if (97 :: nat) \<le> of_char c \<and> (of_char c :: nat) \<le> 122
              then char_of (of_char c - 32 :: nat) else c)"

definition to_ascii_uppercase :: "string \<Rightarrow> string" where
  "to_ascii_uppercase = map upper"

text \<open>\<open>str::trim\<close> and \<open>str::split_whitespace\<close>.\<close>

definition trim :: "string \<Rightarrow> string" where
  "trim s = rev (dropWhile is_whitespace (rev (dropWhile is_whitespace s)))"

fun fields :: "string \<Rightarrow> string list" where
  "fields [] = [[]]"
| "fields (c # cs) =
     (if is_whitespace c then [] # fields cs
      else (case fields cs of f # fs \<Rightarrow> (c # f) # fs | [] \<Rightarrow> [[c]]))"

definition split_whitespace :: "string \<Rightarrow> string list" where
  "split_whitespace s = filter (\<lambda>f. f \<noteq> []) (fields s)"

text \<open>\<open>str::lines\<close>: pieces ended by a newline, without it and without a carriage return before it.\<close>

abbreviation newline :: char where
  "newline \<equiv> CHR 0x0A"

fun split_inclusive :: "string \<Rightarrow> string list" where
  "split_inclusive [] = []"
| "split_inclusive (c # cs) =
     (if c = newline then [c] # split_inclusive cs
      else (case split_inclusive cs of l # ls \<Rightarrow> (c # l) # ls | [] \<Rightarrow> [[c]]))"

definition strip_suffix :: "string \<Rightarrow> char \<Rightarrow> string option" where
  "strip_suffix s c = (if s \<noteq> [] \<and> last s = c then Some (butlast s) else None)"

definition chomp :: "string \<Rightarrow> string" where
  "chomp l =
     (case strip_suffix l newline of
        None \<Rightarrow> l
      | Some l \<Rightarrow> (case strip_suffix l (CHR 0x0D) of None \<Rightarrow> l | Some l \<Rightarrow> l))"

definition lines :: "string \<Rightarrow> string list" where
  "lines src = map chomp (split_inclusive src)"

text \<open>
  \<open>str::parse\<close> at an unsigned type: an optional plus sign, then one or more digits whose
  value fits the type.
\<close>

definition to_digit :: "char \<Rightarrow> 'a::len word option" where
  "to_digit c = (if is_ascii_digit c then Some (of_nat (of_char c - 48)) else None)"

fun parse_digits :: "'a::len word \<Rightarrow> string \<Rightarrow> 'a word option" where
  "parse_digits acc [] = Some acc"
| "parse_digits acc (c # cs) =
     Option.bind (to_digit c) (\<lambda>x.
     Option.bind (checked_mul acc 10) (\<lambda>acc.
     Option.bind (checked_add acc x) (\<lambda>acc.
       parse_digits acc cs)))"

definition parse_unsigned :: "string \<Rightarrow> 'a::len word option" where
  "parse_unsigned s =
     (case s of
        [] \<Rightarrow> None
      | c # cs \<Rightarrow> if c = CHR ''+'' then (if cs = [] then None else parse_digits 0 cs) else parse_digits 0 s)"

section \<open>Operands\<close>

datatype AsmError =
    UnknownMnemonic nat string
  | WrongOperands nat string
  | BadRegisterAt nat string
  | BadNumber nat string
  | UnknownLabel nat string
  | DuplicateLabel nat string
  | ProgramTooLarge nat

definition strip_prefix :: "string \<Rightarrow> char \<Rightarrow> string option" where
  "strip_prefix s c = (case s of [] \<Rightarrow> None | x # xs \<Rightarrow> if x = c then Some xs else None)"

definition reg_tok :: "nat \<Rightarrow> string \<Rightarrow> AsmError + Reg" where
  "reg_tok no tok =
     (case (case strip_prefix tok (CHR ''r'') of Some rest \<Rightarrow> Some rest | None \<Rightarrow> strip_prefix tok (CHR ''R'')) of
        None \<Rightarrow> Inl (BadRegisterAt no tok)
      | Some rest \<Rightarrow>
          (case (parse_unsigned rest :: u64 option) of
             None \<Rightarrow> Inl (BadRegisterAt no tok)
           | Some idx \<Rightarrow> if unat idx \<ge> NUM_REGS then Inl (BadRegisterAt no tok) else Inr (ucast idx)))"

definition num_u64 :: "nat \<Rightarrow> string \<Rightarrow> AsmError + u64" where
  "num_u64 no tok = (case parse_unsigned tok of None \<Rightarrow> Inl (BadNumber no tok) | Some v \<Rightarrow> Inr v)"

definition num_u16 :: "nat \<Rightarrow> string \<Rightarrow> AsmError + u16" where
  "num_u16 no tok =
     bindE (num_u64 no tok) (\<lambda>v. if unat v < 2 ^ 16 then Inr (ucast v) else Inl (BadNumber no tok))"

definition target_tok :: "nat \<Rightarrow> string \<Rightarrow> (string \<rightharpoonup> u32) \<Rightarrow> bool \<Rightarrow> AsmError + u32" where
  "target_tok no tok labels allow_unknown =
     (case tok of
        [] \<Rightarrow> Inl (BadNumber no tok)
      | first # _ \<Rightarrow>
          if is_ascii_digit first then
            bindE (num_u64 no tok) (\<lambda>v. if unat v < 2 ^ 32 then Inr (ucast v) else Inl (BadNumber no tok))
          else
            (case labels tok of
               Some off \<Rightarrow> Inr off
             | None \<Rightarrow> if allow_unknown then Inr 0 else Inl (UnknownLabel no tok)))"

section \<open>Instructions\<close>

text \<open>The enumeration \<open>Triple\<close>, each constructor with a prefix.\<close>

datatype (plugins only: code size) Triple =
    TAdd | TSub | TMul | TDiv | TRem | TAddW | TSubW | TMulW | TMulHi | TAnd | TOr | TXor
    | TShl | TShr | TEq | TLtU | TGtU | TSend | TEmit | THash | TVerifyMl | TVerifySlh
    | TMerkleVerify | TAddr

primrec triple_instr :: "Triple \<Rightarrow> Reg \<Rightarrow> Reg \<Rightarrow> Reg \<Rightarrow> Instr" where
  "triple_instr TAdd d a b = Add d a b"
| "triple_instr TSub d a b = Sub d a b"
| "triple_instr TMul d a b = Mul d a b"
| "triple_instr TDiv d a b = Div d a b"
| "triple_instr TRem d a b = Rem d a b"
| "triple_instr TAddW d a b = AddW d a b"
| "triple_instr TSubW d a b = SubW d a b"
| "triple_instr TMulW d a b = MulW d a b"
| "triple_instr TMulHi d a b = MulHi d a b"
| "triple_instr TAnd d a b = And d a b"
| "triple_instr TOr d a b = Or d a b"
| "triple_instr TXor d a b = Xor d a b"
| "triple_instr TShl d a b = Shl d a b"
| "triple_instr TShr d a b = Shr d a b"
| "triple_instr TEq d a b = Eq d a b"
| "triple_instr TLtU d a b = LtU d a b"
| "triple_instr TGtU d a b = GtU d a b"
| "triple_instr TSend d a b = Send d a b"
| "triple_instr TEmit d a b = Emit d a b"
| "triple_instr THash d a b = Hash d a b"
| "triple_instr TVerifyMl d a b = VerifyMl d a b"
| "triple_instr TVerifySlh d a b = VerifySlh d a b"
| "triple_instr TMerkleVerify d a b = MerkleVerify d a b"
| "triple_instr TAddr d a b = Addr d a b"

definition triple :: "nat \<Rightarrow> string list \<Rightarrow> Triple \<Rightarrow> AsmError + Instr" where
  "triple no ops kind =
     bindE (reg_tok no (ops ! 0)) (\<lambda>d.
     bindE (reg_tok no (ops ! 1)) (\<lambda>a.
     bindE (reg_tok no (ops ! 2)) (\<lambda>b.
       Inr (triple_instr kind d a b))))"

definition want :: "nat \<Rightarrow> string \<Rightarrow> string list \<Rightarrow> nat \<Rightarrow> AsmError + unit" where
  "want no content ops n = (if length ops = n then Inr () else Inl (WrongOperands no content))"

text \<open>The two arms with six operands, the arms with one and two registers, and the jumps.\<close>

definition six_regs ::
  "nat \<Rightarrow> string list \<Rightarrow> (Reg \<Rightarrow> Reg \<Rightarrow> Reg \<Rightarrow> Reg \<Rightarrow> Reg \<Rightarrow> Reg \<Rightarrow> Instr) \<Rightarrow> AsmError + Instr" where
  "six_regs no ops f =
     bindE (reg_tok no (ops ! 0)) (\<lambda>dlo.
     bindE (reg_tok no (ops ! 1)) (\<lambda>dhi.
     bindE (reg_tok no (ops ! 2)) (\<lambda>alo.
     bindE (reg_tok no (ops ! 3)) (\<lambda>ahi.
     bindE (reg_tok no (ops ! 4)) (\<lambda>blo.
     bindE (reg_tok no (ops ! 5)) (\<lambda>bhi.
       Inr (f dlo dhi alo ahi blo bhi)))))))"

definition one_reg :: "nat \<Rightarrow> string list \<Rightarrow> (Reg \<Rightarrow> Instr) \<Rightarrow> AsmError + Instr" where
  "one_reg no ops f = bindE (reg_tok no (ops ! 0)) (\<lambda>a. Inr (f a))"

definition two_regs :: "nat \<Rightarrow> string list \<Rightarrow> (Reg \<Rightarrow> Reg \<Rightarrow> Instr) \<Rightarrow> AsmError + Instr" where
  "two_regs no ops f =
     bindE (reg_tok no (ops ! 0)) (\<lambda>d. bindE (reg_tok no (ops ! 1)) (\<lambda>a. Inr (f d a)))"

definition one_target :: "string list \<Rightarrow> (string \<Rightarrow> AsmError + u32) \<Rightarrow> (u32 \<Rightarrow> Instr) \<Rightarrow> AsmError + Instr" where
  "one_target ops tgt f = bindE (tgt (ops ! 0)) (\<lambda>t. Inr (f t))"

definition reg_target ::
  "nat \<Rightarrow> string list \<Rightarrow> (string \<Rightarrow> AsmError + u32) \<Rightarrow> (Reg \<Rightarrow> u32 \<Rightarrow> Instr) \<Rightarrow> AsmError + Instr" where
  "reg_target no ops tgt f = bindE (reg_tok no (ops ! 0)) (\<lambda>a. bindE (tgt (ops ! 1)) (\<lambda>t. Inr (f a t)))"

definition parse_instr ::
  "nat \<Rightarrow> string \<Rightarrow> (string \<rightharpoonup> u32) \<Rightarrow> bool \<Rightarrow> AsmError + Instr" where
  "parse_instr no content labels allow_unknown =
     (let normalized = map (\<lambda>c. if c = CHR '','' then CHR '' '' else c) content in
      case split_whitespace normalized of
        [] \<Rightarrow> Inl (UnknownMnemonic no content)
      | part # ops \<Rightarrow>
          let mnemonic = to_ascii_uppercase part;
              tgt = (\<lambda>tok. target_tok no tok labels allow_unknown);
              w = want no content ops in
          if mnemonic = ''HALT'' then bindE (w 0) (\<lambda>_. Inr Halt) else
          if mnemonic = ''NOP'' then bindE (w 0) (\<lambda>_. Inr Nop) else
          if mnemonic = ''RET'' then bindE (w 0) (\<lambda>_. Inr Ret) else
          if mnemonic = ''MOV'' then bindE (w 2) (\<lambda>_. two_regs no ops Mov) else
          if mnemonic = ''LDI'' then bindE (w 2) (\<lambda>_. bindE (reg_tok no (ops ! 0)) (\<lambda>d. bindE (num_u64 no (ops ! 1)) (\<lambda>imm. Inr (Ldi d imm)))) else
          if mnemonic = ''LDC'' then bindE (w 2) (\<lambda>_. bindE (reg_tok no (ops ! 0)) (\<lambda>d. bindE (num_u16 no (ops ! 1)) (\<lambda>idx. Inr (Ldc d idx)))) else
          if mnemonic = ''ADD'' then bindE (w 3) (\<lambda>_. triple no ops TAdd) else
          if mnemonic = ''SUB'' then bindE (w 3) (\<lambda>_. triple no ops TSub) else
          if mnemonic = ''MUL'' then bindE (w 3) (\<lambda>_. triple no ops TMul) else
          if mnemonic = ''DIV'' then bindE (w 3) (\<lambda>_. triple no ops TDiv) else
          if mnemonic = ''REM'' then bindE (w 3) (\<lambda>_. triple no ops TRem) else
          if mnemonic = ''ADDW'' then bindE (w 3) (\<lambda>_. triple no ops TAddW) else
          if mnemonic = ''SUBW'' then bindE (w 3) (\<lambda>_. triple no ops TSubW) else
          if mnemonic = ''MULW'' then bindE (w 3) (\<lambda>_. triple no ops TMulW) else
          if mnemonic = ''MULHI'' then bindE (w 3) (\<lambda>_. triple no ops TMulHi) else
          if mnemonic = ''DIVW'' \<or> mnemonic = ''REMW'' then
            bindE (w 6) (\<lambda>_. six_regs no ops (if mnemonic = ''DIVW'' then DivW else RemW)) else
          if mnemonic = ''AND'' then bindE (w 3) (\<lambda>_. triple no ops TAnd) else
          if mnemonic = ''OR'' then bindE (w 3) (\<lambda>_. triple no ops TOr) else
          if mnemonic = ''XOR'' then bindE (w 3) (\<lambda>_. triple no ops TXor) else
          if mnemonic = ''SHL'' then bindE (w 3) (\<lambda>_. triple no ops TShl) else
          if mnemonic = ''SHR'' then bindE (w 3) (\<lambda>_. triple no ops TShr) else
          if mnemonic = ''EQ'' then bindE (w 3) (\<lambda>_. triple no ops TEq) else
          if mnemonic = ''LTU'' then bindE (w 3) (\<lambda>_. triple no ops TLtU) else
          if mnemonic = ''GTU'' then bindE (w 3) (\<lambda>_. triple no ops TGtU) else
          if mnemonic = ''SEND'' then bindE (w 3) (\<lambda>_. triple no ops TSend) else
          if mnemonic = ''EMIT'' then bindE (w 3) (\<lambda>_. triple no ops TEmit) else
          if mnemonic = ''HASH'' then bindE (w 3) (\<lambda>_. triple no ops THash) else
          if mnemonic = ''VERIFYML'' then bindE (w 3) (\<lambda>_. triple no ops TVerifyMl) else
          if mnemonic = ''VERIFYSLH'' then bindE (w 3) (\<lambda>_. triple no ops TVerifySlh) else
          if mnemonic = ''MERKLEVERIFY'' then bindE (w 3) (\<lambda>_. triple no ops TMerkleVerify) else
          if mnemonic = ''ADDR'' then bindE (w 3) (\<lambda>_. triple no ops TAddr) else
          if mnemonic = ''NOT'' then bindE (w 2) (\<lambda>_. two_regs no ops NotW) else
          if mnemonic = ''PUSH'' then bindE (w 1) (\<lambda>_. one_reg no ops Push) else
          if mnemonic = ''POP'' then bindE (w 1) (\<lambda>_. one_reg no ops Pop) else
          if mnemonic = ''MLOAD'' then bindE (w 2) (\<lambda>_. two_regs no ops MLoad) else
          if mnemonic = ''MSTORE'' then bindE (w 2) (\<lambda>_. two_regs no ops MStore) else
          if mnemonic = ''SLOAD'' then bindE (w 2) (\<lambda>_. two_regs no ops SLoad) else
          if mnemonic = ''SSTORE'' then bindE (w 2) (\<lambda>_. two_regs no ops SStore) else
          if mnemonic = ''JMP'' then bindE (w 1) (\<lambda>_. one_target ops tgt Jmp) else
          if mnemonic = ''CALL'' then bindE (w 1) (\<lambda>_. one_target ops tgt Call) else
          if mnemonic = ''JZ'' then bindE (w 2) (\<lambda>_. reg_target no ops tgt Jz) else
          if mnemonic = ''JNZ'' then bindE (w 2) (\<lambda>_. reg_target no ops tgt Jnz) else
          Inl (UnknownMnemonic no mnemonic))"

section \<open>The two passes\<close>

definition logical_lines :: "string \<Rightarrow> (nat \<times> string) list" where
  "logical_lines src =
     filter (\<lambda>(_, t). t \<noteq> [])
       (map (\<lambda>(i, raw). (i + 1, trim (takeWhile (\<lambda>c. c \<noteq> CHR ''#'') raw)))
         (enumerate 0 (lines src)))"

text \<open>The first loop: labels placed so far and the offset of the next instruction.\<close>

fun place_labels ::
  "(nat \<times> string) list \<Rightarrow> (string \<rightharpoonup> u32) \<Rightarrow> u32 \<Rightarrow> AsmError + (string \<rightharpoonup> u32)" where
  "place_labels [] labels offset = Inr labels"
| "place_labels ((no, content) # ls) labels offset =
     (case strip_suffix content (CHR '':'') of
        Some name \<Rightarrow>
          let name = trim name in
          if labels name \<noteq> None then Inl (DuplicateLabel no name)
          else place_labels ls (labels(name \<mapsto> offset)) offset
      | None \<Rightarrow>
          bindE (parse_instr no content labels True) (\<lambda>instr.
          let len = of_nat (encoded_len instr) in
          case checked_add offset len of
            None \<Rightarrow> Inl (ProgramTooLarge no)
          | Some offset \<Rightarrow> place_labels ls labels offset))"

fun emit_code :: "(nat \<times> string) list \<Rightarrow> (string \<rightharpoonup> u32) \<Rightarrow> bytes \<Rightarrow> AsmError + bytes" where
  "emit_code [] labels out = Inr out"
| "emit_code ((no, content) # ls) labels out =
     (if strip_suffix content (CHR '':'') \<noteq> None then emit_code ls labels out
      else
        bindE (parse_instr no content labels False) (\<lambda>instr.
          emit_code ls labels (out @ encode instr)))"

definition assemble :: "string \<Rightarrow> AsmError + bytes" where
  "assemble src =
     (let ls = logical_lines src in
      bindE (place_labels ls Map.empty 0) (\<lambda>labels. emit_code ls labels []))"

end
