(* ===== verification/AsmPasses.thy ===== *)
theory AsmPasses
  imports Asm
begin

text \<open>
  The two passes of the assembler: what a parse gives, the specification \<open>laid_out\<close> of a program
  under a table of labels, and the proof that the passes compute exactly that.
\<close>

section \<open>What a parse gives\<close>

lemma want_Inr_iff [simp]: "want no content ops n = Inr u \<longleftrightarrow> length ops = n"
  by (simp add: want_def)

lemma reg_tok_range: "reg_tok no tok = Inr r \<Longrightarrow> unat r < NUM_REGS"
proof -
  assume "reg_tok no tok = Inr r"
  then obtain idx :: u64 where "unat idx < NUM_REGS" "r = ucast idx"
    by (auto simp: reg_tok_def not_le split: option.splits if_splits)
  then show ?thesis
    by (simp add: unat_ucast_u8 NUM_REGS_def)
qed

lemma triple_Inr_iff:
  "triple no ops kind = Inr i \<longleftrightarrow>
     (\<exists>d a b. reg_tok no (ops ! 0) = Inr d \<and> reg_tok no (ops ! 1) = Inr a \<and>
        reg_tok no (ops ! 2) = Inr b \<and> i = triple_instr kind d a b)"
  by (auto simp: triple_def)

lemma six_regs_Inr_iff:
  "six_regs no ops f = Inr i \<longleftrightarrow>
     (\<exists>a b c d e g. reg_tok no (ops ! 0) = Inr a \<and> reg_tok no (ops ! 1) = Inr b \<and>
        reg_tok no (ops ! 2) = Inr c \<and> reg_tok no (ops ! 3) = Inr d \<and>
        reg_tok no (ops ! 4) = Inr e \<and> reg_tok no (ops ! 5) = Inr g \<and> i = f a b c d e g)"
  by (auto simp: six_regs_def)

lemma wf_triple: "unat d < NUM_REGS \<Longrightarrow> unat a < NUM_REGS \<Longrightarrow> unat b < NUM_REGS \<Longrightarrow> wf_instr (triple_instr k d a b)"
  by (cases k) (simp_all add: wf_instr_def)

definition good :: "AsmError + Instr \<Rightarrow> bool" where
  "good r = (case r of Inl _ \<Rightarrow> True | Inr i \<Rightarrow> wf_instr i)"

lemma good_simps [simp]: "good (Inl e)" "good (Inr i) = wf_instr i"
  by (simp_all add: good_def)

lemma good_bind: "(\<And>x. r = Inr x \<Longrightarrow> good (f x)) \<Longrightarrow> good (bindE r f)"
  by (cases r) simp_all

lemma good_if: "good x \<Longrightarrow> good y \<Longrightarrow> good (if b then x else y)"
  by simp

lemma parse_instr_good: "good (parse_instr no content labels unk)"
proof (cases "split_whitespace (map (\<lambda>c. if c = CHR '','' then CHR '' '' else c) content)")
  case (Cons part ops)
  show ?thesis
    unfolding parse_instr_def Let_def Cons list.case triple_def six_regs_def two_regs_def one_reg_def one_target_def reg_target_def
    by (intro good_if good_bind good_simps(1); simp add: wf_triple reg_tok_range wf_instr_def)
qed (simp add: parse_instr_def)

lemma parse_instr_wf: "parse_instr no content labels unk = Inr i \<Longrightarrow> wf_instr i"
  using parse_instr_good [of no content labels unk] by simp

section \<open>The two passes agree\<close>

text \<open>What succeeds with the final labels succeeds in the first pass, at the same length.\<close>

definition same_len :: "AsmError + Instr \<Rightarrow> AsmError + Instr \<Rightarrow> bool" where
  "same_len r r' = (\<forall>i'. r' = Inr i' \<longrightarrow> (\<exists>i. r = Inr i \<and> encoded_len i = encoded_len i'))"

lemma same_len_refl [simp]: "same_len r r"
  by (simp add: same_len_def)

lemma same_len_if: "same_len x x' \<Longrightarrow> same_len y y' \<Longrightarrow> same_len (if b then x else y) (if b then x' else y')"
  by simp

lemma same_len_bind: "(\<And>x. same_len (f x) (g x)) \<Longrightarrow> same_len (bindE r f) (bindE r g)"
  by (cases r) simp_all

lemma same_len_target:
  assumes "\<And>x y. same_len (f x) (g y)"
  shows "same_len (bindE (target_tok no tok labels True) f) (bindE (target_tok no tok labels' False) g)"
proof -
  have "\<exists>x. target_tok no tok labels True = Inr x" if "target_tok no tok labels' False = Inr y" for y
    using that by (cases "labels tok") (auto simp: target_tok_def split: list.splits if_splits option.splits)
  then show ?thesis
    using assms by (cases "target_tok no tok labels' False") (fastforce simp: same_len_def)+
qed

lemma same_len_jumps:
  "same_len (Inr (Jmp t)) (Inr (Jmp t'))" "same_len (Inr (Call t)) (Inr (Call t'))"
  "same_len (Inr (Jz a t)) (Inr (Jz a t'))" "same_len (Inr (Jnz a t)) (Inr (Jnz a t'))"
  by (simp_all add: same_len_def encoded_len_def encode_def)

lemma parse_instr_same_len:
  "same_len (parse_instr no content labels True) (parse_instr no content labels' False)"
proof (cases "split_whitespace (map (\<lambda>c. if c = CHR '','' then CHR '' '' else c) content)")
  case (Cons part ops)
  show ?thesis
    unfolding parse_instr_def Let_def Cons list.case one_target_def reg_target_def
    by (intro same_len_if same_len_refl same_len_jumps same_len_target same_len_bind)
qed (simp add: parse_instr_def)

lemma parse_instr_lens:
  assumes "parse_instr no content labels' False = Inr i"
  obtains i0 where "parse_instr no content labels True = Inr i0" "encoded_len i0 = encoded_len i"
  using parse_instr_same_len [of no content labels labels'] assms by (auto simp: same_len_def)

section \<open>The placement of labels\<close>

definition label_of :: "string \<Rightarrow> string option" where
  "label_of content = map_option trim (strip_suffix content (CHR '':''))"

fun label_names :: "(nat \<times> string) list \<Rightarrow> string list" where
  "label_names [] = []"
| "label_names ((_, content) # ls) =
     (case label_of content of None \<Rightarrow> label_names ls | Some name \<Rightarrow> name # label_names ls)"

text \<open>
  The specification: under one table of labels every line that is not a label parses to the
  next instruction of the program, and every label stands at the offset of what follows it.
\<close>

fun laid_out :: "(string \<rightharpoonup> u32) \<Rightarrow> nat \<Rightarrow> (nat \<times> string) list \<Rightarrow> Instr list \<Rightarrow> bool" where
  "laid_out labels off [] is \<longleftrightarrow> is = []"
| "laid_out labels off ((no, content) # ls) is \<longleftrightarrow>
     (case label_of content of
        Some name \<Rightarrow> labels name = Some (of_nat off) \<and> laid_out labels off ls is
      | None \<Rightarrow>
          (case is of
             [] \<Rightarrow> False
           | i # js \<Rightarrow> parse_instr no content labels False = Inr i \<and>
               laid_out labels (off + encoded_len i) ls js))"

lemma label_of_iffs:
  "strip_suffix content (CHR '':'') = None \<longleftrightarrow> label_of content = None"
  by (simp add: label_of_def)

lemma place_labels_Cons:
  "place_labels ((no, content) # ls) labels off =
     (case label_of content of
        Some name \<Rightarrow>
          if labels name \<noteq> None then Inl (DuplicateLabel no name)
          else place_labels ls (labels(name \<mapsto> off)) off
      | None \<Rightarrow>
          bindE (parse_instr no content labels True) (\<lambda>i.
          case checked_add off (of_nat (encoded_len i)) of
            None \<Rightarrow> Inl (ProgramTooLarge no)
          | Some off \<Rightarrow> place_labels ls labels off))"
  by (simp add: label_of_def Let_def split: option.split)

lemma emit_code_Cons:
  "emit_code ((no, content) # ls) labels out =
     (case label_of content of
        Some _ \<Rightarrow> emit_code ls labels out
      | None \<Rightarrow> bindE (parse_instr no content labels False) (\<lambda>i. emit_code ls labels (out @ encode i)))"
  by (simp add: label_of_def split: option.split)

declare place_labels.simps(2) [simp del] emit_code.simps(2) [simp del]

lemma checked_add_len:
  "checked_add (off :: u32) (of_nat (encoded_len i)) = Some off' \<longleftrightarrow>
     unat off' = unat off + encoded_len i"
proof -
  have "unat (of_nat (encoded_len i) :: u32) = encoded_len i"
    using encoded_len_le [of i] by (simp add: unsigned_of_nat take_bit_nat_eq_self)
  then show ?thesis
    by (simp add: checked_add_Some_iff)
qed

definition extends :: "(string \<rightharpoonup> u32) \<Rightarrow> string list \<Rightarrow> (string \<rightharpoonup> u32) \<Rightarrow> bool" where
  "extends l0 names l \<longleftrightarrow> distinct names \<and>
     (\<forall>n. if n \<in> set names then l0 n = None \<and> l n \<noteq> None else l n = l0 n)"

lemma extends_Nil [simp]: "extends l0 [] l \<longleftrightarrow> l = l0"
  by (auto simp: extends_def)

lemma extends_Cons:
  "extends l0 (n # ns) l \<longleftrightarrow> l0 n = None \<and> (\<exists>v. l n = Some v \<and> extends (l0(n \<mapsto> v)) ns l)"
  unfolding extends_def by (cases "l n") (auto split: if_splits)

lemma extends_empty: "extends Map.empty names l \<longleftrightarrow> distinct names \<and> dom l = set names"
  unfolding extends_def dom_def set_eq_iff by (metis (mono_tags, lifting) mem_Collect_eq)

lemma extends_label: "extends l0 names l \<Longrightarrow> l0 n = Some v \<Longrightarrow> l n = Some v"
  unfolding extends_def by (metis option.distinct(1))

lemma passes_sound:
  "place_labels ls l0 off = Inr labels \<Longrightarrow> emit_code ls labels out = Inr cd \<Longrightarrow>
     \<exists>is. laid_out labels (unat off) ls is \<and> extends l0 (label_names ls) labels \<and>
       cd = out @ bytes_of is \<and> unat off + length (bytes_of is) < 2 ^ 32"
proof (induction ls arbitrary: l0 off out)
  case Nil
  then show ?case
    using unat_bound [of off] by simp
next
  case (Cons l ls)
  obtain no content where l: "l = (no, content)"
    by (cases l)
  show ?case
  proof (cases "label_of content")
    case (Some name)
    then have "l0 name = None" and place: "place_labels ls (l0(name \<mapsto> off)) off = Inr labels"
        and emit: "emit_code ls labels out = Inr cd"
      using Cons.prems by (simp_all add: l place_labels_Cons emit_code_Cons split: if_splits)
    obtain "is" where "is": "laid_out labels (unat off) ls is" "cd = out @ bytes_of is"
        "unat off + length (bytes_of is) < 2 ^ 32"
      and e: "extends (l0(name \<mapsto> off)) (label_names ls) labels"
      using Cons.IH [OF place emit] by blast
    have "labels name = Some off"
      by (rule extends_label [OF e]) simp
    then show ?thesis
      using Some "is" e \<open>l0 name = None\<close>
      by (intro exI [of _ "is"]) (simp add: l extends_Cons del: fun_upd_apply)
  next
    case None
    then obtain i0 i off' where i0: "parse_instr no content l0 True = Inr i0"
        "checked_add off (of_nat (encoded_len i0)) = Some off'" "place_labels ls l0 off' = Inr labels"
      and i: "parse_instr no content labels False = Inr i" "emit_code ls labels (out @ encode i) = Inr cd"
      using Cons.prems by (auto simp: l place_labels_Cons emit_code_Cons split: option.splits)
    have len: "encoded_len i0 = encoded_len i"
      using i0(1) parse_instr_lens [OF i(1), of l0] by auto
    obtain "is" where "laid_out labels (unat off') ls is" "extends l0 (label_names ls) labels"
        "cd = (out @ encode i) @ bytes_of is" "unat off' + length (bytes_of is) < 2 ^ 32"
      using Cons.IH [OF i0(3) i(2)] by blast
    moreover have "unat off' = unat off + encoded_len i"
      using i0(2) by (simp add: checked_add_len len)
    ultimately show ?thesis
      using i(1) None by (intro exI [of _ "i # is"]) (simp add: l encoded_len_def)
  qed
qed

lemma passes_complete:
  "laid_out labels (unat off) ls is \<Longrightarrow> extends l0 (label_names ls) labels \<Longrightarrow>
     unat off + length (bytes_of is) < 2 ^ 32 \<Longrightarrow>
     place_labels ls l0 off = Inr labels \<and> emit_code ls labels out = Inr (out @ bytes_of is)"
proof (induction ls arbitrary: l0 off out "is")
  case Nil
  then show ?case
    by simp
next
  case (Cons l ls)
  obtain no content where l: "l = (no, content)"
    by (cases l)
  show ?case
  proof (cases "label_of content")
    case (Some name)
    then show ?thesis
      using Cons.IH [of off "is" "l0(name \<mapsto> off)" out] Cons.prems
      by (auto simp: l place_labels_Cons emit_code_Cons extends_Cons simp del: fun_upd_apply)
  next
    case None
    then obtain i js where i: "is = i # js" "parse_instr no content labels False = Inr i"
        "laid_out labels (unat off + encoded_len i) ls js"
      using Cons.prems by (auto simp: l split: list.splits)
    obtain i0 where i0: "parse_instr no content l0 True = Inr i0" "encoded_len i0 = encoded_len i"
      using parse_instr_lens [OF i(2)] .
    have fits: "unat off + encoded_len i + length (bytes_of js) < 2 ^ 32"
      using Cons.prems(3) i(1) by (simp add: encoded_len_def)
    define off' :: u32 where "off' = of_nat (unat off + encoded_len i)"
    have off': "unat off' = unat off + encoded_len i"
      using fits unfolding off'_def unsigned_of_nat by (simp add: take_bit_nat_eq_self del: of_nat_add)
    then have "checked_add off (of_nat (encoded_len i0)) = Some off'"
      by (simp add: checked_add_len i0(2))
    then show ?thesis
      using Cons.IH [of off' js l0 "out @ encode i"] Cons.prems(2) None i i0(1) fits off'
      by (simp add: l place_labels_Cons emit_code_Cons)
  qed
qed

lemma assemble_iff:
  "assemble src = Inr cd \<longleftrightarrow>
     (\<exists>labels is. distinct (label_names (logical_lines src)) \<and>
        dom labels = set (label_names (logical_lines src)) \<and>
        laid_out labels 0 (logical_lines src) is \<and> cd = bytes_of is \<and> length cd < 2 ^ 32)"
  (is "?l = (\<exists>labels is. ?r labels is)")
proof
  assume ?l
  then obtain labels where "place_labels (logical_lines src) Map.empty 0 = Inr labels"
      "emit_code (logical_lines src) labels [] = Inr cd"
    by (auto simp: assemble_def Let_def)
  from passes_sound [OF this] show "\<exists>labels is. ?r labels is"
    by (auto simp: extends_empty)
next
  assume "\<exists>labels is. ?r labels is"
  then obtain labels "is" where r: "?r labels is"
    by blast
  then have "extends Map.empty (label_names (logical_lines src)) labels"
    by (simp add: extends_empty)
  then show ?l
    using passes_complete [of labels 0 "logical_lines src" "is" Map.empty "[]"] r
    by (auto simp: assemble_def Let_def)
qed

end
