(* ===== verification/AsmText.thy ===== *)
theory AsmText
  imports AsmPasses
begin

text \<open>
  The printer of programs in the text syntax, which is specification here (the crate has none),
  and the proof that the assembler reads back what it prints.
\<close>

section \<open>Numerals\<close>

fun show_nat :: "nat \<Rightarrow> string" where
  "show_nat n = (if n < 10 then [char_of (48 + n)] else show_nat (n div 10) @ [char_of (48 + n mod 10)])"

declare show_nat.simps [simp del]

lemma of_char_digit: "d < 10 \<Longrightarrow> (of_char (char_of (48 + d)) :: nat) = 48 + d"
  by (simp add: of_char_of)

lemma to_digit_digit: "d < 10 \<Longrightarrow> to_digit (char_of (48 + d)) = Some (of_nat d :: 'a::len word)"
  by (simp add: to_digit_def is_ascii_digit_def of_char_digit)

lemma parse_digits_append:
  "parse_digits acc (xs @ ys) = Option.bind (parse_digits acc xs) (\<lambda>acc. parse_digits acc ys)"
proof (induction xs arbitrary: acc)
  case (Cons x xs)
  then show ?case
    by (cases "to_digit x :: 'a word option"; cases "checked_mul acc 10") (auto split: bind_splits)
qed simp

lemma unat_of_nat_small: "k < 2 ^ LENGTH('a) \<Longrightarrow> unat (of_nat k :: 'a::len word) = k"
  unfolding unsigned_of_nat by (simp add: take_bit_nat_eq_self)

lemma parse_digits_snoc:
  assumes "parse_digits 0 xs = Some (acc :: 'a::len word)" and "d < 10"
    and "unat acc * 10 + d < 2 ^ LENGTH('a)" and "4 \<le> LENGTH('a)"
  shows "parse_digits 0 (xs @ [char_of (48 + d)]) = Some (of_nat (unat acc * 10 + d) :: 'a word)"
proof -
  have "(10 :: nat) < 2 ^ 4"
    by simp
  also have "\<dots> \<le> 2 ^ LENGTH('a)"
    using assms(4) by (intro power_increasing) simp_all
  finally have ten: "unat (10 :: 'a word) = 10"
    using unat_of_nat_small [of 10, where 'a = 'a] by simp
  define x :: "'a word" where "x = of_nat (unat acc * 10)"
  have x: "unat x = unat acc * 10"
    unfolding x_def using assms(3) by (intro unat_of_nat_small) simp
  have "checked_mul acc 10 = Some x"
    unfolding checked_mul_Some_iff x ten ..
  moreover have "checked_add x (of_nat d) = Some (of_nat (unat acc * 10 + d))"
    unfolding checked_add_Some_iff x using assms(3) by (simp only: unat_of_nat_small)
  ultimately show ?thesis
    using assms(1,2) by (simp add: parse_digits_append to_digit_digit)
qed

lemma parse_show:
  "n < 2 ^ LENGTH('a) \<Longrightarrow> 4 \<le> LENGTH('a) \<Longrightarrow> parse_digits 0 (show_nat n) = Some (of_nat n :: 'a::len word)"
proof (induction n rule: show_nat.induct)
  case (1 n)
  show ?case
  proof (cases "n < 10")
    case True
    then show ?thesis
      using parse_digits_snoc [of "[]" "0 :: 'a word" n] 1(2,3) by (simp add: show_nat.simps [of n])
  next
    case False
    have IH: "parse_digits 0 (show_nat (n div 10)) = Some (of_nat (n div 10) :: 'a word)"
      using 1 False by simp
    have "unat (of_nat (n div 10) :: 'a word) = n div 10"
      using 1(2) by (intro unat_of_nat_small) simp
    then show ?thesis
      using parse_digits_snoc [OF IH, of "n mod 10"] 1(2,3) False by (simp add: show_nat.simps [of n])
  qed
qed

lemma show_nat_digits: "c \<in> set (show_nat n) \<Longrightarrow> is_ascii_digit c"
proof (induction n rule: show_nat.induct)
  case (1 n)
  have d: "is_ascii_digit (char_of (48 + m :: nat))" if "m < 10" for m
    using that by (simp add: is_ascii_digit_def of_char_digit)
  show ?case
    using 1 d [of n] d [of "n mod 10"] by (auto simp: show_nat.simps [of n] split: if_splits)
qed

lemma show_nat_nonempty [simp]: "show_nat n \<noteq> []"
  by (simp add: show_nat.simps)

lemma show_nat_hd: "\<exists>c cs. show_nat n = c # cs \<and> is_ascii_digit c"
  using show_nat_digits [of "hd (show_nat n)" n] show_nat_nonempty [of n]
  by (metis list.collapse hd_in_set)

lemma parse_unsigned_show:
  assumes "n < 2 ^ LENGTH('a)" and "4 \<le> LENGTH('a)"
  shows "parse_unsigned (show_nat n) = Some (of_nat n :: 'a::len word)"
proof -
  obtain c cs where c: "show_nat n = c # cs" "is_ascii_digit c"
    using show_nat_hd by blast
  then have "c \<noteq> CHR ''+''"
    by (auto simp: is_ascii_digit_def)
  then show ?thesis
    using parse_show [OF assms] c by (simp add: parse_unsigned_def)
qed

section \<open>Tokens\<close>

definition reg_text :: "Reg \<Rightarrow> string" where
  "reg_text r = CHR ''r'' # show_nat (unat r)"

lemma unat_below: "LENGTH('b) \<le> LENGTH('a) \<Longrightarrow> unat (v :: 'b::len word) < 2 ^ LENGTH('a::len)"
  by (rule less_le_trans [OF unat_bound]) (rule power_increasing, simp_all)

lemma unat_ucast_up: "LENGTH('b) \<le> LENGTH('a) \<Longrightarrow> unat (ucast (v :: 'b::len word) :: 'a::len word) = unat v"
  by (simp add: unsigned_ucast_eq take_bit_nat_eq_self unat_below)

lemma ucast_up_down: "LENGTH('b) \<le> LENGTH('a) \<Longrightarrow> ucast (ucast (v :: 'b::len word) :: 'a::len word) = v"
  by (rule bit_word_eqI) (auto simp: bit_ucast_iff dest: bit_imp_le_length)

lemma parse_unsigned_word:
  "LENGTH('b) \<le> LENGTH('a) \<Longrightarrow> 4 \<le> LENGTH('a) \<Longrightarrow>
     parse_unsigned (show_nat (unat (v :: 'b::len word))) = Some (ucast v :: 'a::len word)"
  using unat_below [of v, where 'a = 'a] by (subst parse_unsigned_show) (auto simp: of_nat_unat_ucast)

lemma reg_tok_text: "unat r < NUM_REGS \<Longrightarrow> reg_tok no (reg_text r) = Inr r"
  by (simp add: reg_tok_def reg_text_def strip_prefix_def parse_unsigned_word unat_ucast_up ucast_up_down)

lemma num_u64_text: "num_u64 no (show_nat (unat (v :: 'b::len word))) = Inr (ucast v)" if "LENGTH('b) \<le> 64"
  using that by (simp add: num_u64_def parse_unsigned_word)

lemma num_u16_text: "num_u16 no (show_nat (unat v)) = Inr v"
  using unat_bound [of v] by (simp add: num_u16_def num_u64_text unat_ucast_up ucast_up_down)

lemma target_tok_text: "target_tok no (show_nat (unat v)) labels unk = Inr v"
  using show_nat_hd [of "unat v"] unat_bound [of v]
  by (auto simp: target_tok_def num_u64_text unat_ucast_up ucast_up_down split: list.splits)

section \<open>The printer\<close>

primrec mnemonic :: "OpCode \<Rightarrow> string" where
  "mnemonic OpHalt = ''HALT''"
| "mnemonic OpNop = ''NOP''"
| "mnemonic OpMov = ''MOV''"
| "mnemonic OpLdi = ''LDI''"
| "mnemonic OpLdc = ''LDC''"
| "mnemonic OpAdd = ''ADD''"
| "mnemonic OpSub = ''SUB''"
| "mnemonic OpMul = ''MUL''"
| "mnemonic OpDiv = ''DIV''"
| "mnemonic OpRem = ''REM''"
| "mnemonic OpAddW = ''ADDW''"
| "mnemonic OpSubW = ''SUBW''"
| "mnemonic OpMulW = ''MULW''"
| "mnemonic OpMulHi = ''MULHI''"
| "mnemonic OpDivW = ''DIVW''"
| "mnemonic OpRemW = ''REMW''"
| "mnemonic OpAnd = ''AND''"
| "mnemonic OpOr = ''OR''"
| "mnemonic OpXor = ''XOR''"
| "mnemonic OpNot = ''NOT''"
| "mnemonic OpShl = ''SHL''"
| "mnemonic OpShr = ''SHR''"
| "mnemonic OpEq = ''EQ''"
| "mnemonic OpLtU = ''LTU''"
| "mnemonic OpGtU = ''GTU''"
| "mnemonic OpPush = ''PUSH''"
| "mnemonic OpPop = ''POP''"
| "mnemonic OpMLoad = ''MLOAD''"
| "mnemonic OpMStore = ''MSTORE''"
| "mnemonic OpJmp = ''JMP''"
| "mnemonic OpJz = ''JZ''"
| "mnemonic OpJnz = ''JNZ''"
| "mnemonic OpCall = ''CALL''"
| "mnemonic OpRet = ''RET''"
| "mnemonic OpSLoad = ''SLOAD''"
| "mnemonic OpSStore = ''SSTORE''"
| "mnemonic OpSend = ''SEND''"
| "mnemonic OpEmit = ''EMIT''"
| "mnemonic OpHash = ''HASH''"
| "mnemonic OpVerifyMl = ''VERIFYML''"
| "mnemonic OpVerifySlh = ''VERIFYSLH''"
| "mnemonic OpMerkleVerify = ''MERKLEVERIFY''"
| "mnemonic OpAddr = ''ADDR''"

text \<open>The operands in the order of the text syntax: registers, then the number.\<close>

definition numbers_of :: "Instr \<Rightarrow> string list" where
  "numbers_of i = (case i of
     Ldi _ imm \<Rightarrow> [show_nat (unat imm)] | Ldc _ idx \<Rightarrow> [show_nat (unat idx)]
   | Jmp t \<Rightarrow> [show_nat (unat t)] | Call t \<Rightarrow> [show_nat (unat t)]
   | Jz _ t \<Rightarrow> [show_nat (unat t)] | Jnz _ t \<Rightarrow> [show_nat (unat t)] | _ \<Rightarrow> [])"

definition operand_texts :: "Instr \<Rightarrow> string list" where
  "operand_texts i = map reg_text (registers_of i) @ numbers_of i"

definition show_instr :: "Instr \<Rightarrow> string" where
  "show_instr i = mnemonic (opcode i) @
     (case operand_texts i of
        [] \<Rightarrow> []
      | t # ts \<Rightarrow> '' '' @ t @ concat (map (\<lambda>u. '', '' @ u) ts))"

definition show_program :: "Instr list \<Rightarrow> string" where
  "show_program is = concat (map (\<lambda>i. show_instr i @ [newline]) is)"

section \<open>Tokens of a printed instruction\<close>

definition word_char :: "char \<Rightarrow> bool" where
  "word_char c \<longleftrightarrow> \<not> is_whitespace c \<and> c \<noteq> CHR '','' \<and> c \<noteq> CHR ''#'' \<and> c \<noteq> CHR '':''"

definition token :: "string \<Rightarrow> bool" where
  "token t \<longleftrightarrow> t \<noteq> [] \<and> (\<forall>c \<in> set t. word_char c)"

lemma fields_append: "\<forall>c \<in> set t. \<not> is_whitespace c \<Longrightarrow> is_whitespace b \<Longrightarrow> fields (t @ b # r) = t # fields r"
  by (induction t) auto

lemma fields_word: "\<forall>c \<in> set t. \<not> is_whitespace c \<Longrightarrow> fields t = [t]"
  by (induction t) auto

lemma split_whitespace_space: "is_whitespace b \<Longrightarrow> split_whitespace (b # r) = split_whitespace r"
  by (simp add: split_whitespace_def)

lemma split_whitespace_token: "token t \<Longrightarrow> is_whitespace b \<Longrightarrow> split_whitespace (t @ b # r) = t # split_whitespace r"
  by (simp add: split_whitespace_def fields_append token_def word_char_def)

lemma split_whitespace_last: "token t \<Longrightarrow> split_whitespace t = [t]"
  by (simp add: split_whitespace_def fields_word token_def word_char_def)

abbreviation unc :: "char \<Rightarrow> char" where
  "unc c \<equiv> (if c = CHR '','' then CHR '' '' else c)"

lemma unc_token: "token t \<Longrightarrow> map unc t = t"
  by (rule map_idI) (simp add: token_def word_char_def)

lemma space: "is_whitespace (CHR '' '')"
  by (simp add: is_whitespace_def)

lemma sep_append [simp]: "(@) '', '' = (\<lambda>u. CHR '','' # CHR '' '' # u)"
  by auto

lemma split_texts:
  "token t \<Longrightarrow> \<forall>u \<in> set ts. token u \<Longrightarrow>
     split_whitespace (map unc (t @ concat (map (\<lambda>u. '', '' @ u) ts))) = t # ts"
proof (induction ts arbitrary: t)
  case Nil
  then show ?case
    using split_whitespace_last by (simp add: unc_token)
next
  case (Cons u ts)
  have "map unc (t @ concat (map (\<lambda>u. '', '' @ u) (u # ts))) =
      t @ CHR '' '' # CHR '' '' # map unc (u @ concat (map (\<lambda>u. '', '' @ u) ts))"
    using Cons.prems(1) unc_token by simp
  then show ?case
    using Cons.IH [of u] Cons.prems split_whitespace_token [OF Cons.prems(1) space]
      split_whitespace_space [OF space] by simp
qed

lemma token_number: "token (show_nat n)"
  using show_nat_digits [of _ n]
  by (fastforce simp: token_def word_char_def is_ascii_digit_def is_whitespace_def)

lemma token_reg: "token (reg_text r)"
  using token_number [of "unat r"] by (simp add: token_def reg_text_def word_char_def is_whitespace_def)

lemma token_operand: "u \<in> set (operand_texts i) \<Longrightarrow> token u"
  by (cases i) (auto simp: operand_texts_def numbers_of_def token_reg token_number)

lemma token_mnemonic: "token (mnemonic op)"
  by (cases op) (simp_all add: token_def word_char_def is_whitespace_def)

lemma split_show: "split_whitespace (map unc (show_instr i)) = mnemonic (opcode i) # operand_texts i"
proof (cases "operand_texts i")
  case Nil
  then show ?thesis
    using split_whitespace_last [OF token_mnemonic] by (simp add: show_instr_def unc_token token_mnemonic)
next
  case (Cons t ts)
  have "map unc (show_instr i) =
      mnemonic (opcode i) @ CHR '' '' # map unc (t @ concat (map (\<lambda>u. '', '' @ u) ts))"
    using unc_token [OF token_mnemonic] by (simp add: show_instr_def Cons)
  then show ?thesis
    using split_texts [of t ts] token_operand [of _ i] Cons split_whitespace_token [OF token_mnemonic space]
    by simp
qed

lemma upper_mnemonic: "to_ascii_uppercase (mnemonic op) = mnemonic op"
  by (cases op) (simp_all add: to_ascii_uppercase_def upper_def)

lemma parse_show_instr:
  assumes "wf_instr i"
  shows "parse_instr no (show_instr i) labels unk = Inr i"
  using assms unfolding parse_instr_def Let_def split_show list.case upper_mnemonic
  by (cases i) (simp_all add: operand_texts_def numbers_of_def want_def wf_instr_def reg_tok_text
      num_u64_text num_u16_text target_tok_text triple_def six_regs_def one_reg_def two_regs_def
      one_target_def reg_target_def)

section \<open>Lines of a printed program\<close>

lemma show_instr_chars: "c \<in> set (show_instr i) \<Longrightarrow> word_char c \<or> c \<in> {CHR '' '', CHR '',''}"
proof -
  assume c: "c \<in> set (show_instr i)"
  have "word_char c" if "c \<in> set (mnemonic (opcode i))"
    using token_mnemonic that by (auto simp: token_def)
  moreover have "word_char c" if "u \<in> set (operand_texts i)" "c \<in> set u" for u
    using token_operand that by (auto simp: token_def)
  ultimately show ?thesis
    using c by (cases "operand_texts i") (auto simp: show_instr_def split: if_splits)
qed

lemma show_instr_ends: "show_instr i \<noteq> [] \<and> word_char (hd (show_instr i)) \<and> word_char (last (show_instr i))"
proof (cases "operand_texts i")
  case Nil
  then show ?thesis
    using token_mnemonic [of "opcode i"] by (simp add: show_instr_def token_def)
next
  case (Cons t ts)
  have m: "mnemonic (opcode i) \<noteq> []" "word_char (hd (mnemonic (opcode i)))"
    using token_mnemonic [of "opcode i"] by (simp_all add: token_def)
  have u: "u \<noteq> []" "word_char (last u)" if "u \<in> set (t # ts)" for u
    using token_operand [of u i] that by (simp_all add: Cons token_def)
  have "word_char (last (t @ concat (map (\<lambda>u. '', '' @ u) ts)))"
    using u by (cases ts rule: rev_cases) (auto simp: last_append)
  then show ?thesis
    using m u(1) [of t] by (simp add: show_instr_def Cons last_append)
qed

lemma trim_id: "s \<noteq> [] \<Longrightarrow> \<not> is_whitespace (hd s) \<Longrightarrow> \<not> is_whitespace (last s) \<Longrightarrow> trim s = s"
  by (auto simp: trim_def neq_Nil_conv hd_rev dropWhile_eq_self_iff simp flip: hd_rev)

lemma split_inclusive_line:
  "newline \<notin> set l \<Longrightarrow> split_inclusive (l @ newline # r) = (l @ [newline]) # split_inclusive r"
  by (induction l) auto

lemma chomp_line: "l \<noteq> [] \<Longrightarrow> last l \<noteq> CHR 0x0D \<Longrightarrow> chomp (l @ [newline]) = l"
  by (simp add: chomp_def strip_suffix_def)

lemma whitespace_chars: "is_whitespace newline" "is_whitespace (CHR 0x0D)"
  by (simp_all add: is_whitespace_def)

lemma show_instr_line: "newline \<notin> set (show_instr i)" "CHR ''#'' \<notin> set (show_instr i)"
    "last (show_instr i) \<noteq> CHR 0x0D" "last (show_instr i) \<noteq> CHR '':''"
    "\<not> is_whitespace (hd (show_instr i))" "\<not> is_whitespace (last (show_instr i))"
  using show_instr_chars [of _ i] show_instr_ends [of i] whitespace_chars
  by (auto simp: word_char_def)

lemma lines_show_program: "lines (show_program is) = map show_instr is"
proof (induction "is")
  case (Cons i "is")
  have "split_inclusive (show_program (i # is)) = (show_instr i @ [newline]) # split_inclusive (show_program is)"
    using split_inclusive_line [OF show_instr_line(1)] by (simp add: show_program_def)
  then show ?case
    using Cons chomp_line [of "show_instr i"] show_instr_ends [of i] show_instr_line(3) [of i]
    by (simp add: lines_def)
qed (simp add: lines_def show_program_def)

lemma uncommented: "trim (takeWhile (\<lambda>c. c \<noteq> CHR ''#'') (show_instr i)) = show_instr i"
proof -
  have "takeWhile (\<lambda>c. c \<noteq> CHR ''#'') (show_instr i) = show_instr i"
    using show_instr_line(2) [of i] by (simp only: takeWhile_eq_all_conv) auto
  moreover have "trim (show_instr i) = show_instr i"
    using show_instr_ends [of i] show_instr_line(5,6) [of i] by (intro trim_id) simp_all
  ultimately show ?thesis
    by (simp only:)
qed

lemma logical_lines_shown:
  assumes "lines src = map show_instr is"
  shows "logical_lines src = map (\<lambda>(n, i). (Suc n, show_instr i)) (enumerate 0 is)"
proof -
  have "enumerate 0 (map show_instr is) = map (\<lambda>(n, i). (n, show_instr i)) (enumerate 0 is)"
    by (rule nth_equalityI) (simp_all add: nth_enumerate_eq)
  moreover have "filter (\<lambda>(_, t). t \<noteq> []) (map (\<lambda>(n, i). (Suc n, show_instr i)) xs) =
      map (\<lambda>(n, i). (Suc n, show_instr i)) xs" for xs :: "(nat \<times> Instr) list"
    using show_instr_ends by (auto simp: filter_id_conv)
  ultimately show ?thesis
    by (simp add: logical_lines_def assms comp_def split_def uncommented)
qed

lemma label_of_show: "label_of (show_instr i) = None"
  using show_instr_line(4) [of i] by (simp add: label_of_def strip_suffix_def)

lemma laid_out_show:
  "list_all wf_instr is \<Longrightarrow> laid_out labels off (map (\<lambda>(n, i). (Suc n, show_instr i)) (enumerate k is)) is"
  by (induction "is" arbitrary: off k) (simp_all add: label_of_show parse_show_instr)

lemma label_names_show: "label_names (map (\<lambda>(n, i). (Suc n, show_instr i)) (enumerate k is)) = []"
  by (induction "is" arbitrary: k) (simp_all add: label_of_show)

text \<open>Any layout of the printed instructions on lines assembles, such as one a line.\<close>

lemma assemble_shown:
  assumes "lines src = map show_instr is" and "list_all wf_instr is" and "length (bytes_of is) < 2 ^ 32"
  shows "assemble src = Inr (bytes_of is)"
  unfolding assemble_iff logical_lines_shown [OF assms(1)]
  using assms laid_out_show by (intro exI [of _ Map.empty] exI [of _ "is"]) (simp add: label_names_show)

lemmas assemble_show_program = assemble_shown [OF lines_show_program]

end
