(* ===== verification/Assembly.thy ===== *)
theory Assembly
  imports AsmText
begin

text \<open>
  The errors of the assembler, the labels of assembled code as jump targets of the interpreter,
  and the properties of the assembler.
\<close>

definition fails_as :: "('e \<Rightarrow> bool) \<Rightarrow> 'e + 'a \<Rightarrow> bool" where
  "fails_as Q r \<longleftrightarrow> (\<forall>e. r = Inl e \<longrightarrow> Q e)"

lemma fails_as_bind: "fails_as Q r \<Longrightarrow> (\<And>x. fails_as Q (f x)) \<Longrightarrow> fails_as Q (bindE r f)"
  by (cases r) (simp_all add: fails_as_def)

lemma fails_as_if: "fails_as Q x \<Longrightarrow> fails_as Q y \<Longrightarrow> fails_as Q (if b then x else y)"
  by simp

lemma fails_as_simps [simp]: "fails_as Q (Inr x)" "fails_as Q (Inl e) = Q e"
  by (simp_all add: fails_as_def)

primrec line_of :: "AsmError \<Rightarrow> nat" where
  "line_of (UnknownMnemonic no _) = no"
| "line_of (WrongOperands no _) = no"
| "line_of (BadRegisterAt no _) = no"
| "line_of (BadNumber no _) = no"
| "line_of (UnknownLabel no _) = no"
| "line_of (DuplicateLabel no _) = no"
| "line_of (ProgramTooLarge no) = no"

definition tokens_of :: "string \<Rightarrow> string list" where
  "tokens_of content = split_whitespace (map unc content)"

text \<open>What an error of \<open>parse_instr\<close> says: its line, and a label that the table does not have.\<close>

definition parse_error :: "nat \<Rightarrow> string \<Rightarrow> (string \<rightharpoonup> u32) \<Rightarrow> bool \<Rightarrow> AsmError \<Rightarrow> bool" where
  "parse_error no content labels unk e \<longleftrightarrow> line_of e = no \<and>
     (case e of DuplicateLabel _ _ \<Rightarrow> False | ProgramTooLarge _ \<Rightarrow> False
      | UnknownLabel _ tok \<Rightarrow> \<not> unk \<and> labels tok = None \<and> tok \<in> set (tokens_of content)
      | _ \<Rightarrow> True)"

lemma parse_error_simps:
  "parse_error no content labels unk (UnknownMnemonic no s)"
  "parse_error no content labels unk (WrongOperands no s)"
  "parse_error no content labels unk (BadRegisterAt no s)"
  "parse_error no content labels unk (BadNumber no s)"
  by (simp_all add: parse_error_def)

lemma fails_reg_tok: "fails_as (parse_error no content labels unk) (reg_tok no tok)"
  by (auto simp: reg_tok_def fails_as_def parse_error_def split: option.splits if_splits)

lemma fails_num_u64: "fails_as (parse_error no content labels unk) (num_u64 no tok)"
  by (auto simp: num_u64_def fails_as_def parse_error_def split: option.splits if_splits)

lemma fails_num_u16: "fails_as (parse_error no content labels unk) (num_u16 no tok)"
  unfolding num_u16_def by (intro fails_as_bind fails_num_u64) (simp add: parse_error_simps)

lemma fails_target:
  "tok \<in> set (tokens_of content) \<Longrightarrow>
     fails_as (parse_error no content labels unk) (target_tok no tok labels unk)"
  unfolding target_tok_def
  by (auto simp: parse_error_simps intro!: fails_as_bind fails_num_u64 split: list.split option.split)
    (simp_all add: parse_error_def)

lemma fails_want:
  "(length ops = n \<Longrightarrow> fails_as (parse_error no content labels unk) (f ())) \<Longrightarrow>
     fails_as (parse_error no content labels unk) (bindE (want no content ops n) f)"
  by (simp add: want_def parse_error_simps)

lemma fails_parse_instr: "fails_as (parse_error no content labels unk) (parse_instr no content labels unk)"
proof (cases "tokens_of content")
  case Nil
  then show ?thesis
    by (simp add: parse_instr_def tokens_of_def parse_error_simps)
next
  case (Cons part ops)
  have "fails_as (parse_error no content labels unk) (target_tok no (ops ! k) labels unk)" if "k < length ops" for k
    using that by (intro fails_target) (simp add: Cons)
  then show ?thesis
    unfolding parse_instr_def Let_def Cons [unfolded tokens_of_def] list.case triple_def six_regs_def two_regs_def one_reg_def one_target_def reg_target_def
    by (intro fails_as_if fails_want fails_as_bind fails_reg_tok fails_num_u64 fails_num_u16 fails_as_simps(1);
        simp add: parse_error_simps)
qed

lemma parse_instr_error: "parse_instr no content labels unk = Inl e \<Longrightarrow> parse_error no content labels unk e"
  using fails_parse_instr [of no content labels unk] by (simp add: fails_as_def)

text \<open>The error of a source, in terms of its lines.\<close>

definition error_of :: "(nat \<times> string) list \<Rightarrow> AsmError \<Rightarrow> bool" where
  "error_of ls e \<longleftrightarrow> (\<exists>content. (line_of e, content) \<in> set ls \<and>
     (case e of
        DuplicateLabel _ name \<Rightarrow> label_of content = Some name \<and> \<not> distinct (label_names ls)
      | UnknownLabel _ tok \<Rightarrow> tok \<in> set (tokens_of content) \<and> tok \<notin> set (label_names ls)
      | _ \<Rightarrow> True))"

lemma error_of_Cons_code: "error_of ls e \<Longrightarrow> label_of content = None \<Longrightarrow> error_of ((no, content) # ls) e"
  unfolding error_of_def by (cases e) fastforce+

definition place_blame :: "(string \<rightharpoonup> u32) \<Rightarrow> string list \<Rightarrow> string \<Rightarrow> AsmError \<Rightarrow> bool" where
  "place_blame labels names content e \<longleftrightarrow>
     (case e of
        DuplicateLabel _ name \<Rightarrow> label_of content = Some name \<and>
          (\<not> distinct names \<or> (\<exists>n \<in> set names. labels n \<noteq> None))
      | UnknownLabel _ _ \<Rightarrow> False
      | _ \<Rightarrow> True)"

lemma place_blame_Cons:
  "place_blame (labels(name \<mapsto> off)) names content e \<Longrightarrow> place_blame labels (name # names) content e"
  by (cases e) (auto simp: place_blame_def split: if_splits)

lemma place_labels_error:
  "place_labels ls labels off = Inl e \<Longrightarrow>
     \<exists>content. (line_of e, content) \<in> set ls \<and> place_blame labels (label_names ls) content e"
proof (induction ls arbitrary: labels off)
  case (Cons l ls)
  obtain no content where l: "l = (no, content)"
    by (cases l)
  show ?case
  proof (cases "label_of content")
    case None
    then have names: "label_names (l # ls) = label_names ls"
      by (simp add: l)
    show ?thesis
    proof (cases "parse_instr no content labels True")
      case (Inl e')
      then have "e' = e"
        using Cons.prems None by (simp add: l place_labels_Cons)
      then have "line_of e = no" "place_blame labels (label_names (l # ls)) content e"
        using parse_instr_error [OF Inl] by (cases e; simp add: parse_error_def place_blame_def)+
      then show ?thesis
        by (intro exI [of _ content]) (simp add: l)
    next
      case (Inr i)
      show ?thesis
      proof (cases "checked_add off (of_nat (encoded_len i))")
        case no_room: None
        have "e = ProgramTooLarge no"
          using Cons.prems Inr None no_room by (simp add: l place_labels_Cons)
        then show ?thesis
          by (intro exI [of _ content]) (simp add: l place_blame_def)
      next
        case (Some off')
        then have "place_labels ls labels off' = Inl e"
          using Cons.prems Inr None by (simp add: l place_labels_Cons)
        from Cons.IH [OF this] show ?thesis
          unfolding names by auto
      qed
    qed
  next
    case (Some name)
    then have names: "label_names (l # ls) = name # label_names ls"
      by (simp add: l)
    show ?thesis
    proof (cases "labels name")
      case None
      then have "place_labels ls (labels(name \<mapsto> off)) off = Inl e"
        using Cons.prems Some by (simp add: l place_labels_Cons)
      from Cons.IH [OF this] show ?thesis
        unfolding names using place_blame_Cons by (metis list.set_intros(2))
    next
      case (Some v)
      then have "e = DuplicateLabel no name"
        using Cons.prems \<open>label_of content = Some name\<close> by (simp add: l place_labels_Cons)
      then show ?thesis
        using Some \<open>label_of content = Some name\<close> unfolding names
        by (intro exI [of _ content]) (simp add: l place_blame_def)
    qed
  qed
qed simp

lemma emit_code_error:
  "emit_code ls labels out = Inl e \<Longrightarrow> \<exists>content. (line_of e, content) \<in> set ls \<and>
     (case e of
        DuplicateLabel _ _ \<Rightarrow> False
      | UnknownLabel _ tok \<Rightarrow> tok \<in> set (tokens_of content) \<and> labels tok = None
      | _ \<Rightarrow> True)"
proof (induction ls arbitrary: out)
  case (Cons l ls)
  obtain no content where l: "l = (no, content)"
    by (cases l)
  show ?case
  proof (cases "label_of content")
    case (Some name)
    then show ?thesis
      using Cons.prems Cons.IH [of out] by (auto simp: l emit_code_Cons)
  next
    case None
    show ?thesis
    proof (cases "parse_instr no content labels False")
      case (Inl e')
      then show ?thesis
        using Cons.prems None parse_instr_error [OF Inl]
        by (intro exI [of _ content]) (auto simp: l emit_code_Cons parse_error_def split: AsmError.splits)
    next
      case (Inr i)
      then show ?thesis
        using Cons.prems Cons.IH [of "out @ encode i"] None by (auto simp: l emit_code_Cons)
    qed
  qed
qed simp

lemma place_labels_extends: "place_labels ls l0 off = Inr labels \<Longrightarrow> extends l0 (label_names ls) labels"
proof (induction ls arbitrary: l0 off)
  case (Cons l ls)
  obtain no content where l: "l = (no, content)"
    by (cases l)
  show ?case
  proof (cases "label_of content")
    case (Some name)
    then have "l0 name = None" and e: "extends (l0(name \<mapsto> off)) (label_names ls) labels"
      using Cons.prems Cons.IH by (auto simp: l place_labels_Cons split: if_splits)
    moreover have "labels name = Some off"
      by (rule extends_label [OF e]) simp
    ultimately show ?thesis
      using Some by (simp add: l extends_Cons del: fun_upd_apply)
  next
    case None
    then show ?thesis
      using Cons.prems Cons.IH by (auto simp: l place_labels_Cons split: option.splits)
  qed
qed simp

lemma assemble_Inl:
  assumes "assemble src = Inl e"
  shows "error_of (logical_lines src) e"
proof (cases "place_labels (logical_lines src) Map.empty 0")
  case (Inl e')
  then show ?thesis
    using assms place_labels_error [OF Inl] unfolding error_of_def
    by (cases e) (auto simp: assemble_def Let_def place_blame_def)
next
  case (Inr labels)
  then have "emit_code (logical_lines src) labels [] = Inl e"
    using assms by (simp add: assemble_def Let_def)
  moreover have "dom labels = set (label_names (logical_lines src))"
    using place_labels_extends [OF Inr] by (simp add: extends_empty)
  ultimately show ?thesis
    using emit_code_error [of "logical_lines src" labels "[]" e] unfolding error_of_def
    by (cases e) auto
qed

section \<open>Labels and the interpreter\<close>

lemma laid_out_code:
  assumes "laid_out labels off ((no, content) # ls) is" and "label_of content = None"
  obtains i js where "is = i # js" "parse_instr no content labels False = Inr i"
    "laid_out labels (off + encoded_len i) ls js"
  using assms by (cases "is") auto

lemma laid_out_label:
  "laid_out labels off ls is \<Longrightarrow> name \<in> set (label_names ls) \<Longrightarrow>
     \<exists>pre post. is = pre @ post \<and> labels name = Some (of_nat (off + length (bytes_of pre)))"
proof (induction ls arbitrary: off "is")
  case (Cons l ls)
  obtain no content where l: "l = (no, content)"
    by (cases l)
  show ?case
  proof (cases "label_of content")
    case (Some n)
    then show ?thesis
      using Cons by (cases "name = n") (auto simp: l intro: exI [of _ "[]"])
  next
    case None
    then obtain i js where "is": "is = i # js" "laid_out labels (off + encoded_len i) ls js"
      using Cons.prems(1) laid_out_code l by blast
    obtain pre post where "js = pre @ post"
        "labels name = Some (of_nat (off + encoded_len i + length (bytes_of pre)))"
      using Cons.IH [OF "is"(2)] Cons.prems(2) None by (auto simp: l)
    then show ?thesis
      using "is"(1) by (intro exI [of _ "i # pre"] exI [of _ post]) (simp add: encoded_len_def add.assoc)
  qed
qed simp

lemma laid_out_wf: "laid_out labels off ls is \<Longrightarrow> list_all wf_instr is"
proof (induction ls arbitrary: off "is")
  case (Cons l ls)
  obtain no content where l: "l = (no, content)"
    by (cases l)
  show ?case
  proof (cases "label_of content")
    case (Some n)
    then show ?thesis
      using Cons.prems Cons.IH by (auto simp: l)
  next
    case None
    with Cons.prems show ?thesis
      unfolding l by (rule laid_out_code) (simp add: parse_instr_wf Cons.IH)
  qed
qed simp

lemma assembled:
  assumes "assemble src = Inr cd"
  shows "\<exists>labels is. place_labels (logical_lines src) Map.empty 0 = Inr labels \<and>
     list_all wf_instr is \<and> cd = bytes_of is \<and>
     (\<forall>name off. labels name = Some off \<longrightarrow>
        seq_pc cd (unat off) \<and> (unat off < length cd \<longrightarrow> off |\<in>| boundaries cd))"
proof -
  let ?L = "logical_lines src"
  obtain labels where p: "place_labels ?L Map.empty 0 = Inr labels" "emit_code ?L labels [] = Inr cd"
    using assms by (auto simp: assemble_def Let_def)
  obtain "is" where "is": "laid_out labels 0 ?L is" "cd = bytes_of is" "length (bytes_of is) < 2 ^ 32"
    using passes_sound [OF p] by auto
  have wf: "list_all wf_instr is"
    by (rule laid_out_wf [OF "is"(1)])
  have dom: "dom labels = set (label_names ?L)"
    using place_labels_extends [OF p(1)] by (simp add: extends_empty)
  have "seq_pc cd (unat off) \<and> (unat off < length cd \<longrightarrow> off |\<in>| boundaries cd)"
    if off: "labels name = Some off" for name off
  proof -
    have "name \<in> set (label_names ?L)"
      using off dom by blast
    then obtain pre post where split: "is = pre @ post" "off = of_nat (length (bytes_of pre))"
      using laid_out_label [OF "is"(1) \<open>name \<in> _\<close>] off by auto
    have at: "unat off = length (bytes_of pre)"
      unfolding split(2) using "is"(3) split(1) by (intro unat_of_nat_small) simp
    have "decodes cd (unat off)" if "unat off < length cd"
      using that wf seq_program_decodes [of pre post] at "is"(2) split(1) by (cases "post = []") simp_all
    then show ?thesis
      using wf seq_from_program [of pre post] at "is"(2) split(1) by (simp add: boundaries_iff)
  qed
  then show ?thesis
    using p(1) wf "is"(2) by blast
qed

section \<open>Properties\<close>

text \<open>C12. The assembler against its specification: it gives code exactly when the labels of the
  source differ and one program and one table of labels fit together, that is every line parses
  to the next instruction under the table and every label stands at the offset, in the encoded
  program, of what follows it.  The two passes of the code thus agree on every offset.\<close>

theorem assemble_exact:
  "assemble src = Inr cd \<longleftrightarrow>
     (\<exists>labels is. distinct (label_names (logical_lines src)) \<and>
        dom labels = set (label_names (logical_lines src)) \<and>
        laid_out labels 0 (logical_lines src) is \<and> cd = bytes_of is \<and> length cd < 2 ^ 32)"
  by (rule assemble_iff)

text \<open>C18. Every program can be written: a program of well-formed instructions below four
  gigabytes, printed one instruction a line, assembles to its encoding.\<close>

theorem assemble_roundtrip:
  assumes "list_all wf_instr is" and "length (bytes_of is) < 2 ^ 32"
  shows "assemble (show_program is) = Inr (bytes_of is)"
  using assms by (rule assemble_show_program)

lemma assemble_roundtrip_witness:
  "assemble (show_program [Ldi 3 500, Jnz 3 10, VerifyMl 0 1 15, Halt]) =
     Inr (bytes_of [Ldi 3 500, Jnz 3 10, VerifyMl 0 1 15, Halt])"
  by (rule assemble_roundtrip) (simp_all add: wf_instr_def NUM_REGS_def encode_def)

text \<open>C26. Assembled code is the encoding of well-formed instructions, and a label is the offset of
  an instruction of it, hence a jump target the interpreter accepts, or its end.\<close>

theorem labels_are_targets:
  assumes "assemble src = Inr cd"
  shows "\<exists>labels is. place_labels (logical_lines src) Map.empty 0 = Inr labels \<and>
     list_all wf_instr is \<and> cd = bytes_of is \<and>
     (\<forall>name off. labels name = Some off \<longrightarrow>
        seq_pc cd (unat off) \<and> (unat off < length cd \<longrightarrow> off |\<in>| boundaries cd))"
  using assms by (rule assembled)

lemmas asm_eval = assemble_def logical_lines_def lines_def chomp_def strip_suffix_def trim_def
  is_whitespace_def place_labels.simps Let_def parse_instr_def split_whitespace_def
  to_ascii_uppercase_def upper_def want_def target_tok_def one_target_def reg_target_def is_ascii_digit_def
  checked_add_def encoded_len_def encode_def emit_code.simps

lemma sample_target: "to_be 4 (5 :: u32) = [0, 0, 0, 5]"
  by code_simp

lemma labels_are_targets_witness:
  "\<exists>labels is. place_labels (logical_lines (''JMP X'' @ newline # ''X: # end'' @ newline # ''HALT'')) Map.empty 0 = Inr labels \<and>
     list_all wf_instr is \<and> [64, 0, 0, 0, 5, 0] = bytes_of is \<and>
     (\<forall>name off. labels name = Some off \<longrightarrow>
        seq_pc [64, 0, 0, 0, 5, 0] (unat off) \<and>
        (unat off < length [64, 0, 0, 0, 5, 0 :: u8] \<longrightarrow> off |\<in>| boundaries [64, 0, 0, 0, 5, 0]))"
  by (rule labels_are_targets) (simp add: asm_eval sample_target)

text \<open>C29. A source that does not assemble is told which of its lines is wrong; a duplicate label
  is a label of that line in a source whose labels are not distinct, and an unknown label is a
  word of that line that no line of the source defines.\<close>

theorem assemble_error:
  assumes "assemble src = Inl e"
  shows "\<exists>content. (line_of e, content) \<in> set (logical_lines src) \<and>
     (case e of
        DuplicateLabel _ name \<Rightarrow> label_of content = Some name \<and> \<not> distinct (label_names (logical_lines src))
      | UnknownLabel _ tok \<Rightarrow> tok \<in> set (tokens_of content) \<and> tok \<notin> set (label_names (logical_lines src))
      | _ \<Rightarrow> True)"
  using assemble_Inl [OF assms] by (simp add: error_of_def)

lemma assemble_error_witness:
  "\<exists>content. (1, content) \<in> set (logical_lines ''JMP X'') \<and>
     ''X'' \<in> set (tokens_of content) \<and> ''X'' \<notin> set (label_names (logical_lines ''JMP X''))"
  using assemble_error [of "''JMP X''" "UnknownLabel 1 ''X''"] by (simp add: asm_eval)

end
