(* ===== verification/Abort.thy ===== *)
theory Abort
  imports Listing Faults
begin

unbundle bit_operations_syntax

text \<open>
  \<open>crates/qtv-vm/src/abort.rs\<close>: the catalogue of abort reasons, the code word a program
  leaves in register 0 before it aborts, the rewriting of abort stubs into halts and the
  reason of a fault.  A Rust slice operation that would panic is \<open>Panic\<close> here, and the
  rewriting is shown never to do so.
\<close>

section \<open>Rules\<close>

definition ABORT_TAG :: u64 where
  "ABORT_TAG = push_bit 48 0x5154"

definition TAG_MASK :: u64 where
  "TAG_MASK = push_bit 48 0xffff"

definition ABORT_REG :: Reg where
  "ABORT_REG = 0"

definition ZERO_REG :: Reg where
  "ZERO_REG = 1"

text \<open>The suffix in \<open>OutOfMeterRule\<close>, \<open>EffectsTooLargeRule\<close> and \<open>CryptoFaultRule\<close> tells them from the faults.\<close>

datatype (plugins only: code size) Rule =
    Unknown | Guard | Limits | Denies | Invariant | TooEarly | OrderExpired | SignatureInvalid
    | SignerNotAuthorised | OrderMalformed | QuorumDuplicate | QuorumNotMember
    | ArithmeticOverflow | ValueOutOfRange | BalanceTooLow | AssetTooLow | UnexpectedPayment
    | PaymentMismatch | AlreadyInitialised | DeployParams | NameInvalid | GuardianSetInvalid
    | LegacyRule | OutOfMeterRule | UnknownEntry | MemoryOutOfRange | EffectsTooLargeRule
    | UndeclaredState | UnsupportedScheme | ContractFault | CryptoFaultRule | InsufficientFunds
    | NoContract | ValueExceedsBalance | TransferRejected | DeployRejected | BlockStateLimit
    | DivisionByZero | MintCeiling | AssetStopped | GenesisCall

text \<open>The cast \<open>self as u16\<close> of the enumeration.\<close>

primrec rule_code :: "Rule \<Rightarrow> u16" where
  "rule_code Unknown = 0"
| "rule_code Guard = 1"
| "rule_code Limits = 2"
| "rule_code Denies = 3"
| "rule_code Invariant = 4"
| "rule_code TooEarly = 5"
| "rule_code OrderExpired = 6"
| "rule_code SignatureInvalid = 7"
| "rule_code SignerNotAuthorised = 8"
| "rule_code OrderMalformed = 9"
| "rule_code QuorumDuplicate = 10"
| "rule_code QuorumNotMember = 11"
| "rule_code ArithmeticOverflow = 12"
| "rule_code ValueOutOfRange = 13"
| "rule_code BalanceTooLow = 14"
| "rule_code AssetTooLow = 15"
| "rule_code UnexpectedPayment = 16"
| "rule_code PaymentMismatch = 17"
| "rule_code AlreadyInitialised = 18"
| "rule_code DeployParams = 19"
| "rule_code NameInvalid = 20"
| "rule_code GuardianSetInvalid = 21"
| "rule_code LegacyRule = 22"
| "rule_code OutOfMeterRule = 64"
| "rule_code UnknownEntry = 65"
| "rule_code MemoryOutOfRange = 66"
| "rule_code EffectsTooLargeRule = 67"
| "rule_code UndeclaredState = 68"
| "rule_code UnsupportedScheme = 69"
| "rule_code ContractFault = 70"
| "rule_code CryptoFaultRule = 71"
| "rule_code InsufficientFunds = 72"
| "rule_code NoContract = 73"
| "rule_code ValueExceedsBalance = 74"
| "rule_code TransferRejected = 75"
| "rule_code DeployRejected = 76"
| "rule_code BlockStateLimit = 77"
| "rule_code DivisionByZero = 78"
| "rule_code MintCeiling = 79"
| "rule_code AssetStopped = 80"
| "rule_code GenesisCall = 81"

lemma rule_code_inject [simp]: "rule_code r = rule_code r' \<longleftrightarrow> r = r'"
  by (cases r; cases r') simp_all

text \<open>The derived \<open>Ord\<close>: rules compare by their codes.\<close>

instantiation Rule :: linorder
begin

definition less_eq_Rule :: "Rule \<Rightarrow> Rule \<Rightarrow> bool" where
  "less_eq_Rule r r' = (rule_code r \<le> rule_code r')"

definition less_Rule :: "Rule \<Rightarrow> Rule \<Rightarrow> bool" where
  "less_Rule r r' = (rule_code r < rule_code r')"

instance
  by standard (auto simp: less_eq_Rule_def less_Rule_def order_less_le)

end

definition ALL_RULES :: "Rule list" where
  "ALL_RULES =
     [Unknown, Guard, Limits, Denies, Invariant, TooEarly, OrderExpired, SignatureInvalid,
     SignerNotAuthorised, OrderMalformed, QuorumDuplicate, QuorumNotMember, ArithmeticOverflow,
     ValueOutOfRange, BalanceTooLow, AssetTooLow, UnexpectedPayment, PaymentMismatch,
     AlreadyInitialised, DeployParams, NameInvalid, GuardianSetInvalid, LegacyRule,
     OutOfMeterRule, UnknownEntry, MemoryOutOfRange, EffectsTooLargeRule, UndeclaredState,
     UnsupportedScheme, ContractFault, CryptoFaultRule, InsufficientFunds, NoContract,
     ValueExceedsBalance, TransferRejected, DeployRejected, BlockStateLimit, DivisionByZero,
     MintCeiling, AssetStopped, GenesisCall, Unknown]"

definition from_code :: "u16 \<Rightarrow> Rule" where
  "from_code c = (case find (\<lambda>r. rule_code r = c) ALL_RULES of Some r \<Rightarrow> r | None \<Rightarrow> Unknown)"

text \<open>\<open>Rule::all\<close>: the slice of \<open>ALL_RULES\<close> without its last entry.\<close>

definition all_rules :: "Rule list" where
  "all_rules = take (length ALL_RULES - 1) ALL_RULES"

primrec rule_name :: "Rule \<Rightarrow> string" where
  "rule_name Unknown = ''unknown''"
| "rule_name Guard = ''guard_failed''"
| "rule_name Limits = ''limits_exceeded''"
| "rule_name Denies = ''entry_closed''"
| "rule_name Invariant = ''invariant_broken''"
| "rule_name TooEarly = ''too_early''"
| "rule_name OrderExpired = ''order_expired''"
| "rule_name SignatureInvalid = ''signature_invalid''"
| "rule_name SignerNotAuthorised = ''signer_not_authorised''"
| "rule_name OrderMalformed = ''order_malformed''"
| "rule_name QuorumDuplicate = ''quorum_approval_repeated''"
| "rule_name QuorumNotMember = ''quorum_approver_not_member''"
| "rule_name ArithmeticOverflow = ''arithmetic_out_of_range''"
| "rule_name ValueOutOfRange = ''value_out_of_range''"
| "rule_name BalanceTooLow = ''balance_too_low''"
| "rule_name AssetTooLow = ''asset_too_low''"
| "rule_name UnexpectedPayment = ''payment_not_accepted''"
| "rule_name PaymentMismatch = ''payment_mismatch''"
| "rule_name AlreadyInitialised = ''already_initialised''"
| "rule_name DeployParams = ''deploy_parameters_invalid''"
| "rule_name NameInvalid = ''name_invalid''"
| "rule_name GuardianSetInvalid = ''guardian_set_invalid''"
| "rule_name LegacyRule = ''contract_rule''"
| "rule_name OutOfMeterRule = ''out_of_meter''"
| "rule_name UnknownEntry = ''unknown_entry''"
| "rule_name MemoryOutOfRange = ''memory_out_of_range''"
| "rule_name EffectsTooLargeRule = ''effects_too_large''"
| "rule_name UndeclaredState = ''undeclared_state''"
| "rule_name UnsupportedScheme = ''unsupported_scheme''"
| "rule_name ContractFault = ''contract_fault''"
| "rule_name CryptoFaultRule = ''crypto_fault''"
| "rule_name InsufficientFunds = ''insufficient_funds''"
| "rule_name NoContract = ''no_contract''"
| "rule_name ValueExceedsBalance = ''value_exceeds_balance''"
| "rule_name TransferRejected = ''transfer_rejected''"
| "rule_name DeployRejected = ''deploy_rejected''"
| "rule_name BlockStateLimit = ''block_state_limit''"
| "rule_name DivisionByZero = ''division_by_zero''"
| "rule_name MintCeiling = ''mint_ceiling_exceeded''"
| "rule_name AssetStopped = ''asset_stopped''"
| "rule_name GenesisCall = ''genesis_not_callable''"

primrec rule_title :: "Rule \<Rightarrow> string" where
  "rule_title Unknown = ''The call was rejected''"
| "rule_title Guard = ''A contract condition was not met''"
| "rule_title Limits = ''The call would exceed a contract limit''"
| "rule_title Denies = ''This entry is closed in the current contract state''"
| "rule_title Invariant = ''The call would break a contract invariant''"
| "rule_title TooEarly = ''This entry cannot run yet''"
| "rule_title OrderExpired = ''The signed order has expired''"
| "rule_title SignatureInvalid = ''The order signature does not verify''"
| "rule_title SignerNotAuthorised = ''The order was signed by an account without the required role''"
| "rule_title OrderMalformed = ''The signed order is malformed''"
| "rule_title QuorumDuplicate = ''A quorum approval is repeated or out of order''"
| "rule_title QuorumNotMember = ''A quorum approval is not from a current member''"
| "rule_title ArithmeticOverflow = ''A calculation went out of range''"
| "rule_title ValueOutOfRange = ''A value is too large for its type''"
| "rule_title BalanceTooLow = ''The account balance is too low''"
| "rule_title AssetTooLow = ''The contract does not hold enough of the asset''"
| "rule_title UnexpectedPayment = ''This entry does not accept a payment''"
| "rule_title PaymentMismatch = ''The payment does not match the asset argument''"
| "rule_title AlreadyInitialised = ''The contract has already been initialised''"
| "rule_title DeployParams = ''The deploy parameters are incomplete''"
| "rule_title NameInvalid = ''The name is not valid''"
| "rule_title GuardianSetInvalid = ''The new guardian set is not valid''"
| "rule_title LegacyRule = ''The call was rejected by a contract rule''"
| "rule_title OutOfMeterRule = ''The call ran out of meter''"
| "rule_title UnknownEntry = ''The contract has no such entry''"
| "rule_title MemoryOutOfRange = ''The call arguments do not fit the contract memory''"
| "rule_title EffectsTooLargeRule = ''The call produced too many effects''"
| "rule_title UndeclaredState = ''The contract touched state it did not declare''"
| "rule_title UnsupportedScheme = ''The signature scheme is not supported''"
| "rule_title ContractFault = ''The contract code stopped unexpectedly''"
| "rule_title CryptoFaultRule = ''A signature check could not be completed''"
| "rule_title InsufficientFunds = ''The contract does not hold enough to pay out''"
| "rule_title NoContract = ''There is no contract at this address''"
| "rule_title ValueExceedsBalance = ''The sender cannot cover the attached value''"
| "rule_title TransferRejected = ''A payment made by the contract was refused''"
| "rule_title DeployRejected = ''The contract deploy was refused''"
| "rule_title BlockStateLimit = ''The block had no room for more new state''"
| "rule_title DivisionByZero = ''The contract divided by zero''"
| "rule_title MintCeiling = ''The mint would exceed the declared ceiling''"
| "rule_title AssetStopped = ''The asset issuer is stopped''"
| "rule_title GenesisCall = ''The genesis entry cannot be called''"

primrec rule_help :: "Rule \<Rightarrow> string" where
  "rule_help Unknown = ''The contract refused the call. Check the inputs against the contract source and try again.''"
| "rule_help Guard = ''A guard statement in the contract was false for these inputs and the current contract state. Read the guard on the reported line and send values that satisfy it.''"
| "rule_help Limits = ''The entry declares a limits clause and this call would break it, for example by minting past the maximum supply. Lower the amount or read the current totals before calling.''"
| "rule_help Denies = ''The entry declares a denies clause that is true right now, for example the escrow is already funded or already settled. Read the contract state and call the entry only when it is open.''"
| "rule_help Invariant = ''Every call must leave the contract invariants true. This call would have broken the invariant on the reported line, so nothing was changed.''"
| "rule_help TooEarly = ''The entry declares an after clause and its waiting period has not finished. Wait until the period ends and call again.''"
| "rule_help OrderExpired = ''The order expiry is earlier than the block time. Sign a new order with a later expiry, at most 24 hours ahead, and send it promptly.''"
| "rule_help SignatureInvalid = ''The signature does not match the order that reached the contract. Sign the order with the Quantova SDK for this exact contract, entry, chain and current nonce, list the fields in the order the contract ABI gives, and do not change any value after signing.''"
| "rule_help SignerNotAuthorised = ''The entry requires an order signed by a specific role, such as the owner, issuer or registrar. Sign the order with the key that holds that role on this contract.''"
| "rule_help OrderMalformed = ''The order uses an unsupported signature scheme or its signature region lies outside the call memory. Build the call with the Quantova SDK instead of encoding it by hand.''"
| "rule_help QuorumDuplicate = ''Each approval must come from a different member and the approvals must be listed in increasing member index order. Remove the repeated approval and sort the rest by member index.''"
| "rule_help QuorumNotMember = ''An approval was signed by a key that is not in the guardian set at the given index. Use approvals from current members and give each one its correct index.''"
| "rule_help ArithmeticOverflow = ''An arithmetic result in the contract would leave its range, for example a subtraction below zero or a total above the type limit. Use smaller amounts or check the current values first.''"
| "rule_help ValueOutOfRange = ''One of the inputs does not fit the declared type, for example a number above the u8 or u64 range. Send a value inside the range of the parameter type.''"
| "rule_help BalanceTooLow = ''The contract tried to take more from an account balance than the account holds. Read the balance and send a smaller amount.''"
| "rule_help AssetTooLow = ''The contract tried to split or send more of an asset than it holds. Lower the amount or fund the contract first.''"
| "rule_help UnexpectedPayment = ''Native value was attached to an entry that has no asset parameter. Call it again with a value of zero.''"
| "rule_help PaymentMismatch = ''The value attached to the call must equal the amount given for the asset parameter. Set both to the same number.''"
| "rule_help AlreadyInitialised = ''Genesis runs once when the contract is deployed and cannot run again.''"
| "rule_help DeployParams = ''The deploy did not carry every parameter the contract genesis reads, or the parameter frame is not terminated. Deploy with the Quantova IDE or SDK so the parameters are framed correctly.''"
| "rule_help NameInvalid = ''Names must be between 3 and 32 bytes of lower case letters, digits and hyphens, with nothing after the declared length. Correct the name and call again.''"
| "rule_help GuardianSetInvalid = ''A guardian set must contain distinct members and no empty slot. Correct the member list and submit it again.''"
| "rule_help LegacyRule = ''A guard, limits, denies, signature or invariant check in the contract refused these inputs, so nothing was changed. This contract was compiled before rejection reasons were recorded. Check the inputs against the contract source, or recompile with the current Quanta compiler and deploy again to get the exact rule and line.''"
| "rule_help OutOfMeterRule = ''The call needed more meter than its limit allows. Raise the meter limit, up to 12,500,000 for a call or 50,000,000 for a deploy, or split the work across calls.''"
| "rule_help UnknownEntry = ''The call selector does not match any entry of this contract. Use the selector from the contract ABI for the entry you want.''"
| "rule_help MemoryOutOfRange = ''An argument or signature region points outside the contract memory. Build the call with the Quantova SDK so every offset matches the contract ABI.''"
| "rule_help EffectsTooLargeRule = ''The call emitted more events or payments than one call may carry. Split the work across several calls.''"
| "rule_help UndeclaredState = ''The contract read or wrote state outside its declared access list. This is a fault in the contract build. Recompile with the current Quanta compiler and deploy again.''"
| "rule_help UnsupportedScheme = ''Only the M'' @ ''L-DSA and SLH-DSA schemes are accepted. Sign with a supported Quantova key.''"
| "rule_help ContractFault = ''The contract code reached an invalid instruction or jump. Recompile the contract with the current Quanta compiler and deploy it again.''"
| "rule_help CryptoFaultRule = ''The signature check received data it could not process. Rebuild the signed call with the Quantova SDK.''"
| "rule_help InsufficientFunds = ''The contract tried to pay out more native value than it holds. Lower the amount or fund the contract first.''"
| "rule_help NoContract = ''No contract code is deployed at the target address. Check the address, or wait until the deploy has finalised.''"
| "rule_help ValueExceedsBalance = ''The value attached to the call is larger than the sender balance in that asset. Lower the value or fund the sender first.''"
| "rule_help TransferRejected = ''A payment the contract tried to make was refused by the ledger, for example to an address that cannot receive it. Check the recipient and amount.''"
| "rule_help DeployRejected = ''The container is not valid or does not carry an accepted provenance stamp. Compile and deploy with the Quantova IDE or SDK.''"
| "rule_help BlockStateLimit = ''The block reached its limit of new state entries. Send the transaction again, it will be included in a later block.''"
| "rule_help DivisionByZero = ''The contract divided by a value that was zero. Check the inputs that feed the division in the contract source.''"
| "rule_help MintCeiling = ''The contract tried to mint more than the ceiling declared at deploy. Lower the amount or deploy with a higher ceiling.''"
| "rule_help AssetStopped = ''The issuer of this asset has been stopped by governance, so the asset cannot move. Contact the issuer.''"
| "rule_help GenesisCall = ''Genesis runs only at deploy. Call one of the contract entries instead.''"

section \<open>Abort codes\<close>

definition abort_code :: "Rule \<Rightarrow> u32 \<Rightarrow> u64" where
  "abort_code rule line = ABORT_TAG OR push_bit 32 (ucast (rule_code rule)) OR ucast line"

definition split_code :: "u64 \<Rightarrow> (Rule \<times> u32) option" where
  "split_code c =
     (if c AND TAG_MASK \<noteq> ABORT_TAG then None
      else
        let rule = ucast (drop_bit 32 c AND 0xffff) in
        Some (from_code rule, ucast c))"

definition abort_stub :: "u64 \<Rightarrow> Instr list" where
  "abort_stub c = [Ldi ABORT_REG c, Ldi ZERO_REG 0, Div ABORT_REG ABORT_REG ZERO_REG]"

definition reason_in :: "u64 list \<Rightarrow> (Rule \<times> u32) option" where
  "reason_in rs =
     (if unat ABORT_REG < length rs
      then (if rs ! unat ABORT_REG = 0 then Some (LegacyRule, 0) else split_code (rs ! unat ABORT_REG))
      else None)"

primrec rule_of_fault :: "fault \<Rightarrow> Rule" where
  "rule_of_fault OutOfMeter = OutOfMeterRule"
| "rule_of_fault Overflow = ArithmeticOverflow"
| "rule_of_fault DivByZero = DivisionByZero"
| "rule_of_fault StackOverflow = ContractFault"
| "rule_of_fault StackUnderflow = ContractFault"
| "rule_of_fault BadJump = ContractFault"
| "rule_of_fault BadConst = ContractFault"
| "rule_of_fault Malformed = ContractFault"
| "rule_of_fault (DecodeFault _) = ContractFault"
| "rule_of_fault BadMemory = MemoryOutOfRange"
| "rule_of_fault UnknownSelector = UnknownEntry"
| "rule_of_fault BadScheme = UnsupportedScheme"
| "rule_of_fault EffectsTooLarge = EffectsTooLargeRule"
| "rule_of_fault UndeclaredSlot = UndeclaredState"
| "rule_of_fault CryptoFault = CryptoFaultRule"

section \<open>Halting stubs\<close>

text \<open>The guards of the loop over \<open>list.windows(3)\<close>.\<close>

definition tagged :: "Instr \<Rightarrow> bool" where
  "tagged i = (case i of Ldi d imm \<Rightarrow> d = ABORT_REG \<and> imm AND TAG_MASK = ABORT_TAG | _ \<Rightarrow> False)"

definition zeroed :: "Instr \<Rightarrow> bool" where
  "zeroed i = (i = Ldi ZERO_REG 0)"

definition divides :: "Instr \<Rightarrow> bool" where
  "divides i = (i = Div ABORT_REG ABORT_REG ZERO_REG)"

definition legacy :: "Instr \<Rightarrow> Instr \<Rightarrow> bool" where
  "legacy second third = (second = Ldi ABORT_REG 0 \<and> third = Div ABORT_REG ABORT_REG ABORT_REG)"

definition is_stub :: "Instr \<Rightarrow> Instr \<Rightarrow> Instr \<Rightarrow> bool" where
  "is_stub first second third =
     ((tagged first \<and> zeroed second \<and> divides third) \<or> legacy second third)"

text \<open>The inner loop, which fills the patch with \<open>Nop\<close>s up to the length of the instruction.\<close>

function pad_nops :: "nat \<Rightarrow> bytes \<Rightarrow> bytes" where
  "pad_nops n patch = (if length patch < n then pad_nops n (patch @ encode Nop) else patch)"
  by pat_completeness auto
termination
  by (relation "measure (\<lambda>(n, patch). n - length patch)") (auto simp: encode_def)

declare pad_nops.simps [simp del]

text \<open>\<open>out[at..at + len].copy_from_slice(patch)\<close>, which panics out of range or at another length.\<close>

definition copy_from_slice :: "bytes \<Rightarrow> nat \<Rightarrow> nat \<Rightarrow> bytes \<Rightarrow> exn + bytes" where
  "copy_from_slice out at len patch =
     (if at + len \<le> length out \<and> length patch = len then Inr (copy_into out at patch) else Inl Panic)"

fun patch_windows ::
  "(nat \<times> Instr \<times> nat) list \<Rightarrow> bytes \<Rightarrow> bool \<Rightarrow> exn + bytes \<times> bool" where
  "patch_windows (first # second # third # rest) out found =
     (if is_stub (fst (snd first)) (fst (snd second)) (fst (snd third)) then
        let patch = pad_nops (snd (snd third)) (encode Halt) in
        bindE (copy_from_slice out (fst third) (snd (snd third)) patch) (\<lambda>out.
          patch_windows (second # third # rest) out True)
      else patch_windows (second # third # rest) out found)"
| "patch_windows _ out found = Inr (out, found)"

definition halting_stubs :: "bytes \<Rightarrow> exn + bytes option" where
  "halting_stubs cd =
     (case listing cd 0 of
        None \<Rightarrow> Inr None
      | Some list \<Rightarrow>
          bindE (patch_windows list cd False) (\<lambda>(out, found). Inr (if found then Some out else None)))"

section \<open>Codes and rules\<close>

lemma rules_complete: "set ALL_RULES = UNIV"
proof -
  have "r \<in> set ALL_RULES" for r
    by (cases r) (simp_all add: ALL_RULES_def)
  then show ?thesis by auto
qed

lemma from_rule_code: "from_code (rule_code r) = r"
proof -
  have "find (\<lambda>q. q = r) ALL_RULES = Some r"
    by (cases r) (simp_all add: ALL_RULES_def)
  then show ?thesis
    by (simp add: from_code_def)
qed

abbreviation tag_word :: "u16 \<Rightarrow> u32 \<Rightarrow> u64" where
  "tag_word k line \<equiv> ABORT_TAG OR push_bit 32 (ucast k) OR ucast line"

lemma bit_push_u64: "bit (push_bit k (w :: u64)) n \<longleftrightarrow> k \<le> n \<and> n < 64 \<and> bit w (n - k)"
  by (auto simp: bit_push_bit_iff possible_bit_def)

lemma bit_16_ones: "bit (0xffff :: u64) n \<longleftrightarrow> n < 16"
proof -
  have "(0xffff :: u64) = mask 16"
    by (simp add: mask_eq_exp_minus_1)
  then show ?thesis
    by (simp only: bit_mask_iff possible_bit_word) auto
qed

lemma bit_TAG_MASK: "bit TAG_MASK n \<longleftrightarrow> 48 \<le> n \<and> n < 64"
  unfolding TAG_MASK_def bit_push_u64 bit_16_ones by auto

lemma bit_ABORT_TAG: "bit ABORT_TAG n \<Longrightarrow> 48 \<le> n \<and> n < 64"
  unfolding ABORT_TAG_def bit_push_u64 by simp

lemma ABORT_TAG_masked [simp]: "ABORT_TAG AND TAG_MASK = ABORT_TAG"
  by (rule bit_word_eqI) (auto simp: bit_and_iff bit_TAG_MASK dest: bit_ABORT_TAG)

lemma ucast_low [simp]: "(ucast (x AND 0xffff :: u64) :: u16) = ucast x"
  by (rule bit_word_eqI) (unfold bit_ucast_iff bit_and_iff bit_16_ones, auto)

lemma bit_tag_word:
  "bit (tag_word k line) n \<longleftrightarrow>
     bit ABORT_TAG n \<or> (32 \<le> n \<and> n < 48 \<and> bit k (n - 32)) \<or> (n < 32 \<and> bit line n)"
  using bit_imp_le_length [of k "n - 32"] bit_imp_le_length [of line n]
  by (auto simp: bit_or_iff bit_push_bit_iff bit_ucast_iff possible_bit_def)

lemma tag_word_fields:
  "tag_word k line AND TAG_MASK = ABORT_TAG"
  "ucast (drop_bit 32 (tag_word k line)) = k"
  "ucast (tag_word k line) = line"
proof -
  show "tag_word k line AND TAG_MASK = ABORT_TAG"
    by (rule bit_word_eqI) (unfold bit_and_iff bit_tag_word bit_TAG_MASK, auto dest: bit_ABORT_TAG)
  show "ucast (drop_bit 32 (tag_word k line)) = k"
    by (rule bit_word_eqI) (unfold bit_ucast_iff bit_drop_bit_eq comp_def bit_tag_word,
        auto simp: possible_bit_def dest: bit_ABORT_TAG)
  show "ucast (tag_word k line) = line"
    by (rule bit_word_eqI) (unfold bit_ucast_iff bit_tag_word,
        auto simp: possible_bit_def dest: bit_ABORT_TAG)
qed

lemma tag_word_split:
  assumes "c AND TAG_MASK = ABORT_TAG"
  shows "c = tag_word (ucast (drop_bit 32 c)) (ucast c)"
proof (rule bit_word_eqI)
  fix n
  assume n: "n < LENGTH(64)"
  have high: "bit c n \<longleftrightarrow> bit ABORT_TAG n" if "48 \<le> n"
  proof -
    have "bit (c AND TAG_MASK) n \<longleftrightarrow> bit c n"
      using that n by (simp add: bit_and_iff bit_TAG_MASK)
    then show ?thesis
      using assms by simp
  qed
  show "bit c n \<longleftrightarrow> bit (tag_word (ucast (drop_bit 32 c)) (ucast c)) n"
    unfolding bit_tag_word using n high bit_ABORT_TAG [of n]
    by (cases "48 \<le> n") (auto simp: bit_ucast_iff bit_drop_bit_eq possible_bit_def)
qed

lemma split_code_iff:
  "split_code c = Some (r, line) \<longleftrightarrow> (\<exists>k. c = tag_word k line \<and> r = from_code k)"
proof
  assume s: "split_code c = Some (r, line)"
  then have t: "c AND TAG_MASK = ABORT_TAG" and "r = from_code (ucast (drop_bit 32 c))" "line = ucast c"
    by (auto simp: split_code_def Let_def split: if_splits)
  then show "\<exists>k. c = tag_word k line \<and> r = from_code k"
    using tag_word_split [OF t] by blast
next
  assume "\<exists>k. c = tag_word k line \<and> r = from_code k"
  then obtain k where "c = tag_word k line" "r = from_code k"
    by blast
  then show "split_code c = Some (r, line)"
    by (simp only: split_code_def Let_def ucast_low tag_word_fields simp_thms if_False)
qed

lemma split_abort_code: "split_code (abort_code r line) = Some (r, line)"
  by (auto simp: split_code_iff abort_code_def from_rule_code intro!: exI [of _ "rule_code r"])

lemma abort_code_nonzero: "abort_code r line \<noteq> 0"
  using split_abort_code [of r line] by (auto simp: split_code_def ABORT_TAG_def)

lemma from_code_known: "from_code k = r \<Longrightarrow> r \<noteq> Unknown \<Longrightarrow> k = rule_code r"
  by (auto simp: from_code_def find_Some_iff split: option.splits)

lemma tag_iff: "c AND TAG_MASK = ABORT_TAG \<longleftrightarrow> drop_bit 48 c = 0x5154"
proof -
  have "c AND TAG_MASK = push_bit 48 (drop_bit 48 c)"
    by (rule bit_word_eqI) (unfold bit_and_iff bit_TAG_MASK bit_push_u64, auto simp: bit_drop_bit_eq)
  moreover have "drop_bit 48 (push_bit 48 (drop_bit 48 c)) = drop_bit 48 c"
    by (rule bit_word_eqI) (use bit_imp_le_length [of c] in \<open>fastforce simp: bit_drop_bit_eq bit_push_bit_iff possible_bit_def\<close>)
  moreover have "drop_bit 48 ABORT_TAG = 0x5154"
    by (simp add: ABORT_TAG_def)
  ultimately show ?thesis
    by (auto simp: ABORT_TAG_def)
qed

section \<open>The programs of halting stubs\<close>

definition ends_stub :: "Instr list \<Rightarrow> Instr \<Rightarrow> bool" where
  "ends_stub before i = (case rev before of b # a # _ \<Rightarrow> is_stub a b i | _ \<Rightarrow> False)"

fun halt_after :: "Instr list \<Rightarrow> Instr list \<Rightarrow> Instr list" where
  "halt_after before [] = []"
| "halt_after before (i # is) =
     (if ends_stub before i then [Halt, Nop, Nop, Nop] else [i]) @ halt_after (before @ [i]) is"

abbreviation halted :: "Instr list \<Rightarrow> Instr list" where
  "halted \<equiv> halt_after []"

fun stub_after :: "Instr list \<Rightarrow> Instr list \<Rightarrow> bool" where
  "stub_after before [] = False"
| "stub_after before (i # is) = (ends_stub before i \<or> stub_after (before @ [i]) is)"

lemma ends_stub_simps [simp]:
  "ends_stub [] i = False"
  "ends_stub [a] i = False"
  "ends_stub (before @ [a, b]) i = is_stub a b i"
  "ends_stub (before @ a # [b]) i = is_stub a b i"
  by (simp_all add: ends_stub_def)

lemma halt_after_append:
  "halt_after before (xs @ ys) = halt_after before xs @ halt_after (before @ xs) ys"
  by (induction xs arbitrary: before) auto

lemma stub_after_append: "stub_after before (xs @ ys) \<longleftrightarrow> stub_after before xs \<or> stub_after (before @ xs) ys"
  by (induction xs arbitrary: before) auto

lemma is_stub_Div: "is_stub a b i \<Longrightarrow> \<exists>x. i = Div ABORT_REG ABORT_REG x"
  by (auto simp: is_stub_def divides_def legacy_def)

lemma ends_stub_Div: "ends_stub before i \<Longrightarrow> \<exists>x. i = Div ABORT_REG ABORT_REG x"
  by (auto simp: ends_stub_def is_stub_Div split: list.splits)

lemma encode_Div_length: "length (encode (Div d a b)) = 4"
  by (simp add: encode_def)

lemma encode_Halt: "encode Halt = [0]" and encode_Nop: "encode Nop = [1]"
  by (simp_all add: encode_def)

lemma halt_patch: "pad_nops 4 (encode Halt) = bytes_of [Halt, Nop, Nop, Nop]"
  by (simp add: encode_Halt encode_Nop pad_nops.simps)

lemma halt_after_length: "length (bytes_of (halt_after before is)) = length (bytes_of is)"
proof (induction "is" arbitrary: before)
  case (Cons i "is")
  then show ?case
    by (auto simp: encode_Div_length encode_Halt encode_Nop dest!: ends_stub_Div)
qed simp

lemma stub_after_iff: "stub_after before is \<longleftrightarrow> halt_after before is \<noteq> is"
proof -
  have grow: "length is \<le> length (halt_after before is)" for before "is"
  proof (induction "is" arbitrary: before)
    case (Cons i "is")
    show ?case
      using Cons.IH [of "before @ [i]"] by simp
  qed simp
  show ?thesis
  proof (induction "is" arbitrary: before)
    case (Cons i "is")
    have "halt_after before (i # is) \<noteq> i # is" if "ends_stub before i"
      using that grow [of "is" "before @ [i]"] by (auto dest!: ends_stub_Div)
    then show ?case
      using Cons by auto
  qed simp
qed

lemma copy_into_middle:
  "copy_into (xs @ ys @ zs) (length xs) ws = xs @ ws @ zs" if "length ws = length ys"
  using that by (simp add: copy_into_def)

lemma patch_windows_layout:
  "length pre = p + encoded_len a + encoded_len b \<Longrightarrow>
   patch_windows (layout p (a # b # is)) (pre @ bytes_of is) found =
     Inr (pre @ bytes_of (halt_after (before @ [a, b]) is), found \<or> stub_after (before @ [a, b]) is)"
proof (induction "is" arbitrary: p a b pre found before)
  case (Cons i "is")
  have IH: "patch_windows (layout (p + encoded_len a) (b # i # is)) (pre @ ins @ bytes_of is) f =
      Inr (pre @ ins @ bytes_of (halt_after ((before @ [a]) @ [b, i]) is),
           f \<or> stub_after ((before @ [a]) @ [b, i]) is)"
    if "length ins = encoded_len i" for ins f
    using Cons.IH [of "pre @ ins" "p + encoded_len a" b i f "before @ [a]"] Cons.prems that by simp
  show ?case
  proof (cases "is_stub a b i")
    case True
    then obtain x where i: "i = Div ABORT_REG ABORT_REG x"
      using is_stub_Div by blast
    define patch where "patch = bytes_of [Halt, Nop, Nop, Nop]"
    have len: "encoded_len i = 4" "length patch = 4" "length (encode i) = 4"
      by (simp_all add: i patch_def encoded_len_def encode_Div_length encode_Halt encode_Nop)
    have pad: "pad_nops 4 (encode Halt) = patch"
      unfolding patch_def by (rule halt_patch)
    have bytes: "bytes_of (halt_after (before @ [a, b]) (i # is)) =
        patch @ bytes_of (halt_after (before @ [a, b, i]) is)"
      using True by (simp add: patch_def)
    have copy: "copy_from_slice (pre @ bytes_of (i # is)) (p + encoded_len a + encoded_len b) 4 patch =
        Inr (pre @ patch @ bytes_of is)"
      using len Cons.prems copy_into_middle [of patch "encode i" pre "bytes_of is"]
      by (simp add: copy_from_slice_def)
    show ?thesis
      using True IH [of patch True] unfolding bytes
      by (simp add: len pad copy [simplified])
  next
    case False
    then show ?thesis
      using IH [of "encode i" found] by (simp add: encoded_len_def)
  qed
qed simp

lemma layout_inject: "layout p is = layout p is' \<Longrightarrow> is = is'"
proof (induction "is" arbitrary: p "is'")
  case Nil
  then show ?case by (cases "is'") auto
next
  case (Cons i "is")
  then show ?case by (cases "is'") auto
qed

lemma bytes_of_inject:
  assumes "list_all wf_instr is" "list_all wf_instr is'" "bytes_of is = bytes_of is'"
  shows "is = is'"
  using listing_program [OF assms(1), of "[]"] listing_program [OF assms(2), of "[]"] assms(3)
    layout_inject [of 0 "is" "is'"] by simp

lemma patch_program:
  assumes "list_all wf_instr is"
  shows "patch_windows (layout 0 is) (bytes_of is) False =
      Inr (bytes_of (halted is), stub_after [] is)"
proof (cases "is")
  case (Cons a r)
  note a = this
  show ?thesis
  proof (cases r)
    case (Cons b r')
    then show ?thesis
      using patch_windows_layout [of "encode a @ encode b" 0 a b r' False "[]"] a
      by (simp add: encoded_len_def)
  qed (simp add: a)
qed simp

lemma halting_stubs_program:
  assumes "list_all wf_instr is"
  shows "halting_stubs (bytes_of is) =
      Inr (if halted is \<noteq> is then Some (bytes_of (halted is)) else None)"
  using listing_program [OF assms, of "[]"] patch_program [OF assms]
  by (simp add: halting_stubs_def stub_after_iff)

lemma halting_stubs_None:
  assumes "listing cd 0 = None"
  shows "halting_stubs cd = Inr None"
  using assms by (simp add: halting_stubs_def)

lemma halting_stubs_cases:
  obtains "is" where "list_all wf_instr is" "cd = bytes_of is" | "listing cd 0 = None"
  using listing_iff [of cd] by (cases "listing cd 0") auto

section \<open>Properties\<close>

text \<open>The catalogue: a rule is found again from its code, the published list holds every rule
  in the order of the codes, once, and neither a name nor a title is shared by two rules.\<close>

theorem rule_catalogue:
  "from_code (rule_code r) = r \<and> set all_rules = UNIV \<and> sorted_wrt (<) all_rules \<and>
   distinct (map rule_name all_rules) \<and>
   distinct (map rule_title all_rules)"
proof (intro conjI)
  show "from_code (rule_code r) = r"
    by (rule from_rule_code)
  have "set all_rules = set ALL_RULES"
    unfolding all_rules_def ALL_RULES_def by (simp, blast)
  then show "set all_rules = UNIV"
    by (simp add: rules_complete)
qed (simp_all add: all_rules_def ALL_RULES_def less_Rule_def)

text \<open>C27. An abort code carries its rule and its line: splitting gives both back, no other word
  gives a known rule, a word without the tag gives none, and a program that halts with the code
  in register 0 reports its reason.\<close>

theorem abort_code_roundtrip:
  "split_code (abort_code r line) = Some (r, line) \<and>
   reason_in (abort_code r line # rs) = Some (r, line) \<and>
   (r \<noteq> Unknown \<and> split_code c = Some (r, line)) = (r \<noteq> Unknown \<and> c = abort_code r line) \<and>
   (split_code c = None \<longleftrightarrow> drop_bit 48 c \<noteq> 0x5154)"
proof (intro conjI)
  show split: "split_code (abort_code r line) = Some (r, line)"
    by (rule split_abort_code)
  show "reason_in (abort_code r line # rs) = Some (r, line)"
    by (simp add: reason_in_def ABORT_REG_def abort_code_nonzero split)
  show "(r \<noteq> Unknown \<and> split_code c = Some (r, line)) = (r \<noteq> Unknown \<and> c = abort_code r line)"
  proof (cases "r = Unknown")
    case False
    have "split_code c = Some (r, line) \<longleftrightarrow> c = abort_code r line"
      using from_code_known [OF _ False] split by (auto simp: split_code_iff abort_code_def)
    then show ?thesis by simp
  qed simp
  show "split_code c = None \<longleftrightarrow> drop_bit 48 c \<noteq> 0x5154"
    by (simp add: split_code_def Let_def tag_iff)
qed

text \<open>C19. The rewriting of stubs never panics, and gives new code exactly for a program with an
  abort stub: the encoding, at the same length, of the program in which each division that ends
  a stub is replaced by a halt.\<close>

theorem halting_stubs_exact:
  "(halting_stubs cd = Inr (Some out) \<longleftrightarrow>
     (\<exists>is. list_all wf_instr is \<and> cd = bytes_of is \<and> halted is \<noteq> is \<and>
       out = bytes_of (halted is) \<and> length out = length cd)) \<and>
   (\<exists>r. halting_stubs cd = Inr r)"
proof (rule halting_stubs_cases [of cd])
  fix "is"
  assume "is": "list_all wf_instr is" "cd = bytes_of is"
  have "js = is" if "list_all wf_instr js" "cd = bytes_of js" for js
    using that "is" bytes_of_inject by simp
  then show ?thesis
    using "is" halting_stubs_program [of "is"] halt_after_length [of "[]"] by (auto split: if_splits)
next
  assume none: "listing cd 0 = None"
  have "\<not> (list_all wf_instr js \<and> cd = bytes_of js)" for js
    using none listing_iff [of cd] by fastforce
  then show ?thesis
    using halting_stubs_None [OF none] by auto
qed

end
