(* ===== verification/Frames.thy ===== *)
theory Frames
  imports Reach
begin

text \<open>
  Changes of a state that an operation does not look at.  The locale \<open>reframing\<close> is the contract
  of a map of states that keeps the fields an operation reads and commutes with the updates it
  makes; every operation that touches neither storage nor code then commutes with the map.
  \<open>code_reframing\<close> adds the code and its jump targets, and with them the head of the loop and the
  jumps.  \<open>Stubs\<close> interprets the first for a change of code, \<open>Isolation\<close> the second for a change of storage.
\<close>

section \<open>Results under a map\<close>

lemma map_bindE [simp]: "map_sum id f (bindE r g) = bindE r (\<lambda>x. map_sum id f (g x))"
  by (cases r) simp_all

lemma bindE_map [simp]: "bindE (map_sum id f r) g = bindE r (\<lambda>x. g (f x))"
  by (cases r) simp_all

lemma map_if [simp]: "map_sum id f (if b then x else y) = (if b then map_sum id f x else map_sum id f y)"
  by simp

lemma bindE_if: "bindE (if b then x else y) f = (if b then bindE x f else bindE y f)"
  by simp

text \<open>Operations that look at neither the storage nor the code.\<close>

definition touches_storage :: "Instr \<Rightarrow> bool" where
  "touches_storage i = (case i of SLoad _ _ \<Rightarrow> True | SStore _ _ \<Rightarrow> True | _ \<Rightarrow> False)"

definition jumps :: "Instr \<Rightarrow> bool" where
  "jumps i = (case i of Jmp _ \<Rightarrow> True | Jz _ _ \<Rightarrow> True | Jnz _ _ \<Rightarrow> True | Call _ \<Rightarrow> True | Ret \<Rightarrow> True | _ \<Rightarrow> False)"

named_theorems frame_ops "operations commute with a reframing"

section \<open>A map that keeps everything but code and storage\<close>

locale reframing =
  fixes f :: "interp \<Rightarrow> interp"
  assumes fields [simp]:
    "machine (f s) = machine s" "meter_limit (f s) = meter_limit s" "meter_used (f s) = meter_used s"
    "consts_pool (f s) = consts_pool s" "dirty (f s) = dirty s" "effects (f s) = effects s"
    "effects_bytes (f s) = effects_bytes s" "keyed_bytes (f s) = keyed_bytes s"
    "durable_targets (f s) = durable_targets s" "event_records (f s) = event_records s"
    "manifest (f s) = manifest s" "keyed_authorized_reads (f s) = keyed_authorized_reads s"
    "keyed_authorized_writes (f s) = keyed_authorized_writes s" "fresh_charged (f s) = fresh_charged s"
    "strict (f s) = strict s"
  and updates [simp]:
    "(f s)\<lparr>machine := m\<rparr> = f (s\<lparr>machine := m\<rparr>)" "(f s)\<lparr>meter_used := u\<rparr> = f (s\<lparr>meter_used := u\<rparr>)"
    "(f s)\<lparr>dirty := K\<rparr> = f (s\<lparr>dirty := K\<rparr>)" "(f s)\<lparr>effects := e\<rparr> = f (s\<lparr>effects := e\<rparr>)"
    "(f s)\<lparr>effects_bytes := n\<rparr> = f (s\<lparr>effects_bytes := n\<rparr>)"
    "(f s)\<lparr>keyed_bytes := n\<rparr> = f (s\<lparr>keyed_bytes := n\<rparr>)"
    "(f s)\<lparr>durable_targets := K\<rparr> = f (s\<lparr>durable_targets := K\<rparr>)"
    "(f s)\<lparr>event_records := n\<rparr> = f (s\<lparr>event_records := n\<rparr>)"
    "(f s)\<lparr>keyed_authorized_reads := K\<rparr> = f (s\<lparr>keyed_authorized_reads := K\<rparr>)"
    "(f s)\<lparr>keyed_authorized_writes := K\<rparr> = f (s\<lparr>keyed_authorized_writes := K\<rparr>)"
    "(f s)\<lparr>fresh_charged := K\<rparr> = f (s\<lparr>fresh_charged := K\<rparr>)"
begin

abbreviation lift :: "exn + interp \<Rightarrow> exn + interp" where
  "lift \<equiv> map_sum id f"

abbreviation lift_step :: "exn + Step \<times> interp \<Rightarrow> exn + Step \<times> interp" where
  "lift_step \<equiv> map_sum id (map_prod id f)"

lemma frame_charge [frame_ops]: "charge a (f s) = lift (charge a s)"
  by (simp add: charge_def cong: if_cong option.case_cong)

lemma frame_charge_effect [frame_ops]: "charge_effect n (f s) = lift (charge_effect n s)"
  by (simp add: charge_effect_def Let_def frame_charge cong: if_cong option.case_cong)

lemma frame_run_crypto [frame_ops]: "run_crypto g (f s) = lift (run_crypto g s)"
  by (simp add: run_crypto_def split: sum.split exn.split cong: if_cong option.case_cong)

lemma frame_durable [frame_ops]: "charge_durable_target k t (f s) = lift (charge_durable_target k t s)"
  by (simp add: charge_durable_target_def Let_def frame_charge cong: if_cong option.case_cong)

lemma frame_retain [frame_ops]: "retain_keyed n (f s) = lift (retain_keyed n s)"
  by (simp add: retain_keyed_def cong: if_cong option.case_cong)

lemma frame_record [frame_ops]: "record_keyed w r key (f s) = lift (record_keyed w r key s)"
  by (simp add: record_keyed_def charge_keyed_def Let_def frame_charge frame_retain cong: if_cong option.case_cong)

lemma frame_taint [frame_ops]: "taint_keyed_from_hash b p (f s) = lift (taint_keyed_from_hash b p s)"
  by (simp add: taint_keyed_from_hash_def Let_def frame_record split: option.split cong: if_cong option.case_cong)

lemma frame_on_machine [frame_ops]: "on_machine (f s) r = lift_step (on_machine s r)"
  by (simp add: on_machine_def cong: if_cong option.case_cong)

lemma frame_send [frame_ops]: "exec_send (f s) a b c = lift_step (exec_send s a b c)"
  by (simp add: exec_send_def frame_charge_effect frame_durable cong: if_cong option.case_cong)

lemma frame_count [frame_ops]: "count_event (f s) = lift (count_event s)"
  by (simp add: count_event_def Let_def frame_charge cong: if_cong option.case_cong)

lemma frame_optional: "bindE (if b then lift r else Inr (f s)) g = bindE (if b then r else Inr s) (\<lambda>x. g (f x))"
  by simp

lemma frame_emit [frame_ops]: "exec_emit (f s) a b c = lift_step (exec_emit s a b c)"
  by (simp add: exec_emit_def Let_def frame_charge frame_charge_effect frame_durable frame_count frame_optional
      cong: if_cong option.case_cong)

lemma frame_hash [frame_ops]: "exec_hash P (f s) a b c = lift_step (exec_hash P s a b c)"
  by (simp add: exec_hash_def Let_def frame_charge frame_run_crypto frame_taint cong: if_cong option.case_cong)

lemma frame_verify [frame_ops]: "exec_verify g h p (f s) b = lift_step (exec_verify g h p s b)"
  by (simp add: exec_verify_def frame_charge frame_run_crypto cong: if_cong option.case_cong)

lemma frame_step:
  "\<not> touches_storage i \<Longrightarrow> \<not> jumps i \<Longrightarrow> step P (f s) i = lift_step (step P s i)"
  by (cases i) (simp_all add: step_def Let_def touches_storage_def jumps_def
      frame_on_machine frame_send frame_emit frame_hash frame_verify frame_run_crypto)

end

section \<open>A map that keeps everything but storage\<close>

locale code_reframing = reframing +
  assumes code_fields [simp]: "code (f s) = code s" "bounds (f s) = bounds s"
begin

lemma frame_fetch: "fetch (f s) = map_sum id (map_prod id f) (fetch s)"
  by (simp add: fetch_def Let_def frame_charge split_def cong: if_cong option.case_cong)

lemma frame_jump_to: "jump_to (f s) t = lift_step (jump_to s t)"
  by (simp add: jump_to_def target_ok_def)

lemma frame_jumps:
  "exec_jump_if (f s) a c t = lift_step (exec_jump_if s a c t)"
  "exec_call (f s) t = lift_step (exec_call s t)" "exec_ret (f s) = lift_step (exec_ret s)"
  by (simp_all add: exec_jump_if_def exec_call_def exec_ret_def frame_jump_to split_def cong: if_cong)

lemma frame_plain: "\<not> touches_storage i \<Longrightarrow> step P (f s) i = lift_step (step P s i)"
  using frame_step [of i P s]
  by (cases "jumps i") (cases i; simp add: step_def Let_def jumps_def frame_jump_to frame_jumps)

end
end
