(* ===== verification/Stubs.thy ===== *)
theory Stubs
  imports Hosting Abort Frames
begin

text \<open>
  Operations of the interpreter on other code: the relation between a program and its rewriting
  by \<open>halting_stubs\<close>, instruction by instruction.
\<close>

section \<open>The interpreter on patched code\<close>

text \<open>
  \<open>recode cd B s\<close> is the state \<open>s\<close> on other code with other jump targets.  Only the head of
  the loop and the jumps look at them, so every other operation commutes with \<open>recode\<close>.
\<close>

definition recode :: "bytes \<Rightarrow> u32 fset \<Rightarrow> interp \<Rightarrow> interp" where
  "recode cd B s = s\<lparr>code := cd, bounds := B\<rparr>"

interpretation recoded: reframing "recode cd B" for cd B
  by unfold_locales (simp_all add: recode_def)

abbreviation restep :: "bytes \<Rightarrow> u32 fset \<Rightarrow> exn + Step \<times> interp \<Rightarrow> exn + Step \<times> interp" where
  "restep cd B \<equiv> map_sum id (map_prod id (recode cd B))"

lemma recode_fields [simp]:
  "storage (recode cd B s) = storage s" "loader (recode cd B s) = loader s" "loaded (recode cd B s) = loaded s"
  "code (recode cd B s) = cd" "bounds (recode cd B s) = B"
  "(recode cd B s)\<lparr>storage := st\<rparr> = recode cd B (s\<lparr>storage := st\<rparr>)"
  "(recode cd B s)\<lparr>loaded := l\<rparr> = recode cd B (s\<lparr>loaded := l\<rparr>)"
  by (simp_all add: recode_def)

lemma recode_fetch_slot: "fetch_slot (recode cd B s) key = map_prod id (recode cd B) (fetch_slot s key)"
  by (simp add: fetch_slot_def split: option.split cong: if_cong option.case_cong)

lemma recode_charge_store: "charge_store key v (recode cd B s) = map_sum id (recode cd B) (charge_store key v s)"
  by (cases "fetch_slot s key")
    (simp add: charge_store_def Let_def recode_fetch_slot recoded.frame_charge bindE_if cong: if_cong option.case_cong
      del: bindE_Inr_iff)

lemma recode_sload: "exec_sload (recode cd B s) d a = restep cd B (exec_sload s d a)"
  by (simp add: exec_sload_def Let_def recode_fetch_slot recoded.frame_on_machine split_def split: option.split
      cong: if_cong option.case_cong)

lemma recode_sstore: "exec_sstore (recode cd B s) a b = restep cd B (exec_sstore s a b)"
  by (simp add: exec_sstore_def recode_charge_store split: option.split cong: if_cong option.case_cong)

text \<open>An instruction that succeeds does the same on code with more jump targets.\<close>

lemma recode_jump: "jump_to s t = Inr r \<Longrightarrow> bounds s |\<subseteq>| B \<Longrightarrow> jump_to (recode cd B s) t = restep cd B (Inr r)"
  by (auto simp: jump_to_def target_ok_def split: if_splits)

lemma recode_jump_if:
  "exec_jump_if s a c t = Inr r \<Longrightarrow> bounds s |\<subseteq>| B \<Longrightarrow>
     exec_jump_if (recode cd B s) a c t = restep cd B (Inr r)"
  by (auto simp: exec_jump_if_def recode_jump split: if_splits)

lemma recode_call:
  "exec_call s t = Inr r \<Longrightarrow> bounds s |\<subseteq>| B \<Longrightarrow> exec_call (recode cd B s) t = restep cd B (Inr r)"
  by (auto simp: exec_call_def recode_jump simp del: push_or_fault_Inr_iff)

lemma recode_ret:
  assumes "exec_ret s = Inr r" and "bounds s |\<subseteq>| B"
  shows "exec_ret (recode cd B s) = restep cd B (Inr r)"
proof -
  obtain v m where "pop (machine s) = Some (v, m)" "unat v < 2 ^ 32"
      "jump_to (s\<lparr>machine := m\<rparr>) (ucast v) = Inr r"
    using assms(1) by (auto simp: exec_ret_def split: if_splits)
  moreover from this have "jump_to (recode cd B (s\<lparr>machine := m\<rparr>)) (ucast v) = restep cd B (Inr r)"
    using assms(2) by (intro recode_jump) simp_all
  ultimately show ?thesis
    by (simp add: exec_ret_def del: bindE_Inr_iff)
qed

lemma recode_step:
  assumes "step P s i = Inr (st, s')" and "bounds s |\<subseteq>| B"
  shows "step P (recode cd B s) i = Inr (st, recode cd B s')"
proof (cases "touches_storage i \<or> jumps i")
  case True
  then show ?thesis
    using assms
    by (cases i) (simp_all add: step_def Let_def touches_storage_def jumps_def recode_sload recode_sstore recode_jump
        recode_jump_if recode_call recode_ret del: bindE_Inr_iff, auto)
next
  case False
  then show ?thesis
    using assms(1) recoded.frame_step [of i P cd B s] by simp
qed

end
