(* ===== verification/StubRuns.thy ===== *)
theory StubRuns
  imports Stubs Simulation
begin

text \<open>
  The offsets of rewritten code, runs on it in lockstep with the original, and what a stub does
  on both.
\<close>

section \<open>Offsets of patched code\<close>

lemma wf_halt_after: "list_all wf_instr is \<Longrightarrow> list_all wf_instr (halt_after before is)"
  by (induction "is" arbitrary: before) (auto simp: wf_instr_def)

lemma halted_split: "halted (pre @ i # post) = halted pre @
    (if ends_stub pre i then [Halt, Nop, Nop, Nop] else [i]) @ halt_after (pre @ [i]) post"
  by (simp add: halt_after_append)

lemma halted_decode:
  assumes "list_all wf_instr (pre @ i # post)" and "\<not> ends_stub pre i"
  shows "decode (bytes_of (halted (pre @ i # post))) (length (bytes_of pre)) = Inr (i, encoded_len i)"
  using assms decode_encode [of i "bytes_of (halted pre)" "bytes_of (halt_after (pre @ [i]) post)"]
    halt_after_length [of "[]" pre]
  by (simp add: halted_split)

lemma halted_halt:
  assumes "ends_stub pre i"
  shows "decode (bytes_of (halted (pre @ i # post))) (length (bytes_of pre)) = Inr (Halt, encoded_len Halt)"
  using assms halt_after_length [of "[]" pre]
    decode_encode [of Halt "bytes_of (halted pre)" "bytes_of ([Nop, Nop, Nop] @ halt_after (pre @ [i]) post)"]
  by (simp add: halted_split wf_instr_def)

lemma halted_boundaries:
  assumes "list_all wf_instr is"
  shows "boundaries (bytes_of is) |\<subseteq>| boundaries (bytes_of (halted is))"
proof
  fix t
  assume "t |\<in>| boundaries (bytes_of is)"
  then have "seq_pc (bytes_of is) (unat t)" and d: "decodes (bytes_of is) (unat t)"
    by (simp_all add: boundaries_iff)
  then obtain pre post where p: "is = pre @ post" "unat t = length (bytes_of pre)"
    using seq_in_program assms by blast
  have "post \<noteq> []"
    using d p by (auto simp: decodes_def decode_end)
  then obtain i r where r: "post = i # r"
    by (cases post) auto
  define rest where "rest = (if ends_stub pre i then [Halt, Nop, Nop, Nop] else [i]) @ halt_after (pre @ [i]) r"
  have h: "halted is = halted pre @ rest" "rest \<noteq> []"
    using p(1) r by (auto simp: halted_split rest_def)
  have "list_all wf_instr (halted pre @ rest)"
    using wf_halt_after [OF assms, of "[]"] h(1) by simp
  then show "t |\<in>| boundaries (bytes_of (halted is))"
    using seq_from_program [of "halted pre" rest] seq_program_decodes [of "halted pre" rest]
      halt_after_length [of "[]" pre] h p(2) by (simp add: boundaries_iff)
qed

section \<open>Runs in lockstep\<close>

text \<open>The program counter stands at the division that ends a stub.\<close>

definition at_trap :: "interp \<Rightarrow> bool" where
  "at_trap s \<longleftrightarrow> (\<exists>pre i post. list_all wf_instr (pre @ i # post) \<and> code s = bytes_of (pre @ i # post) \<and>
     unat (mpc (machine s)) = length (bytes_of pre) \<and> ends_stub pre i)"

abbreviation on_halts :: "bytes \<Rightarrow> interp \<Rightarrow> interp" where
  "on_halts out s \<equiv> recode out (boundaries out) s"

lemma recode_fetch:
  assumes "fetch s = Inr (i, s')" and "decode cd (unat (mpc (machine s))) = decode (code s) (unat (mpc (machine s)))"
  shows "fetch (recode cd B s) = Inr (i, recode cd B s')"
  using assms unfolding fetch_Inr_iff by auto

lemma fetch_offset:
  assumes "on_track s" and "code s = bytes_of is" and "list_all wf_instr is" and "fetch s = Inr (i, s')"
  obtains pre post where "is = pre @ i # post" "unat (mpc (machine s)) = length (bytes_of pre)"
proof -
  obtain n where d: "decode (code s) (unat (mpc (machine s))) = Inr (i, n)"
    using assms(4) by (auto simp: fetch_Inr_iff)
  obtain pre post where p: "is = pre @ post" "unat (mpc (machine s)) = length (bytes_of pre)"
    using assms(1-3) seq_in_program [of "is"] by (metis on_track_def)
  have "post \<noteq> []"
    using d p assms(2) by (auto simp: decode_end)
  then obtain j r where r: "post = j # r"
    by (cases post) auto
  have "decode (code s) (unat (mpc (machine s))) = Inr (j, encoded_len j)"
    using decode_encode [of j "bytes_of pre" "bytes_of r"] assms(2,3) p r by simp
  then show ?thesis
    using that p r d by simp
qed

lemma lockstep:
  assumes "on_track s" and "code s = bytes_of is" and "list_all wf_instr is" and "\<not> at_trap s"
    and "turn P s = Inr r" and "out = bytes_of (halted is)"
  shows "turn P (on_halts out s) = Inr (map_sum id (on_halts out) r)"
  using assms(5)
proof (rule turn_InrD)
  fix i st s0 s1
  assume f: "fetch s = Inr (i, s0)" and st: "step P s0 i = Inr (st, s1)"
    and r: "r = (case st of Next \<Rightarrow> Inr s1 | StepHalt \<Rightarrow> Inl (outcome_of s1)
          | JumpTo t \<Rightarrow> Inr (s1\<lparr>machine := (machine s1)\<lparr>mpc := t\<rparr>\<rparr>))"
  obtain pre post where p: "is = pre @ i # post" "unat (mpc (machine s)) = length (bytes_of pre)"
    using fetch_offset [OF assms(1-3) f] .
  have "\<not> ends_stub pre i"
    using assms(2-4) p by (auto simp: at_trap_def)
  then have "decode out (unat (mpc (machine s))) = decode (code s) (unat (mpc (machine s)))"
    using halted_decode [of pre i post] decode_encode [of i "bytes_of pre" "bytes_of post"] assms(2,3,6) p by simp
  then have f': "fetch (on_halts out s) = Inr (i, on_halts out s0)"
    by (rule recode_fetch [OF f])
  have "bounds s0 = bounds s" "bounds s = boundaries (code s)"
    using grows_fetch [OF f] assms(1) by (simp_all add: grows_defs on_track_def wf_interp_def)
  then have "bounds s0 |\<subseteq>| boundaries out"
    using halted_boundaries [OF assms(3)] assms(2,6) by simp
  then have "step P (on_halts out s0) i = Inr (st, on_halts out s1)"
    by (rule recode_step [OF st])
  then show ?thesis
    using f' r by (cases st) (simp_all add: turn_def outcome_of_def)
qed

text \<open>The simulation, for the rewriting of any program.\<close>

definition runs_program :: "Instr list \<Rightarrow> interp \<Rightarrow> bool" where
  "runs_program is s \<longleftrightarrow> on_track s \<and> code s = bytes_of is \<and> list_all wf_instr is"

interpretation halts: run_simulation P "runs_program is" at_trap "on_halts (bytes_of (halted is))" for P "is"
proof
  fix s s' r
  assume s: "runs_program is s"
  { assume t: "turn P s = Inr (Inr s')"
    have "code s' = code s"
      using turn_pays [OF t] by (simp add: grows_defs)
    then show "runs_program is s'"
      using s track.turn_keeps [OF _ t] by (simp add: runs_program_def) }
  { assume "\<not> at_trap s" and "turn P s = Inr r"
    then show "turn P (on_halts (bytes_of (halted is)) s) = Inr (map_sum id (on_halts (bytes_of (halted is))) r)"
      using s lockstep unfolding runs_program_def by blast }
qed

lemma host_on_track: "host_start P s \<Longrightarrow> on_track s"
proof -
  assume s: "host_start P s"
  then have "wf_interp s"
    using host_start_fresh by (simp add: fresh_start_def)
  moreover have "seq_pc (code s) (unat (mpc (machine s)))"
    using s by (induction rule: host_start.induct)
      (auto simp: for_system_program_def for_unchecked_program_def new_interp_def new_machine_def
        for_entry_def for_genesis_def open_entry_Inr_iff entered_def boundaries_iff with_storage_def
        with_storage_loader_def with_memory_def Let_def seq_from.here split: if_splits)
  ultimately show ?thesis
    by (simp add: on_track_def)
qed

section \<open>What a stub does\<close>

definition loads :: "Reg \<Rightarrow> u64 \<Rightarrow> interp \<Rightarrow> interp" where
  "loads d v s = s\<lparr>meter_used := meter_used s + 1,
     machine := (machine s)\<lparr>mpc := mpc (machine s) + 10, regs := (regs (machine s))[unat d := v]\<rparr>\<rparr>"

lemma unat_plus: "unat (x :: 'a::len word) + k < 2 ^ LENGTH('a) \<Longrightarrow> unat (x + of_nat k) = unat x + k"
  by (simp add: unat_word_ariths unsigned_of_nat take_bit_nat_eq_self)

lemma turn_loads:
  assumes "wf_machine (machine s)" and "decode (code s) (unat (mpc (machine s))) = Inr (Ldi d v, 10)"
    and "unat (mpc (machine s)) + 10 < 2 ^ 32" and "unat (meter_used s) + 1 \<le> unat (meter_limit s)"
  shows "turn P s = Inr (Inr (loads d v s))"
proof -
  have u: "unat (meter_used s + 1) = unat (meter_used s) + 1"
    using unat_plus [of "meter_used s" 1] assms(4) unat_bound [of "meter_limit s"] by simp
  let ?s = "s\<lparr>meter_used := meter_used s + 1, machine := (machine s)\<lparr>mpc := mpc (machine s) + of_nat 10\<rparr>\<rparr>"
  have "fetch s = Inr (Ldi d v, ?s)"
    unfolding fetch_Inr_iff using assms(2-4) u
    by (intro exI [of _ 10] exI [of _ "meter_used s + 1"]) (simp add: word_le_nat_alt)
  moreover have "unat d < NUM_REGS"
    using decodeD(1) [OF assms(2)] by (simp add: wf_instr_def)
  ultimately show ?thesis
    using assms(1) by (simp add: turn_def step_def on_machine_def set_reg_def wf_machine_def loads_def del: bindE_Inr_iff)
qed

lemma turn_divides:
  assumes "wf_machine (machine s)" and "regs (machine s) ! 1 = 0"
    and "decode (code s) (unat (mpc (machine s))) = Inr (Div ABORT_REG ABORT_REG ZERO_REG, 4)"
    and "unat (mpc (machine s)) + 4 < 2 ^ 32" and "unat (meter_used s) + 4 \<le> unat (meter_limit s)"
  shows "turn P s = Inl (Fault DivByZero)"
proof -
  have u: "unat (meter_used s + 4) = unat (meter_used s) + 4"
    using unat_plus [of "meter_used s" 4] assms(5) unat_bound [of "meter_limit s"] by simp
  let ?s = "s\<lparr>meter_used := meter_used s + 4, machine := (machine s)\<lparr>mpc := mpc (machine s) + of_nat 4\<rparr>\<rparr>"
  have "fetch s = Inr (Div ABORT_REG ABORT_REG ZERO_REG, ?s)"
    unfolding fetch_Inr_iff using assms(3-5) u
    by (intro exI [of _ 4] exI [of _ "meter_used s + 4"]) (simp add: word_le_nat_alt)
  then show ?thesis
    using assms(1,2) by (auto simp: turn_def step_def on_machine_def binary_def reg_def wf_machine_def
        NUM_REGS_def ABORT_REG_def ZERO_REG_def checked_div_def)
qed

lemma turn_halts:
  assumes "decode (code s) (unat (mpc (machine s))) = Inr (Halt, 1)"
    and "unat (mpc (machine s)) + 1 < 2 ^ 32" and "meter_used s \<le> meter_limit s"
  shows "turn P s = Inr (Inl (outcome_of s))"
proof -
  let ?s = "s\<lparr>meter_used := meter_used s, machine := (machine s)\<lparr>mpc := mpc (machine s) + of_nat 1\<rparr>\<rparr>"
  have "fetch s = Inr (Halt, ?s)"
    unfolding fetch_Inr_iff using assms
    by (intro exI [of _ 1] exI [of _ "meter_used s"]) simp
  then show ?thesis
    by (simp add: turn_def step_def outcome_of_def)
qed

text \<open>The state behind the two loads of a stub, and what it holds for the host.\<close>

definition after_loads :: "u64 \<Rightarrow> interp \<Rightarrow> interp" where
  "after_loads c s = loads ZERO_REG 0 (loads ABORT_REG c s)"

lemma after_loads_recode: "after_loads c (recode cd B s) = recode cd B (after_loads c s)"
  by (simp add: after_loads_def loads_def)

lemma turns_loads:
  assumes "wf_machine (machine s)"
    and "decode (code s) (unat (mpc (machine s))) = Inr (Ldi ABORT_REG c, 10)"
    and "decode (code s) (unat (mpc (machine s)) + 10) = Inr (Ldi ZERO_REG 0, 10)"
    and "unat (mpc (machine s)) + 20 < 2 ^ 32" and "unat (meter_used s) + 2 \<le> unat (meter_limit s)"
  shows "turns P s 2 (after_loads c s)"
proof -
  let ?s1 = "loads ABORT_REG c s"
  have one: "turn P s = Inr (Inr ?s1)"
    using assms by (intro turn_loads) simp_all
  have pc: "unat (mpc (machine ?s1)) = unat (mpc (machine s)) + 10"
    using unat_plus [of "mpc (machine s)" 10] assms(4) by (simp add: loads_def)
  have used: "unat (meter_used ?s1) = unat (meter_used s) + 1"
    using unat_plus [of "meter_used s" 1] assms(5) unat_bound [of "meter_limit s"] by (simp add: loads_def)
  have "turn P ?s1 = Inr (Inr (after_loads c s))"
    unfolding after_loads_def using assms pc used
    by (intro turn_loads) (simp_all add: loads_def wf_machine_def)
  then show ?thesis
    using turns.more [OF turns.more [OF turns.none one]] by (simp add: numeral_2_eq_2)
qed

lemma after_loads_pc:
  "unat (mpc (machine s)) + 20 < 2 ^ 32 \<Longrightarrow> unat (mpc (machine (after_loads c s))) = unat (mpc (machine s)) + 20"
  using unat_plus [of "mpc (machine s)" 20] by (simp add: after_loads_def loads_def add.assoc)

lemma after_loads_used:
  "unat (meter_used s) + 2 \<le> unat (meter_limit s) \<Longrightarrow>
     unat (meter_used (after_loads c s)) = unat (meter_used s) + 2"
  using unat_plus [of "meter_used s" 2] unat_bound [of "meter_limit s"]
  by (simp add: after_loads_def loads_def add.assoc)

lemma encoded_stub: "encoded_len (Ldi d v) = 10" "encoded_len (Div d a b) = 4" "encoded_len Halt = 1"
    "length (encode (Ldi d v)) = 10"
  by (simp_all add: encoded_len_def encode_def)

lemma stub_decodes:
  assumes "list_all wf_instr (pre @ abort_stub c @ post)" and "cd = bytes_of (pre @ abort_stub c @ post)"
  shows "decode cd (length (bytes_of pre)) = Inr (Ldi ABORT_REG c, 10)"
    "decode cd (length (bytes_of pre) + 10) = Inr (Ldi ZERO_REG 0, 10)"
    "decode cd (length (bytes_of pre) + 20) = Inr (Div ABORT_REG ABORT_REG ZERO_REG, 4)"
  using assms
    decode_encode [of "Ldi ABORT_REG c" "bytes_of pre"
      "bytes_of (Ldi ZERO_REG 0 # Div ABORT_REG ABORT_REG ZERO_REG # post)"]
    decode_encode [of "Ldi ZERO_REG 0" "bytes_of (pre @ [Ldi ABORT_REG c])"
      "bytes_of (Div ABORT_REG ABORT_REG ZERO_REG # post)"]
    decode_encode [of "Div ABORT_REG ABORT_REG ZERO_REG" "bytes_of (pre @ [Ldi ABORT_REG c, Ldi ZERO_REG 0])"
      "bytes_of post"]
  by (simp_all add: abort_stub_def encoded_stub)

lemma halted_stub_decodes:
  assumes "list_all wf_instr (pre @ abort_stub c @ post)" and "c AND TAG_MASK = ABORT_TAG"
    and "cd = bytes_of (halted (pre @ abort_stub c @ post))"
  shows "decode cd (length (bytes_of pre)) = Inr (Ldi ABORT_REG c, 10)"
    "decode cd (length (bytes_of pre) + 10) = Inr (Ldi ZERO_REG 0, 10)"
    "decode cd (length (bytes_of pre) + 20) = Inr (Halt, 1)"
proof -
  have load: "\<not> ends_stub before (Ldi d v)" for before d v
    using ends_stub_Div by fastforce
  have "ends_stub (pre @ [Ldi ABORT_REG c, Ldi ZERO_REG 0]) (Div ABORT_REG ABORT_REG ZERO_REG)"
    using assms(2) by (simp add: is_stub_def tagged_def zeroed_def divides_def)
  then show "decode cd (length (bytes_of pre) + 20) = Inr (Halt, 1)"
    using halted_halt [of "pre @ [Ldi ABORT_REG c, Ldi ZERO_REG 0]" "Div ABORT_REG ABORT_REG ZERO_REG" post] assms(3)
    by (simp add: abort_stub_def encoded_stub)
  show "decode cd (length (bytes_of pre)) = Inr (Ldi ABORT_REG c, 10)"
    using halted_decode [OF _ load, of pre ABORT_REG c] assms(1,3) by (simp add: abort_stub_def encoded_stub)
  show "decode cd (length (bytes_of pre) + 10) = Inr (Ldi ZERO_REG 0, 10)"
    using halted_decode [OF _ load, of "pre @ [Ldi ABORT_REG c]" ZERO_REG 0] assms(1,3)
    by (simp add: abort_stub_def encoded_stub)
qed

lemma stub_runs:
  assumes wf: "wf_machine (machine t)" and "list_all wf_instr (pre @ abort_stub c @ post)"
    and "code t = bytes_of (pre @ abort_stub c @ post)" and "length (code t) < 2 ^ 32"
    and pc: "unat (mpc (machine t)) = length (bytes_of pre)"
    and tag: "split_code c = Some r" and room: "unat (meter_used t) + 6 \<le> unat (meter_limit t)"
    and out: "out = bytes_of (halted (pre @ abort_stub c @ post))"
  shows "run P t = Inl (Fault DivByZero)"
    "\<exists>oc. run P (on_halts out t) = Inr oc \<and> reason_in (o_regs oc) = Some r \<and> o_storage oc = storage t \<and>
       o_effects oc = effects t"
proof -
  let ?s = "after_loads c t"
  have len: "length (bytes_of pre) + 24 < 2 ^ 32"
    using assms(3,4) by (simp add: abort_stub_def encoded_stub encoded_len_def encode_Div_length)
  have c: "c AND TAG_MASK = ABORT_TAG" "c \<noteq> 0"
    using tag by (auto simp: split_code_def ABORT_TAG_def split: if_splits)
  have s: "unat (mpc (machine ?s)) = length (bytes_of pre) + 20" "unat (meter_used ?s) = unat (meter_used t) + 2"
    "code ?s = code t" "meter_limit ?s = meter_limit t" "wf_machine (machine ?s)"
    using after_loads_pc [of t c] after_loads_used [of t c] pc len room wf
    by (simp_all add: after_loads_def loads_def wf_machine_def)
  have regs: "regs (machine ?s) ! 0 = c" "regs (machine ?s) ! 1 = 0" "length (regs (machine ?s)) = 16"
    using wf by (simp_all add: after_loads_def loads_def wf_machine_def NUM_REGS_def ABORT_REG_def ZERO_REG_def)
  have "turns P t 2 ?s"
    using stub_decodes [OF assms(2,3)] len room pc by (intro turns_loads wf) simp_all
  moreover have "turn P ?s = Inl (Fault DivByZero)"
    using stub_decodes [OF assms(2,3)] len room s regs by (intro turn_divides) simp_all
  ultimately show "run P t = Inl (Fault DivByZero)"
    using run_from by (simp add: run.simps [of P ?s])
  have h: "turns P (on_halts out t) 2 (on_halts out ?s)"
    unfolding after_loads_recode [symmetric]
    using halted_stub_decodes [OF assms(2) c(1) out] len room pc wf by (intro turns_loads) simp_all
  have "turn P (on_halts out ?s) = Inr (Inl (outcome_of (on_halts out ?s)))"
    using halted_stub_decodes [OF assms(2) c(1) out] len room s
    by (intro turn_halts) (simp_all add: word_le_nat_alt)
  then have "run P (on_halts out t) = Inr (outcome_of (on_halts out ?s))"
    using run_from [OF h] by (simp add: run.simps [of P "on_halts out ?s"])
  moreover have "reason_in (regs (machine ?s)) = Some r"
    using regs c(2) tag by (simp add: reason_in_def ABORT_REG_def)
  moreover have "storage ?s = storage t" "effects ?s = effects t"
    by (simp_all add: after_loads_def loads_def)
  ultimately show "\<exists>oc. run P (on_halts out t) = Inr oc \<and> reason_in (o_regs oc) = Some r \<and>
      o_storage oc = storage t \<and> o_effects oc = effects t"
    by (simp add: outcome_of_def)
qed

end
