(* ===== verification/StubReport.thy ===== *)
theory StubReport
  imports StubRuns
begin

text \<open>
  What the rewriting of abort stubs means to a host: entries of a rewritten container, runs that
  return, and runs that abort.
\<close>

section \<open>Entries of patched containers\<close>

lemma halting_stubs_Some:
  assumes "halting_stubs cd = Inr (Some out)"
  obtains "is" where "list_all wf_instr is" "cd = bytes_of is" "out = bytes_of (halted is)" "length out = length cd"
  using assms
proof (cases rule: halting_stubs_cases [of cd])
  case (1 "is")
  then show ?thesis
    using that [of "is"] assms halting_stubs_program [of "is"] halt_after_length [of "[]" "is"]
    by (simp split: if_splits)
qed (simp add: halting_stubs_None)

lemma patched_open:
  assumes "open_entry c sel limit = Inr s" and "halting_stubs (c_code c) = Inr (Some out)"
  shows "open_entry (c\<lparr>c_code := out\<rparr>) sel limit = Inr (on_halts out s)"
proof -
  obtain "is" where "is": "list_all wf_instr is" "c_code c = bytes_of is" "out = bytes_of (halted is)"
      "length out = length (c_code c)"
    using halting_stubs_Some [OF assms(2)] .
  then have sub: "boundaries (c_code c) |\<subseteq>| boundaries out"
    using halted_boundaries by simp
  obtain e where e: "in_limits c" "filter (\<lambda>e. e_selector e = sel) (c_entries c) = [e]"
      "declared_slots (e_access e) \<le> MAX_ACCESS_SLOTS" "4 + 9 * length (c_code c) \<le> unat limit"
      "e_offset e |\<in>| boundaries (c_code c)" "s = entered c e limit"
    using assms(1) by (auto simp: open_entry_Inr_iff)
  have "on_halts out s = entered (c\<lparr>c_code := out\<rparr>) e limit"
    using e(6) "is"(4) by (simp add: entered_def new_interp_def recode_def)
  then show ?thesis
    unfolding open_entry_Inr_iff using e "is"(4) sub
    by (intro exI [of _ e]) (auto simp: in_limits_def)
qed

text \<open>The rewritten code stays verified: what is new in it are halts and no-ops.\<close>

lemma halt_after_set: "j \<in> set (halt_after before is) \<Longrightarrow> j \<in> set is \<or> j = Halt \<or> j = Nop"
  by (induction "is" arbitrary: before) (auto split: if_splits)

lemma patched_code_ok:
  assumes "list_all wf_instr is" and "code_ok (bytes_of is) n"
  shows "code_ok (bytes_of (halted is)) n"
    and "instr_start (bytes_of is) (unat t) \<Longrightarrow> instr_start (bytes_of (halted is)) (unat (t :: u32))"
proof -
  show start: "instr_start (bytes_of (halted is)) (unat t)" if "instr_start (bytes_of is) (unat t)" for t :: u32
    using that boundaries_verified [OF assms(2)] halted_boundaries [OF assms(1)] boundaries_start by blast
  have wf: "list_all wf_instr (halted is)"
    using assms(1) halt_after_set [of _ "[]" "is"] by (fastforce simp: list_all_iff wf_instr_def)
  show "code_ok (bytes_of (halted is)) n"
    unfolding code_ok_program [OF wf]
  proof
    fix j
    assume "j \<in> set (halted is)"
    then have "j \<in> set is \<or> j = Halt \<or> j = Nop"
      by (rule halt_after_set)
    then show "const_ok n j \<and> (\<forall>t. jump_target j = Some t \<longrightarrow> instr_start (bytes_of (halted is)) (unat t))"
      using assms(2) start unfolding code_ok_program [OF assms(1)] by (auto simp: const_ok_def jump_target_def)
  qed
qed

lemma patched_well_formed:
  assumes "well_formed c" and "halting_stubs (c_code c) = Inr (Some out)"
  shows "well_formed (c\<lparr>c_code := out\<rparr>)"
proof -
  obtain "is" where p: "list_all wf_instr is" "c_code c = bytes_of is" "out = bytes_of (halted is)"
      "length out = length (c_code c)"
    using halting_stubs_Some [OF assms(2)] .
  then show ?thesis
    using assms(1) patched_code_ok [OF p(1)] by (auto simp: well_formed_def entries_ok_def)
qed

section \<open>Samples\<close>

definition stub_sample :: "Instr list" where
  "stub_sample = abort_stub (abort_code Guard 7)"

definition stub_container :: Container where
  "stub_container = \<lparr>c_code = bytes_of stub_sample, c_consts = [],
     c_entries = [\<lparr>e_selector = [1, 2, 3, 4], e_offset = 0, e_access = sample_access\<rparr>]\<rparr>"

lemma stub_sample_wf: "list_all wf_instr stub_sample"
  by (simp add: stub_sample_def abort_stub_def wf_instr_def NUM_REGS_def ABORT_REG_def ZERO_REG_def)

lemma guard_tag: "abort_code Guard 7 AND TAG_MASK = ABORT_TAG"
  using split_abort_code [of Guard 7] by (auto simp: split_code_def split: if_splits)

lemma stub_halts: "halting_stubs (bytes_of (is @ stub_sample)) = Inr (Some (bytes_of (halted (is @ stub_sample))))"
  if "list_all wf_instr is"
proof -
  have "stub_after [] (is @ stub_sample)"
    by (simp add: stub_after_append stub_sample_def abort_stub_def is_stub_def tagged_def zeroed_def
        divides_def guard_tag)
  then show ?thesis
    using halting_stubs_program [of "is @ stub_sample"] that stub_sample_wf by (simp add: stub_after_iff)
qed

lemma stub_entry: "open_entry stub_container [1, 2, 3, 4] 1000 = Inr (entered stub_container (hd (c_entries stub_container)) 1000)"
proof -
  have "0 |\<in>| boundaries (bytes_of stub_sample)"
    using seq_program_decodes [of "[]" stub_sample] stub_sample_wf
    by (simp add: boundaries_iff seq_from.here stub_sample_def abort_stub_def)
  moreover have "length (bytes_of stub_sample) = 24"
    by (simp add: stub_sample_def abort_stub_def encoded_stub encode_Div_length)
  ultimately show ?thesis
    unfolding open_entry_Inr_iff
    by (intro exI [of _ "hd (c_entries stub_container)"])
      (simp add: stub_container_def in_limits_def container_limits declared_slots_def sample_access_def)
qed

lemma at_trap_later: "at_trap s \<Longrightarrow> mpc (machine s) \<noteq> 0"
proof
  assume "at_trap s" and zero: "mpc (machine s) = 0"
  then obtain pre i where p: "ends_stub pre i" "length (bytes_of pre) = 0"
    by (auto simp: at_trap_def)
  then obtain a r where "pre = a # r"
    by (cases pre) auto
  then show False
    using p(2) encoded_len_pos [of a] by (simp add: encoded_len_def)
qed

lemma halted_start: "turns P s n t \<Longrightarrow> turn P s = Inr (Inl oc) \<Longrightarrow> t = s"
  by (induction rule: turns.induct) auto

text \<open>A program that halts before its stub, and one that is its stub.\<close>

definition quiet_start :: interp where
  "quiet_start = for_unchecked_program (bytes_of (Halt # stub_sample)) [] 1000"

definition stub_start :: interp where
  "stub_start = for_unchecked_program (bytes_of stub_sample) [] 1000"

lemma quiet_fields: "code quiet_start = bytes_of (Halt # stub_sample)" "mpc (machine quiet_start) = 0"
    "meter_used quiet_start = 0"
  by (simp_all add: quiet_start_def for_unchecked_program_def new_interp_def new_machine_def)

lemma stub_fields: "code stub_start = bytes_of stub_sample" "mpc (machine stub_start) = 0"
    "meter_used stub_start = 0" "meter_limit stub_start = 1000" "storage stub_start = fmempty"
    "effects stub_start = []"
  by (simp_all add: stub_start_def for_unchecked_program_def new_interp_def new_machine_def)

lemma quiet_turn: "turn P quiet_start = Inr (Inl (outcome_of quiet_start))"
  using decode_encode [of Halt "[]" "bytes_of stub_sample"]
  by (intro turn_halts) (simp_all add: quiet_fields encoded_stub wf_instr_def)

section \<open>Properties\<close>

text \<open>C28. Rewriting keeps containers deployable: the verifier accepts a container that it
  accepted before its stubs were rewritten.\<close>

theorem patched_verifies:
  assumes "verify c = Inr ()" and "halting_stubs (c_code c) = Inr (Some out)"
  shows "verify (c\<lparr>c_code := out\<rparr>) = Inr ()"
  using assms patched_well_formed by (simp add: verify_iff)

lemma patched_verifies_witness:
  "verify stub_container = Inr () \<and> verify (stub_container\<lparr>c_code := bytes_of (halted stub_sample)\<rparr>) = Inr ()"
proof -
  have "code_ok (bytes_of stub_sample) 0"
    unfolding code_ok_program [OF stub_sample_wf]
    by (simp add: stub_sample_def abort_stub_def const_ok_def jump_target_def)
  moreover have "instr_start (bytes_of stub_sample) 0"
    using program_start(1) [of "[]" "hd stub_sample" "tl stub_sample"] stub_sample_wf
    by (simp add: stub_sample_def abort_stub_def)
  moreover have "length (bytes_of stub_sample) = 24"
    by (simp add: stub_sample_def abort_stub_def encoded_stub encode_Div_length)
  ultimately have "verify stub_container = Inr ()"
    unfolding verify_iff by (simp add: well_formed_def entries_ok_def stub_container_def container_limits
        declared_slots_def sample_access_def)
  moreover have "halting_stubs (c_code stub_container) = Inr (Some (bytes_of (halted stub_sample)))"
    using stub_halts [of "[]"] by (simp add: stub_container_def)
  ultimately show ?thesis
    using patched_verifies by blast
qed

text \<open>C32. The rewritten code of a container is priced and entered as the original: an entry that
  opens opens in the same state, with the new code and its jump targets in place of the old.\<close>

theorem patched_entry_opens:
  assumes "for_entry P c sel limit = Inr s" and "halting_stubs (c_code c) = Inr (Some out)"
  shows "for_entry P (c\<lparr>c_code := out\<rparr>) sel limit = Inr (on_halts out s)"
  using assms patched_open by (auto simp: for_entry_def split: if_splits)

lemma patched_entry_opens_witness:
  "for_entry sample_prims (stub_container\<lparr>c_code := bytes_of (halted stub_sample)\<rparr>) [1, 2, 3, 4] 1000 =
     Inr (on_halts (bytes_of (halted stub_sample)) (entered stub_container (hd (c_entries stub_container)) 1000))"
proof (rule patched_entry_opens)
  show "for_entry sample_prims stub_container [1, 2, 3, 4] 1000 =
      Inr (entered stub_container (hd (c_entries stub_container)) 1000)"
    using stub_entry by (simp add: for_entry_def sample_selector)
  show "halting_stubs (c_code stub_container) = Inr (Some (bytes_of (halted stub_sample)))"
    using stub_halts [of "[]"] by (simp add: stub_container_def)
qed

text \<open>C15. The rewriting changes no accepted call: a run that returns, and at no turn stands at
  the division that ends a stub, returns the same outcome on the rewritten code.\<close>

theorem halting_stubs_transparent:
  assumes "host_start P s" and "halting_stubs (code s) = Inr (Some out)"
    and "\<forall>n t. turns P s n t \<longrightarrow> \<not> at_trap t" and "run P s = Inr oc"
  shows "run P (on_halts out s) = Inr oc"
proof -
  obtain "is" where "is": "list_all wf_instr is" "code s = bytes_of is" "out = bytes_of (halted is)"
    using halting_stubs_Some [OF assms(2)] by blast
  then have "runs_program is s"
    using host_on_track [OF assms(1)] by (simp add: runs_program_def)
  then show ?thesis
    unfolding "is"(3) using halts.run_maps assms(3,4) by blast
qed

lemma halting_stubs_transparent_witness:
  "run sample_prims (on_halts (bytes_of (halted (Halt # stub_sample))) quiet_start) =
     Inr (outcome_of quiet_start)"
proof (rule halting_stubs_transparent)
  show "host_start sample_prims quiet_start"
    unfolding quiet_start_def by (rule host_start.raw)
  show "halting_stubs (code quiet_start) = Inr (Some (bytes_of (halted (Halt # stub_sample))))"
    using stub_halts [of "[Halt]"] by (simp add: quiet_fields wf_instr_def)
  show "\<forall>n t. turns sample_prims quiet_start n t \<longrightarrow> \<not> at_trap t"
    using halted_start [OF _ quiet_turn] at_trap_later [of quiet_start] quiet_fields(2) by blast
  show "run sample_prims quiet_start = Inr (outcome_of quiet_start)"
    using quiet_turn by (simp add: run.simps [of _ quiet_start])
qed

text \<open>C14. The rewriting recovers the reason: where a run of a listing below four gigabytes reaches a
  tagged stub with six units left, and stood at the division of a stub at no earlier turn, it faults with
  a division by zero, and on the rewritten code it halts there with the rule and the line of the stub as
  the reason in its registers, with the storage and effects it had.\<close>

theorem stub_reason:
  assumes "host_start P s" and "halting_stubs (code s) = Inr (Some out)" and "length (code s) < 2 ^ 32"
    and "code s = bytes_of (pre @ abort_stub c @ post)" and "list_all wf_instr (pre @ abort_stub c @ post)"
    and "split_code c = Some r" and "turns P s n t" and "unat (mpc (machine t)) = length (bytes_of pre)"
    and "\<forall>m u. m < n \<longrightarrow> turns P s m u \<longrightarrow> \<not> at_trap u"
    and "unat (meter_used t) + 6 \<le> unat (meter_limit t)"
  shows "run P s = Inl (Fault DivByZero) \<and>
    (\<exists>oc. run P (on_halts out s) = Inr oc \<and> reason_in (o_regs oc) = Some r \<and>
       o_storage oc = storage t \<and> o_effects oc = effects t)"
proof -
  have track: "on_track s"
    using assms(1) by (rule host_on_track)
  have out: "out = bytes_of (halted (pre @ abort_stub c @ post))"
    using halting_stubs_program [OF assms(5)] assms(2,4) by (simp split: if_splits)
  have h: "turns P (on_halts out s) n (on_halts out t)"
    unfolding out using track assms(4,5) by (intro halts.turns_map [OF assms(7) _ assms(9)]) (simp add: runs_program_def)
  have t: "wf_machine (machine t)" "code t = bytes_of (pre @ abort_stub c @ post)"
    using track.turns_keep [OF assms(7) track] turns_budget [OF assms(7)] assms(4)
    by (simp_all add: grows_defs on_track_def wf_interp_def)
  have len: "length (code t) < 2 ^ 32"
    using assms(3) assms(4) t(2) by simp
  note stub = stub_runs [OF t(1) assms(5) t(2) len assms(8,6,10) out]
  then show ?thesis
    using run_from [OF assms(7)] run_from [OF h] by simp
qed

lemma stub_reason_witness:
  "run sample_prims stub_start = Inl (Fault DivByZero) \<and>
    (\<exists>oc. run sample_prims (on_halts (bytes_of (halted stub_sample)) stub_start) = Inr oc \<and>
       reason_in (o_regs oc) = Some (Guard, 7) \<and> o_storage oc = storage stub_start \<and>
       o_effects oc = effects stub_start)"
proof (rule stub_reason)
  show "host_start sample_prims stub_start"
    unfolding stub_start_def by (rule host_start.raw)
  show "halting_stubs (code stub_start) = Inr (Some (bytes_of (halted stub_sample)))"
    using stub_halts [of "[]"] by (simp add: stub_fields)
  show "length (code stub_start) < 2 ^ 32"
    by (simp add: stub_fields stub_sample_def abort_stub_def encoded_stub encode_Div_length)
  show "code stub_start = bytes_of ([] @ abort_stub (abort_code Guard 7) @ [])"
    by (simp add: stub_fields stub_sample_def)
  show "list_all wf_instr ([] @ abort_stub (abort_code Guard 7) @ [])"
    using stub_sample_wf by (simp add: stub_sample_def)
  show "split_code (abort_code Guard 7) = Some (Guard, 7)"
    by (rule split_abort_code)
  show "turns sample_prims stub_start 0 stub_start"
    by (rule turns.none)
qed (simp_all add: stub_fields)

end
