(* ===== verification/Isolation.thy ===== *)
theory Isolation
  imports Frames Simulation Samples
begin

text \<open>
  What of the host's storage a run can depend on: two runs from states that agree on the slots
  the entry may read go in lockstep, however the host splits its slots between the map it sends
  and the loader it answers from.
\<close>

section \<open>The same state over other storage\<close>

definition rehost ::
  "(StorageKey, u64) fmap \<Rightarrow> (StorageKey, u64) fmap \<Rightarrow> (StorageKey \<Rightarrow> u64) option \<Rightarrow> interp \<Rightarrow> interp" where
  "rehost st l f s = s\<lparr>storage := st, loaded := l, loader := f\<rparr>"


lemma rehost_fields [simp]:
  "storage (rehost st l f s) = st" "loaded (rehost st l f s) = l" "loader (rehost st l f s) = f"
  "(rehost st l f s)\<lparr>loaded := l'\<rparr> = rehost st l' f s" "(rehost st l f s)\<lparr>storage := st'\<rparr> = rehost st' l f s"
  by (simp_all add: rehost_def)



text \<open>\<open>alike K s t\<close>: but for storage the states are equal, and no slot in \<open>K\<close> tells them apart.\<close>

definition alike :: "(StorageKey \<Rightarrow> bool) \<Rightarrow> interp \<Rightarrow> interp \<Rightarrow> bool" where
  "alike K s t \<longleftrightarrow>
     (\<exists>st l f. t = rehost st l f s) \<and> (\<forall>key. K key \<longrightarrow> slot_value t key = slot_value s key) \<and>
     (\<forall>key. key |\<in>| dirty s \<longrightarrow> fmlookup (storage t) key = fmlookup (storage s) key)"








section \<open>Lockstep\<close>

abbreviation ends_alike :: "(StorageKey \<Rightarrow> bool) \<Rightarrow> exn + 'a \<times> interp \<Rightarrow> exn + 'a \<times> interp \<Rightarrow> bool" where
  "ends_alike K \<equiv> rel_sum (=) (rel_prod (=) (alike K))"




lemma ends_alike_bind:
  assumes "rel_sum (=) A r r'" and "\<And>x y. A x y \<Longrightarrow> ends_alike K (g x) (h y)"
  shows "ends_alike K (bindE r g) (bindE r' h)"
  using assms by (cases r; cases r') auto










section \<open>Property\<close>





end
