(* ===== verification/Draws.thy ===== *)
theory Draws
  imports Prelude
begin

text \<open>
  Generators of the fuzz harness: functions that draw from a source of randomness, the
  parameter \<open>rng: &mut Rng\<close> of \<open>fuzz/src/lib.rs\<close> and \<open>u: &mut Unstructured\<close> of
  \<open>fuzz_targets/entry_path.rs\<close>.  A generator takes the source and ends early or returns a
  value with the source after its draws, so the order of the draws is the order of the code.
  \<open>draws E Q g\<close> says that whatever the source, \<open>g\<close> ends early only with an error in \<open>E\<close> and
  returns only values in \<open>Q\<close>; its rules follow the operations.
\<close>

type_synonym ('s, 'e, 'a) gen = "'s \<Rightarrow> 'e + 'a \<times> 's"

definition yield :: "'a \<Rightarrow> ('s, 'e, 'a) gen" where
  "yield x = (\<lambda>s. Inr (x, s))"

definition give_up :: "'e \<Rightarrow> ('s, 'e, 'a) gen" where
  "give_up e = (\<lambda>s. Inl e)"

definition andthen :: "('s, 'e, 'a) gen \<Rightarrow> ('a \<Rightarrow> ('s, 'e, 'b) gen) \<Rightarrow> ('s, 'e, 'b) gen" where
  "andthen g f = (\<lambda>s. bindE (g s) (\<lambda>(x, s). f x s))"

text \<open>\<open>(0..n).map(|_| g).collect()\<close>.\<close>

primrec collect :: "nat \<Rightarrow> ('s, 'e, 'a) gen \<Rightarrow> ('s, 'e, 'a list) gen" where
  "collect 0 g = yield []"
| "collect (Suc n) g = andthen g (\<lambda>x. andthen (collect n g) (\<lambda>xs. yield (x # xs)))"

text \<open>\<open>assert!\<close>.\<close>

definition assert_or :: "'e \<Rightarrow> bool \<Rightarrow> 'e + unit" where
  "assert_or e c = (if c then Inr () else Inl e)"

definition draws :: "'e set \<Rightarrow> ('a \<Rightarrow> bool) \<Rightarrow> ('s, 'e, 'a) gen \<Rightarrow> bool" where
  "draws E Q g \<longleftrightarrow> (\<forall>s. case g s of Inl e \<Rightarrow> e \<in> E | Inr (x, s') \<Rightarrow> Q x)"

named_theorems draws_intros "rules that walk a generator"

lemma drawsD:
  "draws E Q g \<Longrightarrow> g s = Inr (x, s') \<Longrightarrow> Q x"
  "draws E Q g \<Longrightarrow> g s = Inl e \<Longrightarrow> e \<in> E"
  by (auto simp: draws_def dest: spec [of _ s])

lemma draws_yield [draws_intros]: "Q x \<Longrightarrow> draws E Q (yield x)"
  by (simp add: draws_def yield_def)

lemma draws_give_up [draws_intros]: "e \<in> E \<Longrightarrow> draws E Q (give_up e)"
  by (simp add: draws_def give_up_def)

lemma draws_if [draws_intros]:
  "(c \<Longrightarrow> draws E Q g) \<Longrightarrow> (\<not> c \<Longrightarrow> draws E Q h) \<Longrightarrow> draws E Q (if c then g else h)"
  by simp

lemma draws_andthen:
  assumes "draws E R g" and "\<And>x. R x \<Longrightarrow> draws E Q (f x)"
  shows "draws E Q (andthen g f)"
  unfolding draws_def
proof
  fix s
  show "case andthen g f s of Inl e \<Rightarrow> e \<in> E | Inr (x, s') \<Rightarrow> Q x"
  proof (cases "g s")
    case (Inl e)
    then show ?thesis
      using drawsD(2) [OF assms(1)] by (simp add: andthen_def)
  next
    case (Inr r)
    then obtain x s' where r: "g s = Inr (x, s')"
      by (cases r) simp
    then have "draws E Q (f x)"
      using drawsD(1) [OF assms(1) r] assms(2) by blast
    then show ?thesis
      using r by (simp add: andthen_def draws_def)
  qed
qed

lemma draws_mono: "draws E Q g \<Longrightarrow> E \<subseteq> E' \<Longrightarrow> (\<And>x. Q x \<Longrightarrow> R x) \<Longrightarrow> draws E' R g"
  unfolding draws_def by (fastforce split: sum.splits)

lemma draws_imp:
  "(A \<Longrightarrow> draws E Q g) \<Longrightarrow> draws E (\<lambda>_. True) g \<Longrightarrow> draws E (\<lambda>x. A \<longrightarrow> Q x) g"
  by (cases A) simp_all

text \<open>Repeated draws: as many values as asked for, each what a draw can be.\<close>

lemma draws_collect:
  assumes "draws E Q g"
  shows "draws E (\<lambda>xs. length xs = n \<and> list_all Q xs) (collect n g)"
proof (induction n)
  case (Suc n)
  show ?case
    by (auto intro!: draws_andthen [OF assms] draws_andthen [OF Suc.IH] draws_yield)
qed (simp add: draws_yield)

lemma draws_collect_any: "draws E Q g \<Longrightarrow> draws E (\<lambda>_. True) (collect n g)"
  by (rule draws_mono [OF draws_collect]) auto

end
