(* ===== verification/Fuzz.thy ===== *)
theory Fuzz
  imports Draws Hosting AsmText
begin

text \<open>
  The seeded fuzz harness of \<open>fuzz/src/lib.rs\<close>: the generator of random words, random programs
  and random calls of the cryptographic opcodes, and the batches that run each of them twice on the
  interpreter.  A panic, also a failed assertion, is \<open>Panic\<close>; \<open>catch_unwind\<close> is the case
  distinction on it.  \<open>exercise\<close> compares two runs of one input: they are one application of a
  function in the model, so the assertion of determinism holds by construction.
\<close>

definition METER_BOUND :: u64 where "METER_BOUND = 100000"
definition CRYPTO_METER_BOUND :: u64 where "CRYPTO_METER_BOUND = 50000000"

section \<open>Random words\<close>

record Rng =
  rng_state :: u64

definition new_rng :: "u64 \<Rightarrow> Rng" where
  "new_rng seed = \<lparr>rng_state = seed\<rparr>"

definition next_u64 :: "(Rng, exn, u64) gen" where
  "next_u64 rng =
     (let rng = rng\<lparr>rng_state := rng_state rng + 11400714819323198485\<rparr>;
          z = rng_state rng;
          z = (z XOR drop_bit 30 z) * 13787848793156543929;
          z = (z XOR drop_bit 27 z) * 10723151780598845931 in
      Inr (z XOR drop_bit 31 z, rng))"

text \<open>A remainder by zero panics, after the draw.\<close>

definition below :: "u64 \<Rightarrow> (Rng, exn, u64) gen" where
  "below n = andthen next_u64 (\<lambda>z. if n = 0 then give_up Panic else yield (z mod n))"

definition rand_reg :: "(Rng, exn, Reg) gen" where
  "rand_reg = andthen (below (of_nat NUM_REGS)) (\<lambda>r. yield (ucast r))"

definition rand_bytes :: "nat \<Rightarrow> (Rng, exn, bytes) gen" where
  "rand_bytes most = andthen (below (of_nat (most + 1))) (\<lambda>len.
     collect (unat len) (andthen next_u64 (\<lambda>z. yield (ucast z))))"

definition rand_consts :: "(Rng, exn, u64 list) gen" where
  "rand_consts = andthen (below 8) (\<lambda>len. collect (unat len) next_u64)"

section \<open>Random programs\<close>

definition pick_instr :: "u64 \<Rightarrow> Reg \<Rightarrow> Reg \<Rightarrow> Reg \<Rightarrow> Reg \<Rightarrow> u32 \<Rightarrow> (Rng, exn, Instr) gen" where
  "pick_instr k d a b c target =
     (if k = 0 then andthen next_u64 (\<lambda>imm. yield (Ldi d imm))
      else if k = 1 then yield (Mov d a)
      else if k = 2 then yield (Add d a b)
      else if k = 3 then yield (Sub d a b)
      else if k = 4 then yield (Mul d a b)
      else if k = 5 then yield (Div d a b)
      else if k = 6 then yield (AddW d a b)
      else if k = 7 then yield (And d a b)
      else if k = 8 then yield (Xor d a b)
      else if k = 9 then yield (Shl d a b)
      else if k = 10 then yield (Eq d a b)
      else if k = 11 then yield (Push a)
      else if k = 12 then yield (Pop d)
      else if k = 13 then yield (MStore a b)
      else if k = 14 then yield (SStore a b)
      else if k = 15 then yield (SLoad d a)
      else if k = 16 then yield (Jz a target)
      else if k = 17 then yield (Jnz a target)
      else if k = 18 then andthen (below 10) (\<lambda>idx. yield (Ldc d (ucast idx)))
      else if k = 19 then yield (Rem d a b)
      else if k = 20 then yield (SubW d a b)
      else if k = 21 then yield (MulW d a b)
      else if k = 22 then yield (MulHi d a b)
      else if k = 23 then andthen rand_reg (\<lambda>blo. andthen rand_reg (\<lambda>bhi. yield (DivW d a b c blo bhi)))
      else if k = 24 then andthen rand_reg (\<lambda>blo. andthen rand_reg (\<lambda>bhi. yield (RemW d a b c blo bhi)))
      else if k = 25 then yield (Or d a b)
      else if k = 26 then yield (NotW d a)
      else if k = 27 then yield (Shr d a b)
      else if k = 28 then yield (LtU d a b)
      else if k = 29 then yield (GtU d a b)
      else if k = 30 then yield (MLoad d a)
      else if k = 31 then yield (Jmp target)
      else if k = 32 then yield (Call target)
      else if k = 33 then yield Ret
      else if k = 34 then yield (Send a b c)
      else if k = 35 then yield (Emit a b c)
      else if k = 36 then yield (Hash a b c)
      else if k = 37 then yield (VerifyMl a b c)
      else if k = 38 then yield (VerifySlh a b c)
      else if k = 39 then yield (MerkleVerify a b c)
      else if k = 40 then yield (Addr a b c)
      else if k = 41 then yield Nop
      else yield Halt)"

definition rand_instr :: "(Rng, exn, Instr) gen" where
  "rand_instr =
     andthen rand_reg (\<lambda>d. andthen rand_reg (\<lambda>a. andthen rand_reg (\<lambda>b. andthen rand_reg (\<lambda>c.
     andthen (below 64) (\<lambda>target. andthen (below 44) (\<lambda>k. pick_instr k d a b c (ucast target)))))))"

definition rand_program :: "(Rng, exn, bytes) gen" where
  "rand_program =
     andthen (below 48) (\<lambda>count.
     andthen (collect (unat count) rand_instr) (\<lambda>is. yield (concat (map encode is) @ encode Halt)))"

text \<open>The value the loader gives for a key: from its first eight bytes, lowest first.\<close>

definition loaded_value :: "StorageKey \<Rightarrow> u64" where
  "loaded_value key = word_rotl 17 (from_be (rev (take 8 key))) XOR 0x9e3779b97f4a7c15"

section \<open>Batches\<close>

text \<open>Where \<open>pc\<close> stands when the sweep stops.\<close>

function decode_sweep :: "bytes \<Rightarrow> nat \<Rightarrow> nat" where
  "decode_sweep cd pc =
     (if pc < length cd then
        (case decode cd pc of Inr (_, len) \<Rightarrow> decode_sweep cd (pc + len) | Inl _ \<Rightarrow> pc)
      else pc)"
  by pat_completeness auto
termination
  by (relation "measure (\<lambda>(cd, pc). length cd - pc)") (auto dest: decodeD(3))

declare decode_sweep.simps [simp del]

text \<open>What a call of \<open>run\<close> gives its caller: a panic goes on unwinding.\<close>

definition returned :: "exn + 'a \<Rightarrow> exn + (fault + 'a)" where
  "returned r = (case r of Inl Panic \<Rightarrow> Inl Panic | Inl (Fault e) \<Rightarrow> Inr (Inl e) | Inr x \<Rightarrow> Inr (Inr x))"

definition exercise :: "prims \<Rightarrow> bytes \<Rightarrow> u64 list \<Rightarrow> exn + unit" where
  "exercise P cd consts =
     (let _ = decode_sweep cd 0 in
      bindE (returned (run P (with_storage_loader loaded_value
               (for_unchecked_program cd consts METER_BOUND)))) (\<lambda>first.
      bindE (returned (run P (with_storage_loader loaded_value
               (for_unchecked_program cd consts METER_BOUND)))) (\<lambda>second.
      bindE (assert_or Panic (first = second)) (\<lambda>_.
        (case first of
           Inr outcome \<Rightarrow> assert_or Panic (o_meter_used outcome \<le> METER_BOUND)
         | Inl _ \<Rightarrow> Inr ())))))"

text \<open>The loop of \<open>run_batch\<close>, from case \<open>i\<close> for \<open>n\<close> more cases.\<close>

fun batch_from :: "prims \<Rightarrow> nat \<Rightarrow> nat \<Rightarrow> (Rng, exn, unit) gen" where
  "batch_from P i 0 = yield ()"
| "batch_from P i (Suc n) =
     andthen rand_consts (\<lambda>consts.
     andthen (if i mod 2 = 0 then rand_bytes 256 else rand_program) (\<lambda>cd.
       (case exercise P cd consts of
          Inl _ \<Rightarrow> give_up Panic
        | Inr _ \<Rightarrow> batch_from P (Suc i) n)))"

definition run_batch :: "prims \<Rightarrow> u64 \<Rightarrow> nat \<Rightarrow> exn + unit" where
  "run_batch P seed count =
     bindE (batch_from P 0 count (new_rng (seed XOR 11936128518282651045))) (\<lambda>_. Inr ())"

text \<open>A memory of random bytes and a program that calls one cryptographic opcode on it.\<close>

definition pick_crypto :: "u64 \<Rightarrow> Instr" where
  "pick_crypto k =
     (if k = 0 then Hash 0 1 2
      else if k = 1 then VerifyMl 0 1 2
      else if k = 2 then VerifySlh 0 1 2
      else MerkleVerify 0 1 2)"

definition rand_crypto_case :: "(Rng, exn, bytes \<times> bytes) gen" where
  "rand_crypto_case =
     andthen (collect MEM_BYTES (andthen next_u64 (\<lambda>z. yield (ucast z)))) (\<lambda>memory.
     andthen (below (of_nat (MEM_BYTES + 1))) (\<lambda>len.
     andthen (below (of_nat (MEM_BYTES + 1))) (\<lambda>out.
     andthen (below 4) (\<lambda>k.
       yield (encode (Ldi 0 0) @ encode (Ldi 1 len) @ encode (Ldi 2 out) @ encode (pick_crypto k) @ encode Halt,
         memory)))))"

definition exercise_crypto :: "prims \<Rightarrow> bytes \<Rightarrow> bytes \<Rightarrow> exn + unit" where
  "exercise_crypto P cd memory =
     bindE (returned (run P (with_memory memory (for_unchecked_program cd [] CRYPTO_METER_BOUND)))) (\<lambda>first.
     bindE (returned (run P (with_memory memory (for_unchecked_program cd [] CRYPTO_METER_BOUND)))) (\<lambda>second.
       assert_or Panic (first = second)))"

text \<open>The loop of \<open>run_crypto_batch\<close> goes on after a panic and collects the cases.\<close>

fun crypto_batch_from :: "prims \<Rightarrow> nat \<Rightarrow> nat \<Rightarrow> nat list \<Rightarrow> (Rng, exn, nat list) gen" where
  "crypto_batch_from P i 0 escaped = yield escaped"
| "crypto_batch_from P i (Suc n) escaped =
     andthen rand_crypto_case (\<lambda>(cd, memory).
       crypto_batch_from P (Suc i) n
         (case exercise_crypto P cd memory of Inl _ \<Rightarrow> escaped @ [i] | Inr _ \<Rightarrow> escaped))"

definition run_crypto_batch :: "prims \<Rightarrow> u64 \<Rightarrow> nat \<Rightarrow> exn + unit" where
  "run_crypto_batch P seed count =
     bindE (crypto_batch_from P 0 count [] (new_rng (seed XOR 2870177450012600261))) (\<lambda>(escaped, _).
       assert_or Panic (escaped = []))"

text \<open>The program of \<open>fuzz/src/main.rs\<close> on its arguments, texts that may fail to parse, and the time since
  the epoch in nanoseconds, \<open>None\<close> for a clock before it; it gives the line it prints.\<close>

definition default_seed :: "nat option \<Rightarrow> u64" where
  "default_seed since_epoch = (case since_epoch of Some nanos \<Rightarrow> of_nat nanos | None \<Rightarrow> 0)"

definition fuzz_main :: "prims \<Rightarrow> string list \<Rightarrow> nat option \<Rightarrow> exn + string" where
  "fuzz_main P args since_epoch =
     (let seed = (case args of [] \<Rightarrow> None | s # _ \<Rightarrow> parse_unsigned s);
          seed = (case seed of Some seed \<Rightarrow> seed | None \<Rightarrow> default_seed since_epoch);
          count = (case args of _ # s # _ \<Rightarrow> parse_unsigned s | _ \<Rightarrow> None);
          count = (case count of Some n \<Rightarrow> unat (n :: u64) | None \<Rightarrow> 1000000) in
      bindE (run_batch P seed count) (\<lambda>_.
        let crypto = max (count div 500) 1 in
        bindE (run_crypto_batch P seed crypto) (\<lambda>_.
          Inr (''fuzz batch of '' @ show_nat count @ '' cases and '' @ show_nat crypto @
            '' crypto cases passed for seed '' @ show_nat (unat seed)))))"

section \<open>What the generators draw\<close>

lemma draws_next [draws_intros]: "draws {} (\<lambda>_. True) next_u64"
  by (simp add: draws_def next_u64_def Let_def)

lemma draws_below: "n \<noteq> 0 \<Longrightarrow> draws {} (\<lambda>z. z < n) (below n)"
  unfolding below_def
  by (intro draws_andthen [OF draws_next] draws_intros) (simp_all add: word_mod_less_divisor word_gt_0)

lemma draws_reg: "draws {} (\<lambda>r. unat r < NUM_REGS) rand_reg"
  unfolding rand_reg_def
  by (intro draws_andthen [OF draws_below] draws_intros)
    (simp_all add: NUM_REGS_def word_less_nat_alt unsigned_ucast_eq take_bit_nat_eq_self)

lemma draws_words: "draws {} (\<lambda>_. True) (andthen next_u64 (\<lambda>z. yield (ucast z :: 'a::len word)))"
  by (intro draws_andthen [OF draws_next] draws_intros) simp

lemma draws_bytes: "most < 2 ^ 64 - 1 \<Longrightarrow> draws {} (\<lambda>bs. length bs \<le> most) (rand_bytes most)"
  unfolding rand_bytes_def
  by (intro draws_andthen [OF draws_below] draws_mono [OF draws_collect [OF draws_words]])
    (auto simp: word_less_nat_alt unsigned_of_nat take_bit_nat_eq_self word_unat_eq_iff simp del: of_nat_add of_nat_Suc)

lemma draws_consts: "draws {} (\<lambda>_. True) rand_consts"
  unfolding rand_consts_def
  by (intro draws_andthen [OF draws_below] draws_collect_any [OF draws_next]) simp

lemma draws_instr: "draws {} wf_instr rand_instr"
  unfolding rand_instr_def pick_instr_def
  by (intro draws_andthen [OF draws_reg] draws_andthen [OF draws_below] draws_andthen [OF draws_next] draws_intros)
    (simp_all add: wf_instr_def)

lemma draws_program:
  "draws {} (\<lambda>cd. \<exists>is. list_all wf_instr is \<and> length is < 48 \<and> cd = bytes_of (is @ [Halt])) rand_program"
  unfolding rand_program_def
  by (intro draws_andthen [OF draws_below] draws_andthen [OF draws_collect [OF draws_instr]] draws_intros)
    (auto simp: word_less_nat_alt)

text \<open>What a case of the cryptographic batch is.\<close>

inductive crypto_case :: "bytes \<times> bytes \<Rightarrow> bool" where
  crypto_caseI: "unat len \<le> MEM_BYTES \<Longrightarrow> unat out \<le> MEM_BYTES \<Longrightarrow> length memory = MEM_BYTES \<Longrightarrow>
    crypto_case (bytes_of [Ldi 0 0, Ldi 1 len, Ldi 2 out, pick_crypto k, Halt], memory)"

lemma draws_crypto_case: "draws {} crypto_case rand_crypto_case"
proof -
  have eq: "encode (Ldi 0 0) @ encode (Ldi 1 len) @ encode (Ldi 2 out) @ encode (pick_crypto k) @ encode Halt =
      bytes_of [Ldi 0 0, Ldi 1 len, Ldi 2 out, pick_crypto k, Halt]" for len out k
    by simp
  show ?thesis
    unfolding rand_crypto_case_def eq
    by (intro draws_andthen [OF draws_below] draws_andthen [OF draws_collect [OF draws_words]] draws_intros crypto_caseI)
      (simp_all add: MEM_BYTES_def word_less_nat_alt)
qed

text \<open>A generator that never ends early returns.\<close>

lemma draws_total:
  assumes "draws {} Q g"
  obtains x s' where "g s = Inr (x, s')" "Q x"
  using drawsD [OF assms, of s] by (cases "g s") auto

section \<open>What the cases do\<close>

lemma returned_run: "host_start P s \<Longrightarrow> \<exists>r. returned (run P s) = Inr r \<and> (\<forall>out. r = Inr out \<longrightarrow> run P s = Inr out)"
  using run_not_Panic [OF host_start_fresh, of P s]
  by (auto simp: returned_def split: sum.splits exn.splits)

lemma exercise_passes: "exercise P cd consts = Inr ()"
proof -
  let ?s = "with_storage_loader loaded_value (for_unchecked_program cd consts METER_BOUND)"
  have host: "host_start P ?s"
    by (intro host_start.intros)
  then obtain r where r: "returned (run P ?s) = Inr r" "\<forall>out. r = Inr out \<longrightarrow> run P ?s = Inr out"
    using returned_run by blast
  have "o_meter_used out \<le> METER_BOUND" if "r = Inr out" for out
  proof -
    have "run P ?s = Inr out"
      using r(2) that by blast
    with host show ?thesis
      by (rule host_outcome)
        (auto simp: outcome_of_def grows_defs with_storage_loader_def for_unchecked_program_def new_interp_def)
  qed
  then show ?thesis
    using r(1) by (auto simp: exercise_def assert_or_def split: sum.splits)
qed

lemma exercise_crypto_passes: "exercise_crypto P cd memory = Inr ()"
  using returned_run [of P "with_memory memory (for_unchecked_program cd [] CRYPTO_METER_BOUND)"]
  by (auto simp: exercise_crypto_def assert_or_def intro: host_start.intros)

lemma draws_code: "draws {} (\<lambda>_. True) (if even i then rand_bytes 256 else rand_program)"
  using draws_mono [OF draws_bytes [of 256]] draws_mono [OF draws_program] by simp

lemma draws_batch: "draws {} (\<lambda>_. True) (batch_from P i n)"
proof (induction n arbitrary: i)
  case (Suc n)
  show ?case
    unfolding batch_from.simps exercise_passes sum.case even_iff_mod_2_eq_zero [symmetric]
    by (rule draws_andthen [OF draws_consts], rule draws_andthen [OF draws_code], rule Suc.IH)
qed (simp add: draws_yield)

lemma draws_crypto_batch: "draws {} (\<lambda>xs. xs = escaped) (crypto_batch_from P i n escaped)"
proof (induction n arbitrary: i)
  case (Suc n)
  show ?case
    unfolding crypto_batch_from.simps exercise_crypto_passes sum.case split_beta
    by (rule draws_andthen [OF draws_crypto_case], rule Suc.IH)
qed (simp add: draws_yield)

lemma sweep_program:
  "list_all wf_instr is \<Longrightarrow> decode_sweep (pre @ bytes_of is) (length pre) = length (pre @ bytes_of is)"
proof (induction "is" arbitrary: pre)
  case Nil
  then show ?case
    by (simp add: decode_sweep.simps)
next
  case (Cons i "is")
  let ?cd = "pre @ encode i @ bytes_of is"
  have d: "decode ?cd (length pre) = Inr (i, encoded_len i)"
    using Cons.prems by (intro decode_encode) simp
  then have "length pre < length ?cd"
    using decodeD(3,5) [OF d] by linarith
  then have "decode_sweep ?cd (length pre) = decode_sweep ?cd (length (pre @ encode i))"
    using d by (simp add: decode_sweep.simps [of ?cd "length pre"] encoded_len_def)
  then show ?case
    using Cons.IH [of "pre @ encode i"] Cons.prems by simp
qed

section \<open>The call of a cryptographic case\<close>

lemma turn_ldi:
  assumes "decode (code s) (unat (mpc (machine s))) = Inr (Ldi d v, n)" and "wf_machine (machine s)"
    and "unat (mpc (machine s)) + n < 2 ^ 32" and "unat (meter_used s) + 1 \<le> unat (meter_limit s)"
  shows "turn P s = Inr (Inr (s\<lparr>meter_used := meter_used s + 1,
    machine := (machine s)\<lparr>mpc := mpc (machine s) + of_nat n, regs := (regs (machine s))[unat d := v]\<rparr>\<rparr>))"
proof -
  have "unat d < NUM_REGS"
    using decodeD(1) [OF assms(1)] by (simp add: wf_instr_def)
  let ?s = "s\<lparr>meter_used := meter_used s + 1, machine := (machine s)\<lparr>mpc := mpc (machine s) + of_nat n\<rparr>\<rparr>"
  have "unat (meter_used s + 1) = unat (meter_used s) + 1"
    using assms(4) unat_bound [of "meter_limit s"] by (intro trans [OF unat_add_no_wrap]) simp_all
  then have "fetch s = Inr (Ldi d v, ?s)"
    unfolding fetch_Inr_iff using assms
    by (intro exI [of _ n] exI [of _ "meter_used s + 1"]) (simp add: word_le_nat_alt)
  then show ?thesis
    using \<open>unat d < NUM_REGS\<close> assms(2) by (simp add: turn_def step_def on_machine_def set_reg_def wf_machine_def)
qed

text \<open>A case of the cryptographic batch reaches its opcode with the operands that were drawn.\<close>

lemma crypto_case_turns:
  assumes "crypto_case (cd, memory)"
  shows "\<exists>t i n. turns P (with_memory memory (for_unchecked_program cd [] CRYPTO_METER_BOUND)) 3 t \<and>
    decode cd (unat (mpc (machine t))) = Inr (i, n) \<and>
    i \<in> {Hash 0 1 2, VerifyMl 0 1 2, VerifySlh 0 1 2, MerkleVerify 0 1 2} \<and>
    regs (machine t) ! 0 = 0 \<and> unat (regs (machine t) ! 1) \<le> MEM_BYTES \<and>
    unat (regs (machine t) ! 2) \<le> MEM_BYTES \<and> mem (machine t) = memory"
  using assms
proof cases
  case (crypto_caseI len out k)
  define s where "s = with_memory memory (for_unchecked_program cd [] CRYPTO_METER_BOUND)"
  let ?at = "\<lambda>n rs. s\<lparr>meter_used := of_nat n, machine := (machine s)\<lparr>mpc := of_nat (10 * n), regs := rs\<rparr>\<rparr>"
  let ?rs = "replicate 16 (0 :: u64)"
  have d: "decode cd 0 = Inr (Ldi 0 0, 10)" "decode cd 10 = Inr (Ldi 1 len, 10)" "decode cd 20 = Inr (Ldi 2 out, 10)"
      "decode cd 30 = Inr (pick_crypto k, encoded_len (pick_crypto k))"
    using decode_encode [of "Ldi 0 0" "[]" "bytes_of [Ldi 1 len, Ldi 2 out, pick_crypto k, Halt]"]
      decode_encode [of "Ldi 1 len" "bytes_of [Ldi 0 0]" "bytes_of [Ldi 2 out, pick_crypto k, Halt]"]
      decode_encode [of "Ldi 2 out" "bytes_of [Ldi 0 0, Ldi 1 len]" "bytes_of [pick_crypto k, Halt]"]
      decode_encode [of "pick_crypto k" "bytes_of [Ldi 0 0, Ldi 1 len, Ldi 2 out]" "bytes_of [Halt]"]
    by (simp_all add: crypto_caseI wf_instr_def NUM_REGS_def encode_def encoded_len_def pick_crypto_def)
  have s: "code s = cd" "s = ?at 0 ?rs" "meter_limit s = CRYPTO_METER_BOUND" "stack (machine s) = []"
      "mem (machine s) = memory" "length memory = MEM_BYTES"
    using crypto_caseI by (simp_all add: s_def with_memory_def for_unchecked_program_def new_interp_def new_machine_def
        NUM_REGS_def copy_into_def)
  have load: "turn P (?at n rs) = Inr (Inr (?at (Suc n) (rs[unat d := v])))"
    if "decode cd (10 * n) = Inr (Ldi d v, 10)" and "n < 3" and "length rs = 16" for n rs d v
  proof -
    have "unat (of_nat (10 * n) :: u32) = 10 * n"
      using that(2) unfolding unsigned_of_nat by (simp add: take_bit_nat_eq_self)
    then have "turn P (?at n rs) = Inr (Inr (?at n rs\<lparr>meter_used := of_nat n + 1,
        machine := (machine (?at n rs))\<lparr>mpc := of_nat (10 * n) + of_nat 10, regs := rs[unat d := v]\<rparr>\<rparr>))"
      using that s(3-6) turn_ldi [of "?at n rs" d v 10 P]
      by (simp add: s(1) wf_machine_def NUM_REGS_def STACK_LIMIT_def unsigned_of_nat take_bit_nat_eq_self CRYPTO_METER_BOUND_def
          del: of_nat_mult)
    then show ?thesis
      by (simp add: algebra_simps)
  qed
  have "turns P (?at 0 ?rs) 3 (?at 3 (?rs[0 := 0, 1 := len, 2 := out]))"
  proof -
    have "turn P (?at 0 ?rs) = Inr (Inr (?at 1 (?rs[0 := 0])))"
      "turn P (?at 1 (?rs[0 := 0])) = Inr (Inr (?at 2 (?rs[0 := 0, 1 := len])))"
      "turn P (?at 2 (?rs[0 := 0, 1 := len])) = Inr (Inr (?at 3 (?rs[0 := 0, 1 := len, 2 := out])))"
      using load [of 0 0 0 ?rs] load [of 1 1 len "?rs[0 := 0]"] load [of 2 2 out "?rs[0 := 0, 1 := len]"] d(1-3)
      by simp_all
    then show ?thesis
      unfolding numeral_3_eq_3 by (blast intro: turns.intros)
  qed
  then show ?thesis
    unfolding s_def [symmetric] using d(4) s crypto_caseI
    by (intro exI [of _ "?at 3 (?rs[0 := 0, 1 := len, 2 := out])"] exI [of _ "pick_crypto k"]) (auto simp: pick_crypto_def)
qed

section \<open>The stream of words\<close>

text \<open>The words drawn are the states of a counter with an odd step, each scrambled by operations
  that can be undone, so none comes again before the counter does.\<close>

definition scramble :: "u64 \<Rightarrow> u64" where
  "scramble z =
     (let z = (z XOR drop_bit 30 z) * 13787848793156543929;
          z = (z XOR drop_bit 27 z) * 10723151780598845931 in
      z XOR drop_bit 31 z)"

lemma next_scrambles:
  "next_u64 rng = (let rng = rng\<lparr>rng_state := rng_state rng + 11400714819323198485\<rparr> in Inr (scramble (rng_state rng), rng))"
  by (simp add: next_u64_def scramble_def Let_def)

lemma drop_bit_fixpoint:
  fixes d :: "'a::len word"
  assumes "d = drop_bit k d" and "0 < k"
  shows "d = 0"
proof -
  have "d = drop_bit (n * k) d" for n
  proof (induction n)
    case (Suc n)
    then have "drop_bit k d = drop_bit k (drop_bit (n * k) d)"
      by simp
    then show ?case
      using assms(1) by (simp add: drop_bit_drop_bit)
  qed simp
  moreover have "drop_bit (LENGTH('a) * k) d = 0"
    using assms(2) by (intro bit_eqI) (auto simp: bit_simps dest!: bit_imp_le_length)
  ultimately show ?thesis
    by metis
qed

lemma xorshift_inj:
  assumes "x XOR drop_bit k x = y XOR drop_bit k (y :: 'a::len word)" and "0 < k"
  shows "x = y"
proof -
  have "x XOR y = drop_bit k (x XOR y)"
    unfolding drop_bit_xor
    using arg_cong [OF assms(1), of "\<lambda>z. z XOR y XOR drop_bit k x"] by (simp add: ac_simps)
  then have "x XOR y = 0"
    using assms(2) by (rule drop_bit_fixpoint)
  then have "(x XOR y) XOR y = 0 XOR y"
    by (simp only:)
  then show ?thesis
    by (simp add: xor.assoc)
qed

lemma times_inj:
  fixes c :: "'a::len word"
  assumes "x * c = y * c" and "c * c' = 1"
  shows "x = y"
  using arg_cong [OF assms(1), of "\<lambda>z. z * c'"] assms(2) by (simp add: mult.assoc)

lemma scramble_inj: "scramble x = scramble y \<Longrightarrow> x = y"
  unfolding scramble_def Let_def
  by (drule xorshift_inj, simp, drule times_inj [where c' = 3573116690164977347], simp,
      drule xorshift_inj, simp, drule times_inj [where c' = 10871156337175269513], simp, drule xorshift_inj, simp_all)

lemma collect_next:
  "\<exists>rng'. collect n next_u64 rng =
     Inr (map (\<lambda>i. scramble (rng_state rng + of_nat (Suc i) * 11400714819323198485)) [0..<n], rng')"
proof (induction n arbitrary: rng)
  case (Suc n)
  let ?rng = "rng\<lparr>rng_state := rng_state rng + 11400714819323198485\<rparr>"
  obtain rng' where "collect n next_u64 ?rng =
      Inr (map (\<lambda>i. scramble (rng_state ?rng + of_nat (Suc i) * 11400714819323198485)) [0..<n], rng')"
    using Suc.IH by blast
  then show ?case
    by (simp add: andthen_def next_scrambles [of rng] yield_def map_upt_Suc algebra_simps del: upt_Suc)
qed (simp add: yield_def)

lemma stream_inj:
  assumes "scramble (s + of_nat (Suc i) * 11400714819323198485) = scramble (s + of_nat (Suc j) * 11400714819323198485)"
    and "i < 2 ^ 64" and "j < 2 ^ 64"
  shows "i = j"
proof -
  have "(of_nat (Suc i) :: u64) * 11400714819323198485 = of_nat (Suc j) * 11400714819323198485"
    using scramble_inj [OF assms(1)] by (simp only: add_left_cancel)
  then have "(of_nat (Suc i) :: u64) = of_nat (Suc j)"
    by (rule times_inj [where c' = 17428512612931826493]) simp
  then have "(of_nat i :: u64) = of_nat j"
    by simp
  then show ?thesis
    using assms(2,3) by (simp add: word_of_nat_eq_iff take_bit_nat_eq_self)
qed

section \<open>Properties\<close>

lemma batches_pass: "run_batch P seed count = Inr () \<and> run_crypto_batch P seed count = Inr ()"
proof -
  obtain u rng where "batch_from P 0 count (new_rng (seed XOR 11936128518282651045)) = Inr (u, rng)"
    using draws_total [OF draws_batch] by metis
  moreover obtain xs rng' where
    "crypto_batch_from P 0 count [] (new_rng (seed XOR 2870177450012600261)) = Inr (xs, rng')" "xs = []"
    using draws_total [OF draws_crypto_batch] by metis
  ultimately show ?thesis
    by (simp add: run_batch_def run_crypto_batch_def assert_or_def)
qed

text \<open>C36. The fuzz harness passes on every seed, for every number of cases and whatever the
  primitives do: no random code and no random program makes the interpreter panic or overrun
  its meter, and no cryptographic case escapes the firewall; so the program passes on
  any arguments, at any time.\<close>

theorem fuzz_batches_pass:
  "run_batch P seed count = Inr () \<and> run_crypto_batch P seed count = Inr () \<and>
     (\<exists>line. fuzz_main P args since_epoch = Inr line)"
  by (simp add: batches_pass fuzz_main_def Let_def)

text \<open>A random program is a program: at most 47 instructions with registers that exist and a final
  halt, which the sweep decodes to its end.\<close>

theorem random_programs_decode:
  "\<exists>is rng'. rand_program rng = Inr (bytes_of (is @ [Halt]), rng') \<and> list_all wf_instr is \<and>
     length is < 48 \<and> decode_sweep (bytes_of (is @ [Halt])) 0 = length (bytes_of (is @ [Halt]))"
proof -
  obtain cd rng' where "rand_program rng = Inr (cd, rng')"
    and "\<exists>is. list_all wf_instr is \<and> length is < 48 \<and> cd = bytes_of (is @ [Halt])"
    using draws_total [OF draws_program] by metis
  then obtain "is" where "list_all wf_instr is" "length is < 48" "rand_program rng = Inr (bytes_of (is @ [Halt]), rng')"
    by blast
  moreover from this have "decode_sweep (bytes_of (is @ [Halt])) 0 = length (bytes_of (is @ [Halt]))"
    using sweep_program [of "is @ [Halt]" "[]"] by (simp add: wf_instr_def)
  ultimately show ?thesis
    by blast
qed

text \<open>C38. Every cryptographic case tests what it is meant to test: after three turns the interpreter is at one of the
  four opcodes, whose operands are the start of the memory and a length and an output offset within it,
  and the memory is the random one.\<close>

theorem crypto_cases_reach:
  "\<exists>cd memory rng' t i n.
     rand_crypto_case rng = Inr ((cd, memory), rng') \<and> length memory = MEM_BYTES \<and>
     turns P (with_memory memory (for_unchecked_program cd [] CRYPTO_METER_BOUND)) 3 t \<and>
     decode cd (unat (mpc (machine t))) = Inr (i, n) \<and>
     i \<in> {Hash 0 1 2, VerifyMl 0 1 2, VerifySlh 0 1 2, MerkleVerify 0 1 2} \<and>
     regs (machine t) ! 0 = 0 \<and> unat (regs (machine t) ! 1) \<le> MEM_BYTES \<and>
     unat (regs (machine t) ! 2) \<le> MEM_BYTES \<and> mem (machine t) = memory"
proof -
  obtain c rng' where c: "rand_crypto_case rng = Inr (c, rng')" "crypto_case c"
    using draws_total [OF draws_crypto_case] by metis
  obtain cd memory where "c = (cd, memory)"
    by fastforce
  moreover from this have "length memory = MEM_BYTES"
    using c(2) by (auto elim: crypto_case.cases)
  ultimately show ?thesis
    using c crypto_case_turns [of cd memory P] by blast
qed

text \<open>The random words do not repeat: the first \<open>2 ^ 64\<close> words drawn from any seed are distinct.\<close>

theorem words_never_repeat:
  assumes "n \<le> 2 ^ 64"
  shows "\<exists>xs rng'. collect n next_u64 rng = Inr (xs, rng') \<and> length xs = n \<and> distinct xs"
proof -
  have "distinct (map (\<lambda>i. scramble (rng_state rng + of_nat (Suc i) * 11400714819323198485)) [0..<n])"
    using assms by (auto simp: distinct_map inj_on_def dest!: stream_inj simp del: of_nat_Suc)
  then show ?thesis
    using collect_next [of n rng] by auto
qed

lemma words_never_repeat_witness:
  "\<exists>xs rng'. collect 256 next_u64 (new_rng 1) = Inr (xs, rng') \<and> length xs = 256 \<and> distinct xs"
  by (rule words_never_repeat) simp

end
