(* ===== verification/EntryFuzz.thy ===== *)
theory EntryFuzz
  imports Draws Samples
begin

text \<open>
  The coverage-guided fuzz target of \<open>fuzz/fuzz_targets/entry_path.rs\<close>: it draws a container with valid code, calls one of its entries and asserts
  what the outcome may be.  The crate \<open>arbitrary\<close>, which turns the fuzzer's bytes into values, is the
  record \<open>entropy\<close> over any state \<open>'u\<close>: each request returns a value and the state after it, or
  \<open>None\<close> for the crate's error, which \<open>?\<close> hands to the caller.  A failed assertion or an index out of
  range is \<open>Panicked\<close>.
\<close>

definition METER_CAP :: u64 where "METER_CAP = 100000"

section \<open>Requests\<close>

record 'u entropy =
  any_u8 :: "'u \<Rightarrow> (u8 \<times> 'u) option"
  any_u16 :: "'u \<Rightarrow> (u16 \<times> 'u) option"
  any_u32 :: "'u \<Rightarrow> (u32 \<times> 'u) option"
  any_u64 :: "'u \<Rightarrow> (u64 \<times> 'u) option"
  any_bool :: "'u \<Rightarrow> (bool \<times> 'u) option"
  range_u8 :: "nat \<Rightarrow> nat \<Rightarrow> 'u \<Rightarrow> (nat \<times> 'u) option"
  range_i32 :: "nat \<Rightarrow> nat \<Rightarrow> 'u \<Rightarrow> (nat \<times> 'u) option"
  range_usize :: "nat \<Rightarrow> nat \<Rightarrow> 'u \<Rightarrow> (nat \<times> 'u) option"
  fill_buffer :: "nat \<Rightarrow> 'u \<Rightarrow> (bytes \<times> 'u) option"

datatype stop = Refused | Panicked

definition ask :: "('u \<Rightarrow> ('a \<times> 'u) option) \<Rightarrow> ('u, stop, 'a) gen" where
  "ask f = (\<lambda>u. case f u of None \<Rightarrow> Inl Refused | Some r \<Rightarrow> Inr r)"

text \<open>\<open>xs[k % xs.len()]\<close>: no remainder by zero.\<close>

definition index_mod :: "'a list \<Rightarrow> nat \<Rightarrow> stop + 'a" where
  "index_mod xs k = (if xs = [] then Inl Panicked else Inr (xs ! (k mod length xs)))"

definition pure :: "stop + 'a \<Rightarrow> ('u, stop, 'a) gen" where
  "pure r = (\<lambda>u. bindE r (\<lambda>x. Inr (x, u)))"

section \<open>Instructions\<close>

definition fuzz_reg :: "'u entropy \<Rightarrow> ('u, stop, Reg) gen" where
  "fuzz_reg E = andthen (ask (any_u8 E)) (\<lambda>r. yield (r mod of_nat NUM_REGS))"

text \<open>The struct expressions: one, two or three registers, drawn in the order of the fields.\<close>

definition with1 :: "'u entropy \<Rightarrow> (Reg \<Rightarrow> Instr) \<Rightarrow> ('u, stop, Instr) gen" where
  "with1 E f = andthen (fuzz_reg E) (\<lambda>a. yield (f a))"

definition with2 :: "'u entropy \<Rightarrow> (Reg \<Rightarrow> Reg \<Rightarrow> Instr) \<Rightarrow> ('u, stop, Instr) gen" where
  "with2 E f = andthen (fuzz_reg E) (\<lambda>a. with1 E (f a))"

definition with3 :: "'u entropy \<Rightarrow> (Reg \<Rightarrow> Reg \<Rightarrow> Reg \<Rightarrow> Instr) \<Rightarrow> ('u, stop, Instr) gen" where
  "with3 E f = andthen (fuzz_reg E) (\<lambda>a. with2 E (f a))"

definition arm_instr :: "'u entropy \<Rightarrow> nat \<Rightarrow> nat \<Rightarrow> ('u, stop, Instr) gen" where
  "arm_instr E n_consts k =
     (if k = 0 then yield Halt
      else if k = 1 then yield Nop
      else if k = 2 then with2 E Mov
      else if k = 3 then andthen (fuzz_reg E) (\<lambda>d. andthen (ask (any_u64 E)) (\<lambda>imm. yield (Ldi d imm)))
      else if k = 4 then
        (if n_consts = 0 then yield Nop
         else andthen (fuzz_reg E) (\<lambda>d. andthen (ask (any_u16 E)) (\<lambda>idx.
           yield (Ldc d (of_nat (unat idx mod n_consts))))))
      else if k = 5 then with3 E Add
      else if k = 6 then with3 E Sub
      else if k = 7 then with3 E Mul
      else if k = 8 then with3 E Div
      else if k = 9 then with3 E Rem
      else if k = 10 then with3 E AddW
      else if k = 11 then with3 E SubW
      else if k = 12 then with3 E MulW
      else if k = 13 then with3 E MulHi
      else if k = 14 then with3 E And
      else if k = 15 then with3 E Or
      else if k = 16 then with3 E Xor
      else if k = 17 then with2 E NotW
      else if k = 18 then with3 E Shl
      else if k = 19 then with3 E Shr
      else if k = 20 then with3 E Eq
      else if k = 21 then with3 E LtU
      else if k = 22 then with3 E GtU
      else if k = 23 then with1 E Push
      else if k = 24 then with1 E Pop
      else if k = 25 then with2 E MLoad
      else if k = 26 then with2 E MStore
      else if k = 27 then andthen (ask (any_u32 E)) (\<lambda>target. yield (Jmp target))
      else if k = 28 then andthen (fuzz_reg E) (\<lambda>a. andthen (ask (any_u32 E)) (\<lambda>target. yield (Jz a target)))
      else if k = 29 then andthen (fuzz_reg E) (\<lambda>a. andthen (ask (any_u32 E)) (\<lambda>target. yield (Jnz a target)))
      else if k = 30 then andthen (ask (any_u32 E)) (\<lambda>target. yield (Call target))
      else if k = 31 then yield Ret
      else if k = 32 then with2 E SLoad
      else if k = 33 then with2 E SStore
      else if k = 34 then with3 E Send
      else if k = 35 then with3 E Emit
      else if k = 36 then with3 E Hash
      else if k = 37 then with3 E VerifyMl
      else if k = 38 then with3 E MerkleVerify
      else if k = 39 then with3 E VerifySlh
      else with3 E Addr)"

definition gen_instr :: "'u entropy \<Rightarrow> nat \<Rightarrow> ('u, stop, Instr) gen" where
  "gen_instr E n_consts = andthen (ask (range_u8 E 0 41)) (\<lambda>k. arm_instr E n_consts k)"

definition remap_target :: "u32 list \<Rightarrow> Instr \<Rightarrow> stop + Instr" where
  "remap_target starts instr =
     (case instr of
        Jmp target \<Rightarrow> bindE (index_mod starts (unat target)) (\<lambda>t. Inr (Jmp t))
      | Jz a target \<Rightarrow> bindE (index_mod starts (unat target)) (\<lambda>t. Inr (Jz a t))
      | Jnz a target \<Rightarrow> bindE (index_mod starts (unat target)) (\<lambda>t. Inr (Jnz a t))
      | Call target \<Rightarrow> bindE (index_mod starts (unat target)) (\<lambda>t. Inr (Call t))
      | _ \<Rightarrow> Inr instr)"

text \<open>The loops of \<open>drive\<close> over the instructions: where each starts, and the new targets.\<close>

fun starts_from :: "u32 \<Rightarrow> Instr list \<Rightarrow> u32 list" where
  "starts_from off [] = []"
| "starts_from off (i # is) = off # starts_from (saturating_add off (of_nat (encoded_len i))) is"

fun remap_all :: "u32 list \<Rightarrow> Instr list \<Rightarrow> stop + Instr list" where
  "remap_all starts [] = Inr []"
| "remap_all starts (i # is) =
     bindE (remap_target starts i) (\<lambda>i. bindE (remap_all starts is) (\<lambda>is. Inr (i # is)))"

section \<open>Containers\<close>

definition gen_slots :: "'u entropy \<Rightarrow> ('u, stop, u64 list) gen" where
  "gen_slots E = andthen (ask (range_i32 E 0 6)) (\<lambda>n. collect n (ask (any_u64 E)))"

primrec storage_from :: "'u entropy \<Rightarrow> nat \<Rightarrow> (StorageKey, u64) fmap \<Rightarrow> ('u, stop, (StorageKey, u64) fmap) gen" where
  "storage_from E 0 st = yield st"
| "storage_from E (Suc n) st =
     andthen (ask (fill_buffer E STORAGE_KEY_BYTES)) (\<lambda>key.
     andthen (ask (any_u64 E)) (\<lambda>v. storage_from E n (fmupd key v st)))"

definition gen_storage :: "'u entropy \<Rightarrow> ('u, stop, (StorageKey, u64) fmap) gen" where
  "gen_storage E = andthen (ask (range_i32 E 0 6)) (\<lambda>n. storage_from E n fmempty)"

text \<open>\<open>drive\<close> up to the code: the pool, the starts of the instructions and the code.\<close>

definition gen_code :: "'u entropy \<Rightarrow> ('u, stop, u64 list \<times> u32 list \<times> bytes) gen" where
  "gen_code E =
     andthen (ask (range_i32 E 0 8)) (\<lambda>n_consts.
     andthen (collect n_consts (ask (any_u64 E))) (\<lambda>consts.
     andthen (ask (range_usize E 0 48)) (\<lambda>n_instr.
     andthen (collect n_instr (gen_instr E (length consts))) (\<lambda>is.
       let instrs = is @ [Halt]; starts = starts_from 0 instrs in
       andthen (pure (remap_all starts instrs)) (\<lambda>instrs.
         yield (consts, starts, concat (map encode instrs)))))))"

definition gen_entry :: "'u entropy \<Rightarrow> u32 list \<Rightarrow> ('u, stop, Entry) gen" where
  "gen_entry E starts =
     andthen (ask (fill_buffer E SELECTOR_BYTES)) (\<lambda>sel.
     andthen (ask (any_bool E)) (\<lambda>on_start.
     andthen (if on_start
              then andthen (ask (any_u32 E)) (\<lambda>k. pure (index_mod starts (unat k)))
              else ask (any_u32 E)) (\<lambda>offset.
     andthen (gen_slots E) (\<lambda>rs. andthen (gen_slots E) (\<lambda>ws.
     andthen (gen_slots E) (\<lambda>krs. andthen (gen_slots E) (\<lambda>kws.
       yield \<lparr>e_selector = sel, e_offset = offset,
         e_access = \<lparr>reads = rs, writes = ws, keyed_reads = krs, keyed_writes = kws\<rparr>\<rparr>)))))))"

definition gen_container :: "'u entropy \<Rightarrow> ('u, stop, Container) gen" where
  "gen_container E =
     andthen (gen_code E) (\<lambda>(consts, starts, cd).
     andthen (ask (range_usize E 0 8)) (\<lambda>n_entries.
     andthen (collect n_entries (gen_entry E starts)) (\<lambda>entries.
       yield (new_container cd consts entries))))"

section \<open>The call\<close>

definition gen_selector :: "'u entropy \<Rightarrow> Container \<Rightarrow> ('u, stop, bytes) gen" where
  "gen_selector E c =
     (let random = ask (fill_buffer E SELECTOR_BYTES) in
      if c_entries c = [] then random
      else andthen (ask (any_bool E)) (\<lambda>known.
        if known
        then andthen (ask (any_u32 E)) (\<lambda>k.
          andthen (pure (index_mod (c_entries c) (unat k))) (\<lambda>e. yield (e_selector e)))
        else random))"

text \<open>The assertions on an outcome.\<close>

definition check_storage :: "Container \<Rightarrow> bytes \<Rightarrow> (StorageKey, u64) fmap \<Rightarrow> Outcome \<Rightarrow> stop + unit" where
  "check_storage c sel initial outcome =
     (case find (\<lambda>e. e_selector e = sel) (c_entries c) of
        None \<Rightarrow> Inr ()
      | Some entry \<Rightarrow>
          if keyed_writes (e_access entry) = [] then
            let allowed = fset_of_list (map scalar_key (writes (e_access entry))) in
            assert_or Panicked (fBall (fmdom (o_storage outcome)) (\<lambda>key.
              fmlookup initial key = fmlookup (o_storage outcome) key \<or> key |\<in>| allowed))
          else Inr ())"

definition check_outcome ::
  "Container \<Rightarrow> bytes \<Rightarrow> u64 \<Rightarrow> (StorageKey, u64) fmap \<Rightarrow> Outcome \<Rightarrow> stop + unit" where
  "check_outcome c sel limit initial outcome =
     bindE (assert_or Panicked (o_meter_used outcome \<le> limit)) (\<lambda>_.
     bindE (assert_or Panicked (DISPATCH \<le> o_meter_used outcome)) (\<lambda>_.
       check_storage c sel initial outcome))"

definition call_entry ::
  "prims \<Rightarrow> Container \<Rightarrow> bytes \<Rightarrow> u64 \<Rightarrow> bytes \<Rightarrow> (StorageKey, u64) fmap \<Rightarrow> stop + unit" where
  "call_entry P c sel limit memory initial =
     (case for_entry P c sel limit of
        Inl Panic \<Rightarrow> Inl Panicked
      | Inl (Fault _) \<Rightarrow> Inr ()
      | Inr it \<Rightarrow>
          (case run P (with_memory memory (with_storage initial it)) of
             Inl Panic \<Rightarrow> Inl Panicked
           | Inl (Fault _) \<Rightarrow> Inr ()
           | Inr outcome \<Rightarrow> check_outcome c sel limit initial outcome))"

definition drive :: "'u entropy \<Rightarrow> prims \<Rightarrow> ('u, stop, unit) gen" where
  "drive E P =
     andthen (gen_container E) (\<lambda>c.
       (case verify c of
          Inl _ \<Rightarrow> yield ()
        | Inr _ \<Rightarrow>
            andthen (gen_selector E c) (\<lambda>sel.
            andthen (ask (any_u64 E)) (\<lambda>l.
            let limit = l mod (METER_CAP + 1) in
            andthen (ask (range_usize E 0 2048)) (\<lambda>mem_len.
            andthen (ask (fill_buffer E mem_len)) (\<lambda>memory.
            andthen (gen_storage E) (\<lambda>initial.
              pure (call_entry P c sel limit memory initial))))))))"

text \<open>The target itself, on whatever source the fuzzer's data gives: only a panic is a crash.\<close>

definition fuzz_target :: "'u entropy \<Rightarrow> prims \<Rightarrow> 'u \<Rightarrow> exn + unit" where
  "fuzz_target E P u = (case drive E P u of Inl Panicked \<Rightarrow> Inl Panic | _ \<Rightarrow> Inr ())"

section \<open>The assertions hold\<close>

lemma draws_ask [draws_intros]: "draws {Refused} (\<lambda>_. True) (ask f)"
  by (simp add: draws_def ask_def split: option.splits)

lemma draws_pure: "(\<And>e. r = Inl e \<Longrightarrow> e \<in> X) \<Longrightarrow> (\<And>x. r = Inr x \<Longrightarrow> Q x) \<Longrightarrow> draws X Q (pure r)"
  by (cases r) (simp_all add: draws_def pure_def)

lemma draws_index: "xs \<noteq> [] \<Longrightarrow> draws X (\<lambda>x. x \<in> set xs) (pure (index_mod xs k))"
  by (rule draws_pure) (auto simp: index_mod_def)

section \<open>The generated code\<close>

lemma draws_fuzz_reg: "draws {Refused} (\<lambda>r. unat r < NUM_REGS) (fuzz_reg E)"
  unfolding fuzz_reg_def
  by (intro draws_andthen [OF draws_ask] draws_intros) (simp add: NUM_REGS_def unat_mod)

lemma draws_with:
  "(\<And>a. unat a < NUM_REGS \<Longrightarrow> Q (f a)) \<Longrightarrow> draws {Refused} Q (with1 E f)"
  "(\<And>a b. unat a < NUM_REGS \<Longrightarrow> unat b < NUM_REGS \<Longrightarrow> Q (g a b)) \<Longrightarrow> draws {Refused} Q (with2 E g)"
  "(\<And>a b c. unat a < NUM_REGS \<Longrightarrow> unat b < NUM_REGS \<Longrightarrow> unat c < NUM_REGS \<Longrightarrow> Q (h a b c)) \<Longrightarrow>
     draws {Refused} Q (with3 E h)"
  unfolding with3_def with2_def with1_def
  by (intro draws_andthen [OF draws_fuzz_reg] draws_intros; simp)+

text \<open>An instruction of the target: registers and constant exist.\<close>

abbreviation runnable :: "nat \<Rightarrow> Instr \<Rightarrow> bool" where
  "runnable n_consts i \<equiv> wf_instr i \<and> const_ok n_consts i"

lemma draws_gen_instr:
  "draws {Refused} (\<lambda>i. wf_instr i \<and> (n_consts < 2 ^ 16 \<longrightarrow> const_ok n_consts i)) (gen_instr E n_consts)"
proof -
  have "n_consts < 2 ^ 16 \<longrightarrow> unat (of_nat (k mod n_consts) :: u16) < n_consts" if "n_consts \<noteq> 0" for k
  proof -
    have "k mod n_consts < n_consts"
      using that by simp
    then show ?thesis
      by (simp add: unsigned_of_nat take_bit_nat_eq_self)
  qed
  then show ?thesis
    unfolding gen_instr_def arm_instr_def
    by (intro draws_andthen [OF draws_ask] draws_andthen [OF draws_fuzz_reg] draws_with draws_intros)
      (simp_all add: wf_instr_def const_ok_def)
qed

text \<open>Remapping keeps the layout and makes every target one of the starts.\<close>

definition remapped :: "u32 list \<Rightarrow> Instr \<Rightarrow> Instr \<Rightarrow> bool" where
  "remapped starts i j \<longleftrightarrow>
     encoded_len j = encoded_len i \<and> (wf_instr i \<longrightarrow> wf_instr j) \<and> (\<forall>n. const_ok n i \<longrightarrow> const_ok n j) \<and>
     (\<forall>t. jump_target j = Some t \<longrightarrow> t \<in> set starts)"

lemma remap_target_ok:
  assumes "starts \<noteq> []"
  shows "\<exists>j. remap_target starts i = Inr j \<and> remapped starts i j"
  using assms
  by (cases i) (auto simp: remap_target_def index_mod_def remapped_def jump_target_def const_ok_def wf_instr_def
      encoded_len_def encode_def)

lemma remap_all_ok:
  assumes "starts \<noteq> []"
  shows "\<exists>js. remap_all starts is = Inr js \<and> list_all2 (remapped starts) is js"
proof (induction "is")
  case (Cons i "is")
  then show ?case
    using remap_target_ok [OF assms, of i] by auto
qed simp

lemma remapped_lengths:
  "list_all2 (remapped starts) is js \<Longrightarrow> length (bytes_of js) = length (bytes_of is)"
  by (induction rule: list_all2_induct) (simp_all add: remapped_def encoded_len_def)

lemma remapped_runnable:
  "list_all2 (remapped starts) is js \<Longrightarrow> list_all (runnable n) is \<Longrightarrow>
     list_all wf_instr js \<and> (\<forall>j \<in> set js. const_ok n j \<and> (\<forall>t. jump_target j = Some t \<longrightarrow> t \<in> set starts))"
  by (induction rule: list_all2_induct) (auto simp: remapped_def)

text \<open>The starts computed with 32-bit saturating sums are the offsets of the instructions.\<close>

lemma starts_fromD:
  "t \<in> set (starts_from off is) \<Longrightarrow> unat off + length (bytes_of is) < 2 ^ 32 \<Longrightarrow>
     \<exists>pre post. is = pre @ post \<and> post \<noteq> [] \<and> unat t = unat off + length (bytes_of pre)"
proof (induction "is" arbitrary: off)
  case (Cons i "is")
  let ?off = "saturating_add off (of_nat (encoded_len i))"
  have len: "unat (of_nat (encoded_len i) :: u32) = encoded_len i"
    using encoded_len_le [of i] by (simp add: unsigned_of_nat take_bit_nat_eq_self)
  then have off: "unat ?off = unat off + encoded_len i"
    using Cons.prems(2) by (simp add: unat_saturating_add encoded_len_def)
  show ?case
  proof (cases "t = off")
    case True
    then have "i # is = [] @ i # is \<and> i # is \<noteq> [] \<and> unat t = unat off + length (bytes_of [])"
      by simp
    then show ?thesis
      by blast
  next
    case False
    then have "t \<in> set (starts_from ?off is)"
      using Cons.prems(1) False by simp
    then obtain pre post where "is = pre @ post" "post \<noteq> []" "unat t = unat ?off + length (bytes_of pre)"
      using Cons.IH [of ?off] Cons.prems(2) off by (auto simp: encoded_len_def)
    then have "i # is = (i # pre) @ post \<and> post \<noteq> [] \<and> unat t = unat off + length (bytes_of (i # pre))"
      using off by (simp add: encoded_len_def)
    then show ?thesis
      by blast
  qed
qed simp

definition good_code :: "nat \<Rightarrow> u32 list \<Rightarrow> bytes \<Rightarrow> bool" where
  "good_code n_consts starts cd \<longleftrightarrow>
     length cd \<le> MAX_CODE_BYTES \<and> code_ok cd n_consts \<and> (\<forall>t \<in> set starts. instr_start cd (unat t))"

lemma remapped_code:
  assumes js: "list_all2 (remapped (starts_from 0 is)) is js" and ok: "list_all (runnable n) is"
    and small: "length (bytes_of is) \<le> MAX_CODE_BYTES"
  shows "good_code n (starts_from 0 is) (bytes_of js)"
proof -
  have wf: "list_all wf_instr js" and safe: "\<forall>j \<in> set js. const_ok n j"
    and targets: "\<forall>j \<in> set js. \<forall>t. jump_target j = Some t \<longrightarrow> t \<in> set (starts_from 0 is)"
    using remapped_runnable [OF js ok] by blast+
  have start: "instr_start (bytes_of js) (unat t)" if t: "t \<in> set (starts_from 0 is)" for t
  proof -
    obtain pre post where p: "is = pre @ post" "post \<noteq> []" "unat t = length (bytes_of pre)"
      using starts_fromD [OF t] small by (auto simp: MAX_CODE_BYTES_def)
    then obtain pre' post' where q: "js = pre' @ post'" "list_all2 (remapped (starts_from 0 is)) pre pre'"
        "list_all2 (remapped (starts_from 0 is)) post post'"
      using js by (auto simp: list_all2_append1)
    then have "unat t = length (bytes_of pre')" "post' \<noteq> []"
      using p(2,3) remapped_lengths by auto
    then show ?thesis
      using program_start(1) [of pre' "hd post'" "tl post'"] wf q(1) by (cases post') simp_all
  qed
  have "code_ok (bytes_of js) n"
    using safe targets start unfolding code_ok_program [OF wf] by blast
  then show ?thesis
    using start small remapped_lengths [OF js] by (simp add: good_code_def)
qed

lemma bytes_of_bound: "length (bytes_of is) \<le> 10 * length is"
proof (induction "is")
  case (Cons i "is")
  then show ?case
    using encoded_len_le [of i] by (simp add: encoded_len_def)
qed simp

text \<open>The contract of \<open>int_in_range\<close>: a value of the range.\<close>

definition ranged :: "(nat \<Rightarrow> nat \<Rightarrow> 'u \<Rightarrow> (nat \<times> 'u) option) \<Rightarrow> bool" where
  "ranged f \<longleftrightarrow> (\<forall>lo hi u n u'. lo \<le> hi \<longrightarrow> f lo hi u = Some (n, u') \<longrightarrow> lo \<le> n \<and> n \<le> hi)"

definition in_ranges :: "'u entropy \<Rightarrow> bool" where
  "in_ranges E \<longleftrightarrow> ranged (range_u8 E) \<and> ranged (range_i32 E) \<and> ranged (range_usize E)"

lemma draws_ranged:
  assumes "ranged f"
  shows "draws {Refused} (\<lambda>n. n \<le> hi) (ask (f 0 hi))"
  unfolding draws_def
proof
  fix s
  have "n \<le> hi" if "f 0 hi s = Some (n, u)" for n u
    using assms that unfolding ranged_def by blast
  then show "case ask (f 0 hi) s of Inl e \<Rightarrow> e \<in> {Refused} | Inr (n, s') \<Rightarrow> n \<le> hi"
    by (auto simp: ask_def split: option.splits)
qed

lemma draws_range:
  "draws {Refused} (\<lambda>n. in_ranges E \<longrightarrow> n \<le> hi) (ask (range_i32 E 0 hi))"
  "draws {Refused} (\<lambda>n. in_ranges E \<longrightarrow> n \<le> hi) (ask (range_usize E 0 hi))"
  by (intro draws_imp draws_ranged draws_ask; simp add: in_ranges_def)+

text \<open>What \<open>drive\<close> makes of the drawn instructions.\<close>

definition linked :: "Instr list \<Rightarrow> u32 list \<Rightarrow> bytes \<Rightarrow> bool" where
  "linked is starts cd \<longleftrightarrow>
     starts = starts_from 0 (is @ [Halt]) \<and>
     (\<exists>js. list_all2 (remapped starts) (is @ [Halt]) js \<and> cd = bytes_of js)"

lemma linked_starts: "linked is starts cd \<Longrightarrow> starts \<noteq> []"
  by (cases "is") (simp_all add: linked_def)

lemma draws_link:
  "draws {Refused} (\<lambda>(cs, starts, cd). cs = consts \<and> linked is starts cd)
     (let instrs = is @ [Halt]; starts = starts_from 0 instrs in
      andthen (pure (remap_all starts instrs)) (\<lambda>instrs. yield (consts, starts, concat (map encode instrs))))"
proof -
  let ?starts = "starts_from 0 (is @ [Halt])"
  have "?starts \<noteq> []"
    by (cases "is") simp_all
  then obtain js where "remap_all ?starts (is @ [Halt]) = Inr js" "list_all2 (remapped ?starts) (is @ [Halt]) js"
    using remap_all_ok by blast
  then show ?thesis
    unfolding Let_def
    by (intro draws_andthen [OF draws_pure] draws_intros) (auto simp: linked_def)
qed

lemma draws_consts_of: "draws {Refused} (\<lambda>cs. length cs = n) (collect n (ask f))"
  by (rule draws_mono [OF draws_collect [OF draws_ask]]) auto

lemma linked_good:
  assumes "length cs \<le> 8" and "length is \<le> 48" and "linked is starts cd"
    and "list_all (\<lambda>i. wf_instr i \<and> (length cs < 2 ^ 16 \<longrightarrow> const_ok (length cs) i)) is"
  shows "good_code (length cs) starts cd"
proof -
  have "list_all (runnable (length cs)) (is @ [Halt])"
    using assms(1,4) by (simp add: list_all_iff wf_instr_def const_ok_def)
  moreover have "length (bytes_of (is @ [Halt])) \<le> MAX_CODE_BYTES"
    using assms(2) bytes_of_bound [of "is @ [Halt]"] by (simp add: MAX_CODE_BYTES_def)
  ultimately show ?thesis
    using assms(3) remapped_code by (auto simp: linked_def)
qed

text \<open>The rules say what holds of a value in any case, and what if the source keeps its ranges.\<close>

lemma draws_gen_code:
  "draws {Refused} (\<lambda>(cs, starts, cd). starts \<noteq> [] \<and>
     (in_ranges E \<longrightarrow> length cs \<le> 8 \<and> good_code (length cs) starts cd)) (gen_code E)"
  unfolding gen_code_def
proof (rule draws_andthen [OF draws_range(1)], rule draws_andthen [OF draws_consts_of],
    rule draws_andthen [OF draws_range(2)], rule draws_andthen [OF draws_collect [OF draws_gen_instr]],
    rule draws_mono [OF draws_link])
  fix k n and cs :: "u64 list" and "is" and r :: "u64 list \<times> u32 list \<times> bytes"
  assume "in_ranges E \<longrightarrow> k \<le> 8" "length cs = k" "in_ranges E \<longrightarrow> n \<le> 48"
    and "length is = n \<and> list_all (\<lambda>i. wf_instr i \<and> (length cs < 2 ^ 16 \<longrightarrow> const_ok (length cs) i)) is"
    and "case r of (cs', starts, cd) \<Rightarrow> cs' = cs \<and> linked is starts cd"
  then show "case r of (cs, starts, cd) \<Rightarrow> starts \<noteq> [] \<and>
      (in_ranges E \<longrightarrow> length cs \<le> 8 \<and> good_code (length cs) starts cd)"
    by (cases r) (clarsimp simp: linked_good linked_starts)
qed simp

lemma draws_slots: "draws {Refused} (\<lambda>slots. in_ranges E \<longrightarrow> length slots \<le> 6) (gen_slots E)"
  unfolding gen_slots_def
  by (rule draws_andthen [OF draws_range(1)], rule draws_mono [OF draws_consts_of]) auto

lemma draws_offset:
  assumes "starts \<noteq> []"
  shows "draws {Refused} (\<lambda>_. True)
    (if b then andthen (ask (any_u32 E)) (\<lambda>k. pure (index_mod starts (unat k))) else ask (any_u32 E))"
proof (rule draws_if)
  show "draws {Refused} (\<lambda>_. True) (andthen (ask (any_u32 E)) (\<lambda>k. pure (index_mod starts (unat k))))"
    by (rule draws_andthen [OF draws_ask], rule draws_mono [OF draws_index [OF assms]]) auto
qed (rule draws_ask)

lemma draws_gen_entry:
  assumes "starts \<noteq> []"
  shows "draws {Refused} (\<lambda>e. in_ranges E \<longrightarrow> declared_slots (e_access e) \<le> 24) (gen_entry E starts)"
  unfolding gen_entry_def
  by (rule draws_andthen [OF draws_ask], rule draws_andthen [OF draws_ask], rule draws_andthen [OF draws_offset [OF assms]],
      rule draws_andthen [OF draws_slots], rule draws_andthen [OF draws_slots], rule draws_andthen [OF draws_slots],
      rule draws_andthen [OF draws_slots], rule draws_yield)
    (auto simp: declared_slots_def)

text \<open>What the verifier can still find wrong with a generated container.\<close>

definition entries_fit :: "Container \<Rightarrow> bool" where
  "entries_fit c \<longleftrightarrow>
     distinct (map e_selector (c_entries c)) \<and> (\<forall>e \<in> set (c_entries c). e_offset e |\<in>| boundaries (c_code c))"

lemma draws_gen_container:
  "draws {Refused} (\<lambda>c. in_ranges E \<longrightarrow> (verify c = Inr () \<longleftrightarrow> entries_fit c)) (gen_container E)"
  unfolding gen_container_def
proof (rule draws_andthen [OF draws_gen_code], clarify, rule draws_andthen [OF draws_range(2)],
    rule draws_andthen [OF draws_collect [OF draws_gen_entry]], assumption, rule draws_yield, rule impI)
  fix cs :: "u64 list" and starts cd n and es :: "Entry list"
  assume "in_ranges E"
    and "in_ranges E \<longrightarrow> length cs \<le> 8 \<and> good_code (length cs) starts cd"
    and "in_ranges E \<longrightarrow> n \<le> 8"
    and "length es = n \<and> list_all (\<lambda>e. in_ranges E \<longrightarrow> declared_slots (e_access e) \<le> 24) es"
  then have "code_ok cd (length cs)" "length cd \<le> MAX_CODE_BYTES" "length cs \<le> 8" "length es \<le> 8"
      "\<forall>e \<in> set es. declared_slots (e_access e) \<le> 24"
    by (simp_all add: good_code_def list_all_iff)
  then show "verify (new_container cd cs es) = Inr () \<longleftrightarrow> entries_fit (new_container cd cs es)"
    using boundaries_verified [of cd "length cs"]
    by (fastforce simp: verify_iff well_formed_def entries_ok_def entries_fit_def container_limits new_container_def)
qed

text \<open>Where a call that opens has its entry: the one \<open>find\<close> gives.\<close>

lemma find_filter: "filter Q xs = [x] \<Longrightarrow> find Q xs = Some x"
  by (induction xs) (auto split: if_splits)

lemma for_entryD:
  assumes "for_entry P c sel limit = Inr s"
  obtains e where "find (\<lambda>e. e_selector e = sel) (c_entries c) = Some e" "s = entered c e limit"
    "in_limits c" "4 + 9 * length (c_code c) \<le> unat limit"
  using assms by (auto simp: for_entry_def open_entry_Inr_iff find_filter split: if_splits)

lemma call_entry_passes:
  assumes "selector P GENESIS_SIGNATURE = Inr g"
  shows "call_entry P c sel limit memory initial = Inr ()"
proof (cases "for_entry P c sel limit")
  case (Inl e)
  then have "e \<noteq> Panic"
    using assms by (auto simp: for_entry_def open_entry_def Let_def split: if_splits list.splits)
  with Inl show ?thesis
    by (cases e) (simp_all add: call_entry_def)
next
  case (Inr it)
  let ?s = "with_memory memory (with_storage initial it)"
  have host: "host_start P ?s"
    using Inr by (intro host_start.intros)
  obtain e where e: "find (\<lambda>e. e_selector e = sel) (c_entries c) = Some e" "it = entered c e limit"
      "in_limits c" "4 + 9 * length (c_code c) \<le> unat limit"
    using Inr by (rule for_entryD)
  have s: "storage ?s = initial" "meter_limit ?s = limit" "meter_used ?s = of_nat (4 + 9 * length (c_code c))"
      "manifest ?s = manifest it" "m_writes (the (manifest it)) = fset_of_list (map scalar_key (writes (e_access e)))"
      "m_keyed_writes (the (manifest it)) = fset_of_list (keyed_writes (e_access e))" "manifest it \<noteq> None"
    by (simp_all add: e(2) with_memory_def with_storage_def Let_def entered_def new_interp_def)
  have used: "4 \<le> unat (meter_used ?s)"
    using e(3) by (simp add: s(3) in_limits_def MAX_CODE_BYTES_def unsigned_of_nat take_bit_nat_eq_self del: of_nat_add of_nat_mult)
  have "check_outcome c sel limit initial out = Inr ()" if out: "run P ?s = Inr out" for out
    using host out
  proof (rule host_outcome)
    fix t
    assume c: "confined P ?s t" and g: "grows ?s t" and m: "meter_used t \<le> meter_limit t" and t: "out = outcome_of t"
    have "o_meter_used out \<le> limit" "DISPATCH \<le> o_meter_used out"
      using g m used s(2) by (auto simp: t outcome_of_def grows_defs DISPATCH_def word_le_nat_alt)
    moreover have "check_storage c sel initial out = Inr ()"
    proof -
      have "key |\<in>| fset_of_list (map scalar_key (writes (e_access e)))"
        if "keyed_writes (e_access e) = []" "fmlookup initial key \<noteq> fmlookup (o_storage out) key" for key
      proof -
        have "key |\<in>| dirty t"
          using that(2) c s(1) by (auto simp: confined_def t outcome_of_def)
        then have "can_write (the (manifest it)) key"
          using c s(4,6,7) that(1) by (fastforce simp: confined_def derived_def)
        then show ?thesis
          by (simp add: can_write_def s(5))
      qed
      then show ?thesis
        using e(1) by (auto simp: check_storage_def assert_or_def)
    qed
    ultimately show ?thesis
      by (simp add: check_outcome_def assert_or_def)
  qed
  moreover have "run P ?s \<noteq> Inl Panic"
    using host by (intro run_not_Panic host_start_fresh)
  ultimately show ?thesis
    using Inr by (auto simp: call_entry_def split: sum.splits exn.splits)
qed


lemma draws_selector: "draws {Refused} (\<lambda>_. True) (gen_selector E c)"
proof -
  have known: "draws {Refused} (\<lambda>_. True)
      (andthen (ask (any_u32 E)) (\<lambda>k. andthen (pure (index_mod es (unat k))) (\<lambda>e. yield (e_selector e))))"
    if "es \<noteq> []" for es :: "Entry list"
    using that by (intro draws_andthen [OF draws_ask] draws_andthen [OF draws_index] draws_intros) simp_all
  show ?thesis
    unfolding gen_selector_def Let_def
    by (rule draws_if, rule draws_ask, rule draws_andthen [OF draws_ask], rule draws_if, rule known, assumption,
        rule draws_ask)
qed

lemma draws_storage: "draws {Refused} (\<lambda>_. True) (gen_storage E)"
proof -
  have "draws {Refused} (\<lambda>_. True) (storage_from E n st)" for n st
  proof (induction n arbitrary: st)
    case (Suc n)
    show ?case
      unfolding storage_from.simps
      by (rule draws_andthen [OF draws_ask], rule draws_andthen [OF draws_ask], rule Suc.IH)
  qed (simp add: draws_yield)
  then show ?thesis
    unfolding gen_storage_def by (intro draws_andthen [OF draws_ask])
qed

lemma draws_drive:
  assumes "selector P GENESIS_SIGNATURE = Inr g"
  shows "draws {Refused} (\<lambda>_. True) (drive E P)"
proof -
  have "draws {Refused} (\<lambda>_. True)
      (case verify c of Inl _ \<Rightarrow> yield () | Inr _ \<Rightarrow>
         andthen (gen_selector E c) (\<lambda>sel. andthen (ask (any_u64 E)) (\<lambda>l.
           let limit = l mod (METER_CAP + 1) in
           andthen (ask (range_usize E 0 2048)) (\<lambda>mem_len.
           andthen (ask (fill_buffer E mem_len)) (\<lambda>memory.
           andthen (gen_storage E) (\<lambda>initial. pure (call_entry P c sel limit memory initial)))))))" for c
    by (cases "verify c")
      (auto simp: Let_def call_entry_passes [OF assms]
        intro!: draws_yield draws_andthen [OF draws_selector] draws_andthen [OF draws_ask] draws_andthen [OF draws_storage] draws_pure)
  then show ?thesis
    unfolding drive_def by (intro draws_andthen [OF draws_gen_container])
qed

section \<open>A worked source\<close>

text \<open>A source for the examples: the values are the bytes of a list, a range takes one byte.\<close>

fun take_byte :: "bytes \<Rightarrow> (u8 \<times> bytes) option" where
  "take_byte [] = None"
| "take_byte (b # bs) = Some (b, bs)"

definition take_bytes :: "nat \<Rightarrow> bytes \<Rightarrow> (bytes \<times> bytes) option" where
  "take_bytes n bs = (if n \<le> length bs then Some (take n bs, drop n bs) else None)"

definition take_word :: "nat \<Rightarrow> bytes \<Rightarrow> ('a::len word \<times> bytes) option" where
  "take_word n bs = map_option (\<lambda>(x, r). (from_be x, r)) (take_bytes n bs)"

definition take_range :: "nat \<Rightarrow> nat \<Rightarrow> bytes \<Rightarrow> (nat \<times> bytes) option" where
  "take_range lo hi bs = map_option (\<lambda>(b, r). (lo + unat b mod (hi - lo + 1), r)) (take_byte bs)"

definition byte_source :: "bytes entropy" where
  "byte_source =
     \<lparr>any_u8 = take_byte, any_u16 = take_word 2, any_u32 = take_word 4, any_u64 = take_word 8,
      any_bool = (\<lambda>bs. map_option (\<lambda>(b, r). (b mod 2 = 1, r)) (take_byte bs)),
      range_u8 = take_range, range_i32 = take_range, range_usize = take_range, fill_buffer = take_bytes\<rparr>"

lemma byte_source_ranges: "in_ranges byte_source"
proof -
  have "ranged take_range"
    unfolding ranged_def take_range_def
  proof (clarsimp split del: if_split)
    fix lo hi :: nat and b :: u8
    assume "lo \<le> hi"
    then have "unat b mod Suc (hi - lo) \<le> hi - lo"
      using mod_less_divisor [of "Suc (hi - lo)" "unat b"] by linarith
    then show "lo + unat b mod Suc (hi - lo) \<le> hi"
      using \<open>lo \<le> hi\<close> by linarith
  qed
  then show ?thesis
    by (simp add: in_ranges_def byte_source_def)
qed

text \<open>One constant, a jump to the constant load that follows it, and one entry at that load.\<close>

definition sample_data :: bytes where
  "sample_data =
     [1, 0, 0, 0, 0, 0, 0, 0, 9, 2, 27, 0, 0, 0, 4, 4, 3, 0, 8,
      1, 1, 2, 3, 4, 1, 0, 0, 0, 1, 0, 1, 0, 0, 0, 0, 0, 0, 0, 2, 0, 0]"

definition sample_generated :: Container where
  "sample_generated =
     \<lparr>c_code = encode (Jmp 5) @ encode (Ldc 3 0) @ encode Halt, c_consts = [9],
      c_entries = [\<lparr>e_selector = [1, 2, 3, 4], e_offset = 5,
        e_access = \<lparr>reads = [], writes = [2], keyed_reads = [], keyed_writes = []\<rparr>\<rparr>]\<rparr>"

lemma source_asks:
  "ask (any_u8 byte_source) (a # r) = Inr (a, r)"
  "ask (any_u16 byte_source) (a # b # r) = Inr (from_be [a, b], r)"
  "ask (any_u32 byte_source) (a # b # c # d # r) = Inr (from_be [a, b, c, d], r)"
  "ask (any_u64 byte_source) (a # b # c # d # e # f # g # h # r) = Inr (from_be [a, b, c, d, e, f, g, h], r)"
  "ask (any_bool byte_source) (a # r) = Inr (a mod 2 = 1, r)"
  "ask (range_u8 byte_source lo hi) (a # r) = Inr (lo + unat a mod (hi - lo + 1), r)"
  "ask (range_i32 byte_source lo hi) (a # r) = Inr (lo + unat a mod (hi - lo + 1), r)"
  "ask (range_usize byte_source lo hi) (a # r) = Inr (lo + unat a mod (hi - lo + 1), r)"
  "ask (fill_buffer byte_source 4) (a # b # c # d # r) = Inr ([a, b, c, d], r)"
  by (simp_all add: ask_def byte_source_def take_range_def take_word_def take_bytes_def)

lemma from_be_word: "from_be [a, b] = push_bit 8 (ucast a) + ucast b"
  "from_be [a, b, c, d] = push_bit 8 (push_bit 8 (push_bit 8 (ucast a) + ucast b) + ucast c) + ucast d"
  by (simp_all add: from_be_def)

lemmas gen_simps = andthen_def yield_def pure_def source_asks from_be_word

lemma sample_instrs:
  "gen_instr byte_source 1 (27 # 0 # 0 # 0 # 4 # r) = Inr (Jmp 4, r)"
  "gen_instr byte_source 1 (4 # 3 # 0 # 8 # r) = Inr (Ldc 3 0, r)"
  by (simp_all add: gen_instr_def gen_simps arm_instr_def fuzz_reg_def NUM_REGS_def)

lemma sample_gen_code:
  "gen_code byte_source sample_data = Inr (([9], [0, 5, 9], c_code sample_generated), drop 19 sample_data)"
proof -
  have "collect (Suc (Suc 0)) (gen_instr byte_source (Suc 0)) (drop 10 sample_data) = Inr ([Jmp 4, Ldc 3 0], drop 19 sample_data)"
    by (simp add: gen_simps sample_data_def sample_instrs [simplified] del: bindE_Inr_iff)
  moreover have "collect (Suc 0) (ask (any_u64 byte_source)) (drop 1 sample_data) = Inr ([9], drop 9 sample_data)"
    by (simp add: gen_simps sample_data_def from_be_def)
  moreover have "starts_from 0 [Jmp 4, Ldc 3 0, Halt] = [0, 5, 9]"
    by (simp add: saturating_add_def encoded_len_def encode_def)
  moreover have "remap_all [0, 5, 9] [Jmp 4, Ldc 3 0, Halt] = Inr [Jmp 5, Ldc 3 0, Halt]"
    by (simp add: remap_target_def index_mod_def)
  ultimately show ?thesis
    by (simp add: gen_code_def gen_simps sample_data_def sample_generated_def Let_def
        del: bindE_Inr_iff collect.simps starts_from.simps remap_all.simps)
qed

lemma sample_gen: "gen_container byte_source sample_data = Inr (sample_generated, [])"
proof -
  have "gen_entry byte_source [0, 5, 9] (drop 20 sample_data) = Inr (hd (c_entries sample_generated), [])"
    by (simp add: gen_entry_def gen_slots_def gen_simps sample_data_def sample_generated_def index_mod_def
        SELECTOR_BYTES_def from_be_def del: bindE_Inr_iff)
  then show ?thesis
    by (simp add: gen_container_def sample_gen_code gen_simps del: bindE_Inr_iff)
      (simp add: sample_data_def sample_generated_def gen_simps new_container_def)
qed

section \<open>Properties\<close>

text \<open>C35. The fuzz target never crashes: whatever the fuzzer's data gives and whatever the other
  primitives do, if the hash of the reserved signature returns, then no run panics, no index is out of
  range and the three assertions on an outcome hold, on the meter, on the dispatch and on the slots that changed.\<close>

theorem fuzz_target_passes:
  assumes "selector P GENESIS_SIGNATURE = Inr g"
  shows "fuzz_target E P u = Inr ()"
  using drawsD(2) [OF draws_drive [OF assms], of E u]
  by (cases "drive E P u") (auto simp: fuzz_target_def split: stop.splits)

lemma fuzz_target_passes_witness:
  "gen_container byte_source sample_data = Inr (sample_generated, []) \<and>
     fuzz_target byte_source sample_prims sample_data = Inr ()"
  using fuzz_target_passes [OF sample_selector] sample_gen by simp

text \<open>C37. The target tests real containers: when the source keeps its ranges, a generated
  container passes the verifier exactly if its entries have distinct selectors and
  start at instructions.  In particular its code is never what the verifier refuses.\<close>

theorem generated_containers_verify:
  assumes "in_ranges E" and "gen_container E u = Inr (c, u')"
  shows "verify c = Inr () \<longleftrightarrow>
    distinct (map e_selector (c_entries c)) \<and> (\<forall>e \<in> set (c_entries c). e_offset e |\<in>| boundaries (c_code c))"
  using drawsD(1) [OF draws_gen_container assms(2)] assms(1) by (simp add: entries_fit_def)

lemma generated_containers_verify_witness: "verify sample_generated = Inr ()"
proof -
  have "instr_start (bytes_of [Jmp 5, Ldc 3 0, Halt]) 5" "decodes (bytes_of [Jmp 5, Ldc 3 0, Halt]) 5"
    using seq_from_program [of "[Jmp 5]" "[Ldc 3 0, Halt]"] seq_program_decodes [of "[Jmp 5]" "[Ldc 3 0, Halt]"]
    by (simp_all add: instr_start_def wf_instr_def NUM_REGS_def encode_def)
  then have "5 |\<in>| boundaries (c_code sample_generated)"
    by (simp add: boundaries_iff instr_start_def sample_generated_def)
  then show ?thesis
    using generated_containers_verify [OF byte_source_ranges sample_gen] by (simp add: sample_generated_def)
qed

end
