(* ===== verification/TestRuns.thy ===== *)
theory TestRuns
  imports Samples
begin

text \<open>
  Runs by evaluation.  A run of an encoded program unfolds one instruction at a time over the
  listing of the program, so that a concrete run is a matter of simplification; \<open>run_listed\<close> is
  the rule and \<open>run_eval\<close> the facts it needs.  The unit tests of the crate are proved with it.
\<close>

section \<open>Programs by offset\<close>

text \<open>\<open>interp.rs\<close>, module \<open>tests\<close>: the code of a list of instructions.\<close>

definition program :: "Instr list \<Rightarrow> bytes" where
  "program instrs = bytes_of instrs"

fun instr_at :: "Instr list \<Rightarrow> nat \<Rightarrow> Instr option" where
  "instr_at [] p = None"
| "instr_at (i # is) p =
     (if p = 0 then Some i else if p < encoded_len i then None else instr_at is (p - encoded_len i))"

lemma instr_at_split: "instr_at is p = Some i \<Longrightarrow> \<exists>pre post. is = pre @ i # post \<and> p = length (bytes_of pre)"
proof (induction "is" arbitrary: p)
  case (Cons j "is")
  show ?case
  proof (cases "p = 0")
    case True
    then show ?thesis
      using Cons.prems by (intro exI [of _ "[]"] exI [of _ "is"]) simp
  next
    case False
    then have "encoded_len j \<le> p" and "instr_at is (p - encoded_len j) = Some i"
      using Cons.prems by (simp_all split: if_splits)
    then obtain pre post where "is = pre @ i # post" "p - encoded_len j = length (bytes_of pre)"
      using Cons.IH by blast
    then show ?thesis
      using \<open>encoded_len j \<le> p\<close> by (intro exI [of _ "j # pre"] exI [of _ post]) (simp add: encoded_len_def)
  qed
qed simp

lemma decode_program:
  assumes "list_all wf_instr is" and "instr_at is p = Some i"
  shows "decode (program is) p = Inr (i, encoded_len i)"
  using instr_at_split [OF assms(2)] assms(1) decode_encode [of i] by (auto simp: program_def)

lemma instr_at_append: "instr_at (pre @ i # post) (length (bytes_of pre)) = Some i"
  by (induction pre) (simp_all add: encoded_len_def encode_def)

lemma program_target:
  assumes "list_all wf_instr is"
  shows "t |\<in>| boundaries (program is) \<longleftrightarrow> instr_at is (unat t) \<noteq> None"
proof
  assume t: "t |\<in>| boundaries (program is)"
  then obtain pre post where "is": "is = pre @ post" "unat t = length (bytes_of pre)"
    using seq_in_program [OF assms] by (auto simp: program_def boundaries_iff)
  moreover have "post \<noteq> []"
    using t "is" by (auto simp: program_def boundaries_iff decodes_def decode_end)
  ultimately show "instr_at is (unat t) \<noteq> None"
    using instr_at_append by (auto simp: neq_Nil_conv)
next
  assume "instr_at is (unat t) \<noteq> None"
  then obtain pre i post where "is = pre @ i # post" "unat t = length (bytes_of pre)"
    using instr_at_split by blast
  then show "t |\<in>| boundaries (program is)"
    using seq_from_program [of pre "i # post"] seq_program_decodes [of pre "i # post"] assms
    by (simp add: program_def boundaries_iff)
qed

section \<open>Runs by instruction\<close>

text \<open>A turn of a run whose instruction is known.\<close>

definition turn_at :: "prims \<Rightarrow> Instr \<Rightarrow> interp \<Rightarrow> exn + (Outcome + interp)" where
  "turn_at P i s =
     bindE (charge (cost (opcode i)) s) (\<lambda>s.
     bindE (step P (s\<lparr>machine := (machine s)\<lparr>mpc := mpc (machine s) + of_nat (encoded_len i)\<rparr>\<rparr>) i) (\<lambda>(st, s).
       Inr (case st of
              Next \<Rightarrow> Inr s
            | StepHalt \<Rightarrow> Inl (outcome_of s)
            | JumpTo target \<Rightarrow> Inr (s\<lparr>machine := (machine s)\<lparr>mpc := target\<rparr>\<rparr>))))"

definition resume :: "prims \<Rightarrow> exn + (Outcome + interp) \<Rightarrow> exn + Outcome" where
  "resume P r = (case r of Inl e \<Rightarrow> Inl e | Inr (Inl out) \<Rightarrow> Inr out | Inr (Inr s) \<Rightarrow> run P s)"

lemma turn_listed:
  assumes "code s = program is" and "list_all wf_instr is" and "instr_at is (unat (mpc (machine s))) = Some i"
    and "unat (mpc (machine s)) + encoded_len i < 2 ^ 32"
  shows "turn P s = turn_at P i s"
proof -
  have "decode (code s) (unat (mpc (machine s))) = Inr (i, encoded_len i)"
    using assms(1-3) decode_program by simp
  moreover have "of_nat (unat (mpc (machine s)) + encoded_len i) = mpc (machine s) + of_nat (encoded_len i)"
    by simp
  moreover have "machine s1 = machine s" if "charge (cost (opcode i)) s = Inr s1" for s1
    using that by auto
  ultimately show ?thesis
    using assms(4)
    by (cases "charge (cost (opcode i)) s")
      (simp_all add: turn_def turn_at_def fetch_def Let_def usize_add_def del: charge_Inr_iff)
qed

lemma run_listed:
  assumes "list_all wf_instr is" and "instr_at is (unat p) = Some i" and "unat p + encoded_len i < 2 ^ 32"
  shows "run P \<lparr>code = program is, consts_pool = cs, machine = \<lparr>regs = rs, mpc = p, stack = st, mem = mm\<rparr>,
        meter_limit = ml, meter_used = mu, storage = sm, loader = lf, loaded = lm, dirty = dk, effects = es,
        effects_bytes = eb, keyed_bytes = kb, durable_targets = dt, event_records = er, manifest = mo,
        bounds = bs, keyed_authorized_reads = kr, keyed_authorized_writes = kw, fresh_charged = fc, strict = sc\<rparr> =
    resume P (turn_at P i \<lparr>code = program is, consts_pool = cs, machine = \<lparr>regs = rs, mpc = p, stack = st, mem = mm\<rparr>,
        meter_limit = ml, meter_used = mu, storage = sm, loader = lf, loaded = lm, dirty = dk, effects = es,
        effects_bytes = eb, keyed_bytes = kb, durable_targets = dt, event_records = er, manifest = mo,
        bounds = bs, keyed_authorized_reads = kr, keyed_authorized_writes = kw, fresh_charged = fc, strict = sc\<rparr>)"
  using assms by (subst run.simps) (simp add: turn_listed resume_def)

lemma run_off_end:
  assumes "length (program is) \<le> unat p"
  shows "run P \<lparr>code = program is, consts_pool = cs, machine = \<lparr>regs = rs, mpc = p, stack = st, mem = mm\<rparr>,
        meter_limit = ml, meter_used = mu, storage = sm, loader = lf, loaded = lm, dirty = dk, effects = es,
        effects_bytes = eb, keyed_bytes = kb, durable_targets = dt, event_records = er, manifest = mo,
        bounds = bs, keyed_authorized_reads = kr, keyed_authorized_writes = kw, fresh_charged = fc, strict = sc\<rparr> =
    Inl (Fault (DecodeFault Truncated))"
  using assms by (subst run.simps) (simp add: turn_def fetch_def Let_def decode_end)

lemma length_program: "length (program is) = sum_list (map encoded_len is)"
  by (induction "is") (simp_all add: program_def encoded_len_def)

text \<open>The registers and the memory of a new machine, as constants that evaluation keeps folded.\<close>

definition zeros :: "u64 list" where
  "zeros = [0, 0, 0, 0, 0, 0, 0, 0, 0, 0, 0, 0, 0, 0, 0, 0]"

definition blank :: bytes where
  "blank = replicate MEM_BYTES 0"

lemma new_machine_blank: "new_machine = \<lparr>regs = zeros, mpc = 0, stack = [], mem = blank\<rparr>"
  by (simp add: new_machine_def zeros_def blank_def NUM_REGS_def numeral_eq_Suc)

lemma encoded_lens:
  "encoded_len Halt = 1" "encoded_len Nop = 1" "encoded_len Ret = 1"
  "encoded_len (Mov d a) = 3" "encoded_len (Ldi d v) = 10" "encoded_len (Ldc d idx) = 4"
  "encoded_len (Add d a b) = 4" "encoded_len (Sub d a b) = 4" "encoded_len (Mul d a b) = 4"
  "encoded_len (Div d a b) = 4" "encoded_len (Rem d a b) = 4" "encoded_len (AddW d a b) = 4"
  "encoded_len (SubW d a b) = 4" "encoded_len (MulW d a b) = 4" "encoded_len (MulHi d a b) = 4"
  "encoded_len (DivW d a b c e f) = 7" "encoded_len (RemW d a b c e f) = 7"
  "encoded_len (And d a b) = 4" "encoded_len (Or d a b) = 4" "encoded_len (Xor d a b) = 4"
  "encoded_len (NotW d a) = 3" "encoded_len (Shl d a b) = 4" "encoded_len (Shr d a b) = 4"
  "encoded_len (Eq d a b) = 4" "encoded_len (LtU d a b) = 4" "encoded_len (GtU d a b) = 4"
  "encoded_len (Push a) = 2" "encoded_len (Pop d) = 2" "encoded_len (MLoad d a) = 3" "encoded_len (MStore a b) = 3"
  "encoded_len (Jmp t) = 5" "encoded_len (Jz a t) = 6" "encoded_len (Jnz a t) = 6" "encoded_len (Call t) = 5"
  "encoded_len (SLoad d a) = 3" "encoded_len (SStore a b) = 3" "encoded_len (Send a b c) = 4"
  "encoded_len (Emit a b c) = 4" "encoded_len (Hash a b c) = 4" "encoded_len (VerifyMl a b c) = 4"
  "encoded_len (VerifySlh a b c) = 4" "encoded_len (MerkleVerify a b c) = 4" "encoded_len (Addr a b c) = 4"
  by (simp_all add: encoded_len_def encode_def)

lemma resume_simps:
  "resume P (Inl e) = Inl e" "resume P (Inr (Inl out)) = Inr out" "resume P (Inr (Inr s)) = run P s"
  by (simp_all add: resume_def)

section \<open>Memory by regions\<close>

definition window_of :: "bytes \<Rightarrow> nat \<Rightarrow> nat \<Rightarrow> bytes" where
  "window_of m q n = take n (drop q m)"

lemma length_blank: "length blank = 65536"
  by (simp add: blank_def MEM_BYTES_def)

lemma region_blank: "q + n \<le> 65536 \<Longrightarrow> window_of blank q n = replicate n 0"
  by (simp add: window_of_def blank_def MEM_BYTES_def)

lemma region_write:
  assumes "p + length bs \<le> length m"
  shows
    "q + n \<le> p \<Longrightarrow> window_of (copy_into m p bs) q n = window_of m q n"
    "p + length bs \<le> q \<Longrightarrow> window_of (copy_into m p bs) q n = window_of m q n"
    "q = p \<Longrightarrow> n = length bs \<Longrightarrow> window_of (copy_into m p bs) q n = bs"
    "p \<le> q \<Longrightarrow> q + n \<le> p + length bs \<Longrightarrow> n < length bs \<Longrightarrow> window_of (copy_into m p bs) q n = take n (drop (q - p) bs)"
  using assms copy_into_before [OF assms] copy_into_after [OF assms] copy_into_same [OF assms]
  by (simp_all add: window_of_def) (simp add: copy_into_def drop_take min_def)

lemma mem_eval:
  assumes "length mm = 65536"
  shows
    "mem_region \<lparr>regs = rs, mpc = p, stack = st, mem = mm\<rparr> q n =
       (if unat q + unat n \<le> 65536 then Some (window_of mm (unat q) (unat n)) else None)"
    "mem_load \<lparr>regs = rs, mpc = p, stack = st, mem = mm\<rparr> q =
       (if unat q + 8 \<le> 65536 then Some (from_be (window_of mm (unat q) 8)) else None)"
    "mem_write \<lparr>regs = rs, mpc = p, stack = st, mem = mm\<rparr> q bs =
       (if unat q + length bs \<le> 65536
        then (True, \<lparr>regs = rs, mpc = p, stack = st, mem = copy_into mm (unat q) bs\<rparr>)
        else (False, \<lparr>regs = rs, mpc = p, stack = st, mem = mm\<rparr>))"
    "mem_store \<lparr>regs = rs, mpc = p, stack = st, mem = mm\<rparr> q v =
       (if unat q + 8 \<le> 65536
        then (True, \<lparr>regs = rs, mpc = p, stack = st, mem = copy_into mm (unat q) (to_be 8 v)\<rparr>)
        else (False, \<lparr>regs = rs, mpc = p, stack = st, mem = mm\<rparr>))"
  using assms
  by (auto simp: mem_region_def mem_load_def mem_write_def mem_store_def usize_add_def slice_get_def Let_def
      window_of_def WORD_BYTES_def)

lemma word_eval: "from_be (to_be 8 (v :: u64)) = v" "unat (- 1 :: u64) = 2 ^ 64 - 1"
  by (simp_all add: from_be_to_be unsigned_minus_1_eq_mask mask_eq_exp_minus_1)

lemma with_memory_eval:
  "length data \<le> 65536 \<Longrightarrow> length (mem (machine s)) = 65536 \<Longrightarrow>
     with_memory data s = s\<lparr>machine := (machine s)\<lparr>mem := copy_into (mem (machine s)) 0 data\<rparr>\<rparr>"
  by (simp add: with_memory_def Let_def)

section \<open>Evaluation\<close>

text \<open>\<open>expect\<close>, and the assertions on the value.\<close>

definition expecting :: "'e + 'a \<Rightarrow> ('a \<Rightarrow> bool) \<Rightarrow> bool" where
  "expecting r f = (case r of Inr x \<Rightarrow> f x | Inl _ \<Rightarrow> False)"

lemma expecting_simps [simp]: "expecting (Inr x) f = f x" "expecting (Inl e) f = False"
  by (simp_all add: expecting_def)

definition halts :: "prims \<Rightarrow> interp \<Rightarrow> (Outcome \<Rightarrow> bool) \<Rightarrow> bool" where
  "halts P s Q = expecting (run P s) Q"

definition faults_with :: "prims \<Rightarrow> interp \<Rightarrow> fault \<Rightarrow> bool" where
  "faults_with P s e \<longleftrightarrow> run P s = Inl (Fault e)"

lemmas run_eval = halts_def faults_with_def run_listed run_off_end length_program encoded_lens wf_instr_def NUM_REGS_def
  resume_simps turn_at_def charge_def checked_add_def step_def on_machine_def reg_def set_reg_def unary_def binary_def
  Let_def zeros_def outcome_of_def checked_sub_def checked_mul_def checked_div_def checked_rem_def
  new_interp_def new_machine_blank jump_to_def exec_jump_if_def target_ok_def program_target
  exec_push_def exec_pop_def push_or_fault_def push_def pop_def exec_call_def exec_ret_def exec_ldc_def
  exec_mload_def exec_mstore_def mem_eval length_blank STACK_LIMIT_def wide_op_def wide_def mul_hi_def
  region_write region_blank word_eval

end
