(* ===== verification/InterpTests.thy ===== *)
theory InterpTests
  imports TestRuns
begin

text \<open>
  The unit tests of \<open>interp.rs\<close> on registers, stack, memory and jumps.  Each \<open>#[test]\<close> is the predicate
  that it passes, for primitives \<open>P\<close>; the lemmas say that all of them pass for all primitives.
\<close>

section \<open>Halts, faults and the meter\<close>

definition halts_cleanly :: "prims \<Rightarrow> bool" where
  "halts_cleanly P =
     halts P (new_interp (program [Nop, Halt]) [] 100) (\<lambda>out. o_meter_used out = 1)"

definition missing_halt_faults :: "prims \<Rightarrow> bool" where
  "missing_halt_faults P =
     faults_with P (new_interp (program [Nop]) [] 100) (DecodeFault Truncated)"

definition computes_value_and_reports_meter :: "prims \<Rightarrow> bool" where
  "computes_value_and_reports_meter P =
     halts P (new_interp (program [Ldi 0 5, Ldi 1 7, Add 2 0 1, Halt]) [] 100)
       (\<lambda>out. o_regs out ! 2 = 12 \<and> o_meter_used out = 1 + 1 + 2)"

definition out_of_meter_faults :: "prims \<Rightarrow> bool" where
  "out_of_meter_faults P = faults_with P (new_interp (program [Jmp 0]) [] 10) OutOfMeter"

definition loads_from_constant_pool :: "prims \<Rightarrow> bool" where
  "loads_from_constant_pool P =
     halts P (new_interp (program [Ldc 0 1, Halt]) [10, 20] 100) (\<lambda>out. o_regs out ! 0 = 20)"

definition a_constant_index_past_the_pool_faults :: "prims \<Rightarrow> bool" where
  "a_constant_index_past_the_pool_faults P =
     faults_with P (new_interp (program [Ldc 0 3]) [7, 8] 100) BadConst"

definition jump_out_of_range_faults :: "prims \<Rightarrow> bool" where
  "jump_out_of_range_faults P = faults_with P (new_interp (program [Jmp 9999]) [] 100) BadJump"

definition clean_run_records_no_effects :: "prims \<Rightarrow> bool" where
  "clean_run_records_no_effects P =
     halts P (new_interp (program [Ldi 0 1, Halt]) [] 100) (\<lambda>out. o_effects out = [])"

definition single_entry_path_enters_at_offset_zero :: "prims \<Rightarrow> bool" where
  "single_entry_path_enters_at_offset_zero P =
     halts P (new_interp (program [Ldi 0 7, Halt]) [] 100) (\<lambda>out. o_regs out ! 0 = 7)"

lemma halting_tests:
  "halts_cleanly P" "missing_halt_faults P" "computes_value_and_reports_meter P" "out_of_meter_faults P"
  "loads_from_constant_pool P" "a_constant_index_past_the_pool_faults P" "jump_out_of_range_faults P"
  "clean_run_records_no_effects P" "single_entry_path_enters_at_offset_zero P"
  by (simp_all add: halts_cleanly_def missing_halt_faults_def computes_value_and_reports_meter_def
      out_of_meter_faults_def loads_from_constant_pool_def a_constant_index_past_the_pool_faults_def
      jump_out_of_range_faults_def clean_run_records_no_effects_def single_entry_path_enters_at_offset_zero_def run_eval)

section \<open>Arithmetic\<close>

definition divw_divides_a_full_wide_value :: "prims \<Rightarrow> bool" where
  "divw_divides_a_full_wide_value P =
     halts P (new_interp (program [Ldi 0 0, Ldi 1 1, Ldi 2 4, Ldi 3 0, DivW 4 5 0 1 2 3, Halt]) [] 100)
       (\<lambda>out. o_regs out ! 4 = push_bit 62 1 \<and> o_regs out ! 5 = 0)"

definition divw_keeps_a_quotient_that_needs_both_words :: "prims \<Rightarrow> bool" where
  "divw_keeps_a_quotient_that_needs_both_words P =
     halts P (new_interp (program [Ldi 0 0, Ldi 1 6, Ldi 2 2, Ldi 3 0, DivW 4 5 0 1 2 3, Halt]) [] 100)
       (\<lambda>out. o_regs out ! 4 = 0 \<and> o_regs out ! 5 = 3)"

definition remw_gives_the_wide_remainder :: "prims \<Rightarrow> bool" where
  "remw_gives_the_wide_remainder P =
     halts P (new_interp (program [Ldi 0 7, Ldi 1 0, Ldi 2 4, Ldi 3 0, RemW 4 5 0 1 2 3, Halt]) [] 100)
       (\<lambda>out. o_regs out ! 4 = 3 \<and> o_regs out ! 5 = 0)"

definition a_wide_divide_by_zero_faults_rather_than_wrapping :: "prims \<Rightarrow> bool" where
  "a_wide_divide_by_zero_faults_rather_than_wrapping P =
     list_all
       (\<lambda>instr. faults_with P
          (new_interp (program [Ldi 0 9, Ldi 1 0, Ldi 2 0, Ldi 3 0, instr, Halt]) [] 100) DivByZero)
       [DivW 4 5 0 1 2 3, RemW 4 5 0 1 2 3]"

definition a_wide_divide_round_trips_through_encoding :: bool where
  "a_wide_divide_round_trips_through_encoding =
     (let original = DivW 1 2 3 4 5 6; bytes = encode original in
      decode bytes 0 = Inr (original, length bytes))"

definition mulhi_gives_the_high_half :: "prims \<Rightarrow> bool" where
  "mulhi_gives_the_high_half P =
     halts P (new_interp (program [Ldi 0 (push_bit 32 1), Ldi 1 (push_bit 32 1), MulHi 2 0 1, MulW 3 0 1, Halt]) [] 100)
       (\<lambda>out. o_regs out ! 2 = 1 \<and> o_regs out ! 3 = 0)"

definition overflow_faults :: "prims \<Rightarrow> bool" where
  "overflow_faults P =
     faults_with P (new_interp (program [Ldi 0 (- 1), Ldi 1 1, Add 2 0 1, Halt]) [] 100) Overflow"

definition divide_by_zero_faults :: "prims \<Rightarrow> bool" where
  "divide_by_zero_faults P =
     faults_with P (new_interp (program [Ldi 0 10, Ldi 1 0, Div 2 0 1, Halt]) [] 100) DivByZero"

definition wrapping_add_wraps :: "prims \<Rightarrow> bool" where
  "wrapping_add_wraps P =
     halts P (new_interp (program [Ldi 0 (- 1), Ldi 1 1, AddW 2 0 1, Halt]) [] 100) (\<lambda>out. o_regs out ! 2 = 0)"

definition logic_and_shift :: "prims \<Rightarrow> bool" where
  "logic_and_shift P =
     halts P (new_interp (program [Ldi 0 0b1100, Ldi 1 0b1010, And 2 0 1, Or 3 0 1, Xor 4 0 1, Ldi 5 2,
         Shl 6 0 5, Shr 7 0 5, Halt]) [] 100)
       (\<lambda>out. o_regs out ! 2 = 0b1000 \<and> o_regs out ! 3 = 0b1110 \<and> o_regs out ! 4 = 0b0110 \<and>
         o_regs out ! 6 = 0b110000 \<and> o_regs out ! 7 = 0b11)"

definition shift_amount_is_masked :: "prims \<Rightarrow> bool" where
  "shift_amount_is_masked P =
     halts P (new_interp (program [Ldi 0 1, Ldi 1 64, Shl 2 0 1, Halt]) [] 100) (\<lambda>out. o_regs out ! 2 = 1)"

definition compare_produces_flags :: "prims \<Rightarrow> bool" where
  "compare_produces_flags P =
     halts P (new_interp (program [Ldi 0 3, Ldi 1 9, Eq 2 0 1, LtU 3 0 1, GtU 4 0 1, Halt]) [] 100)
       (\<lambda>out. o_regs out ! 2 = 0 \<and> o_regs out ! 3 = 1 \<and> o_regs out ! 4 = 0)"

lemma arithmetic_tests:
  "divw_divides_a_full_wide_value P" "divw_keeps_a_quotient_that_needs_both_words P"
  "remw_gives_the_wide_remainder P" "a_wide_divide_by_zero_faults_rather_than_wrapping P"
  "mulhi_gives_the_high_half P" "overflow_faults P"
  "divide_by_zero_faults P" "wrapping_add_wraps P" "logic_and_shift P" "shift_amount_is_masked P"
  "compare_produces_flags P"
  by (simp_all add: divw_divides_a_full_wide_value_def divw_keeps_a_quotient_that_needs_both_words_def
      remw_gives_the_wide_remainder_def a_wide_divide_by_zero_faults_rather_than_wrapping_def
      mulhi_gives_the_high_half_def overflow_faults_def
      divide_by_zero_faults_def wrapping_add_wraps_def logic_and_shift_def shift_amount_is_masked_def
      compare_produces_flags_def run_eval)

lemma wide_round_trip_test: "a_wide_divide_round_trips_through_encoding"
  using decode_encode [of "DivW 1 2 3 4 5 6" "[]" "[]"]
  by (simp add: a_wide_divide_round_trips_through_encoding_def wf_instr_def NUM_REGS_def encoded_len_def)

section \<open>Stack, memory and control\<close>

definition stack_push_pop :: "prims \<Rightarrow> bool" where
  "stack_push_pop P =
     halts P (new_interp (program [Ldi 0 77, Push 0, Pop 1, Halt]) [] 100) (\<lambda>out. o_regs out ! 1 = 77)"

definition pop_empty_faults :: "prims \<Rightarrow> bool" where
  "pop_empty_faults P = faults_with P (new_interp (program [Pop 0, Halt]) [] 100) StackUnderflow"

definition memory_store_then_load :: "prims \<Rightarrow> bool" where
  "memory_store_then_load P =
     halts P (new_interp (program [Ldi 0 16, Ldi 1 43981, MStore 0 1, MLoad 2 0, Halt]) [] 100)
       (\<lambda>out. o_regs out ! 2 = 43981)"

definition memory_out_of_bounds_faults :: "prims \<Rightarrow> bool" where
  "memory_out_of_bounds_faults P =
     faults_with P (new_interp (program [Ldi 0 (- 1), Ldi 1 1, MStore 0 1, Halt]) [] 100) BadMemory"

definition backward_branch_loop :: "prims \<Rightarrow> bool" where
  "backward_branch_loop P =
     halts P (new_interp (program [Ldi 0 3, Ldi 1 0, Ldi 2 1, SubW 0 0 2, AddW 1 1 2, Jnz 0 30, Halt]) [] 1000)
       (\<lambda>out. o_regs out ! 0 = 0 \<and> o_regs out ! 1 = 3)"

definition call_and_return :: "prims \<Rightarrow> bool" where
  "call_and_return P =
     halts P (new_interp (program [Call 6, Halt, Ldi 0 42, Ret]) [] 1000) (\<lambda>out. o_regs out ! 0 = 42)"

lemma control_tests:
  "stack_push_pop P" "pop_empty_faults P" "memory_store_then_load P" "memory_out_of_bounds_faults P"
  "backward_branch_loop P" "call_and_return P"
  by (simp_all add: stack_push_pop_def pop_empty_faults_def memory_store_then_load_def
      memory_out_of_bounds_faults_def backward_branch_loop_def call_and_return_def run_eval)

end
