(* ===== verification/AsmTests.thy ===== *)
theory AsmTests
  imports TestRuns Assembly
begin

text \<open>
  The unit tests of \<open>asm.rs\<close>, and the evaluation of sources for the tests of the interpreter that
  are written in the text syntax: \<open>parse_eval\<close> evaluates the assembler, \<open>when_assembled\<close> is its \<open>expect\<close>.
\<close>

section \<open>Sources by evaluation\<close>

text \<open>The lines of a source with newlines between them.\<close>

definition source :: "string list \<Rightarrow> string" where
  "source ls = (case ls of [] \<Rightarrow> [] | l # ls \<Rightarrow> l @ concat (map (\<lambda>l. newline # l) ls))"

definition when_assembled :: "string list \<Rightarrow> (bytes \<Rightarrow> bool) \<Rightarrow> bool" where
  "when_assembled ls f = expecting (assemble (source ls)) f"

text \<open>The listing that a source assembles to.\<close>

definition assembles_to :: "string list \<Rightarrow> Instr list \<Rightarrow> bool" where
  "assembles_to ls instrs \<longleftrightarrow> assemble (source ls) = Inr (program instrs)"

lemma assembled_listing: "assembles_to ls instrs \<Longrightarrow> when_assembled ls f \<longleftrightarrow> f (program instrs)"
  by (simp add: when_assembled_def assembles_to_def)

lemmas parse_eval = source_def assemble_def program_def logical_lines_def lines_def chomp_def strip_suffix_def trim_def
  is_whitespace_def place_labels.simps emit_code.simps Let_def parse_instr_def split_whitespace_def
  to_ascii_uppercase_def upper_def want_def target_tok_def one_target_def reg_target_def is_ascii_digit_def
  reg_tok_def num_u64_def num_u16_def parse_unsigned_def checked_mul_def checked_add_def to_digit_def
  strip_prefix_def NUM_REGS_def triple_def two_regs_def one_reg_def six_regs_def encoded_lens

section \<open>Tests\<close>

definition assembles_and_computes :: "prims \<Rightarrow> bool" where
  "assembles_and_computes P =
     when_assembled ['''', ''            LDI r0, 5'', ''            LDI r1, 7'', ''            ADD r2, r0, r1'',
         ''            HALT'', ''            '']
       (\<lambda>code. halts P (new_interp code [] 100) (\<lambda>out. o_regs out ! 2 = 12))"

definition hex_immediate :: "prims \<Rightarrow> bool" where
  "hex_immediate P =
     when_assembled [''LDI r0, 255'', ''HALT'']
       (\<lambda>code. halts P (new_interp code [] 100) (\<lambda>out. o_regs out ! 0 = 255))"

definition labels_resolve_for_loops :: "prims \<Rightarrow> bool" where
  "labels_resolve_for_loops P =
     when_assembled ['''', ''            LDI r0, 3    # counter'', ''            LDI r1, 0    # accumulator'',
         ''            LDI r2, 1'', ''            loop:'', ''            SUBW r0, r0, r2'',
         ''            ADDW r1, r1, r2'', ''            JNZ r0, loop'', ''            HALT'', ''            '']
       (\<lambda>code. halts P (new_interp code [] 1000) (\<lambda>out. o_regs out ! 1 = 3))"

definition unknown_mnemonic_errors :: bool where
  "unknown_mnemonic_errors \<longleftrightarrow> assemble ''FOO r0'' = Inl (UnknownMnemonic 1 ''FOO'')"

definition bad_register_errors :: bool where
  "bad_register_errors \<longleftrightarrow>
     assemble (source [''LDI r99, 1'', ''HALT'']) = Inl (BadRegisterAt 1 ''r99'')"

definition unknown_label_errors :: bool where
  "unknown_label_errors \<longleftrightarrow>
     assemble (source [''JMP nowhere'', ''HALT'']) = Inl (UnknownLabel 1 ''nowhere'')"

lemma asm_sources:
  "assembles_to ['''', ''            LDI r0, 5'', ''            LDI r1, 7'', ''            ADD r2, r0, r1'',
       ''            HALT'', ''            '']
     [Ldi 0 5, Ldi 1 7, Add 2 0 1, Halt]"
  "assembles_to [''LDI r0, 255'', ''HALT''] [Ldi 0 255, Halt]"
  "assembles_to ['''', ''            LDI r0, 3    # counter'', ''            LDI r1, 0    # accumulator'',
       ''            LDI r2, 1'', ''            loop:'', ''            SUBW r0, r0, r2'',
       ''            ADDW r1, r1, r2'', ''            JNZ r0, loop'', ''            HALT'', ''            '']
     [Ldi 0 3, Ldi 1 0, Ldi 2 1, SubW 0 0 2, AddW 1 1 2, Jnz 0 30, Halt]"
  by (simp_all add: assembles_to_def parse_eval)

lemma asm_run_tests: "assembles_and_computes P" "hex_immediate P" "labels_resolve_for_loops P"
  by (simp_all add: assembles_and_computes_def hex_immediate_def labels_resolve_for_loops_def
      assembled_listing [OF asm_sources(1)] assembled_listing [OF asm_sources(2)] assembled_listing [OF asm_sources(3)]
      run_eval)

lemma asm_error_tests: "unknown_mnemonic_errors" "bad_register_errors" "unknown_label_errors"
  by (simp_all add: unknown_mnemonic_errors_def bad_register_errors_def unknown_label_errors_def parse_eval)

end
