(* ===== verification/StorageTests.thy ===== *)
theory StorageTests
  imports TestRuns
begin

text \<open>
  The unit tests of \<open>interp.rs\<close> on the storage of the host, as predicates that they pass.  A run that
  faults drops its state, so what the test calls a rollback is that the host's map is untouched.
\<close>

section \<open>Slots by evaluation\<close>

lemma length_scalar_key: "length (scalar_key k) = 32"
  by (simp add: scalar_key_def STORAGE_KEY_BYTES_def del: to_be.simps)

lemmas storage_eval = run_eval with_memory_eval with_storage_def with_storage_loader_def length_scalar_key
  exec_sload_def exec_sstore_def charge_store_def fetch_slot_def read_key_def STORAGE_KEY_BYTES_def
  FREE_DIRTY_SLOTS_def fcard_finsert_if fcard_fempty

section \<open>Reads\<close>

definition reading_a_slot_never_makes_it_look_written :: "prims \<Rightarrow> bool" where
  "reading_a_slot_never_makes_it_look_written P =
     (let key = scalar_key 3;
          loader = (\<lambda>k. if k = key then 77 else 0) in
      halts P (with_storage_loader loader (with_memory key
          (new_interp (program [Ldi 0 0, SLoad 1 0, Halt]) [] 20000)))
        (\<lambda>out. o_regs out ! 1 = 77 \<and> o_dirty out = {||} \<and> o_storage out = fmempty))"

definition a_fetched_slot_is_counted_so_a_read_is_never_free :: "prims \<Rightarrow> bool" where
  "a_fetched_slot_is_counted_so_a_read_is_never_free P =
     (let key = scalar_key 7 in
      halts P (with_storage_loader (\<lambda>_. 41) (with_memory key
          (new_interp (program [Ldi 0 0, SLoad 1 0, SLoad 2 0, Halt]) [] 20000)))
        (\<lambda>out. o_fetched out = 1 \<and> o_dirty out = {||} \<and> o_storage out = fmempty))"

lemma read_tests:
  "reading_a_slot_never_makes_it_look_written P" "a_fetched_slot_is_counted_so_a_read_is_never_free P"
  by (simp_all add: reading_a_slot_never_makes_it_look_written_def
      a_fetched_slot_is_counted_so_a_read_is_never_free_def storage_eval)

section \<open>Writes\<close>

definition a_slot_is_fetched_on_demand_and_only_writes_are_reported_dirty :: "prims \<Rightarrow> bool" where
  "a_slot_is_fetched_on_demand_and_only_writes_are_reported_dirty P =
     (let key = scalar_key 7;
          loader = (\<lambda>k. if k = key then 41 else 0) in
      halts P (with_storage_loader loader (with_memory key
          (new_interp (program [Ldi 0 0, SLoad 1 0, Ldi 2 1, Add 1 1 2, SStore 0 1, Halt]) [] 20000)))
        (\<lambda>out. o_regs out ! 1 = 42 \<and> fmlookup (o_storage out) key = Some 42 \<and> key |\<in>| o_dirty out \<and>
           fcard (o_dirty out) = 1))"

definition storage_store_then_load :: "prims \<Rightarrow> bool" where
  "storage_store_then_load P =
     (let key = scalar_key 7 in
      halts P (with_memory key (new_interp (program [Ldi 0 0, Ldi 1 99, SStore 0 1, SLoad 2 0, Halt]) [] 2000))
        (\<lambda>out. o_regs out ! 2 = 99 \<and> fmlookup (o_storage out) key = Some 99))"

definition keys_differing_past_the_leading_word_do_not_share_a_slot :: "prims \<Rightarrow> bool" where
  "keys_differing_past_the_leading_word_do_not_share_a_slot P =
     (let a = (replicate 32 7)[16 := 1]; b = (replicate 32 7)[16 := 2] in
      halts P (with_memory (a @ b)
          (new_interp (program [Ldi 0 0, Ldi 1 100, SStore 0 1, Ldi 2 32, Ldi 3 200, SStore 2 3, Halt]) [] 4000))
        (\<lambda>out. fmlookup (o_storage out) a = Some 100 \<and> fmlookup (o_storage out) b = Some 200 \<and>
           fcard (fmdom (o_storage out)) = 2))"

lemma write_tests:
  "a_slot_is_fetched_on_demand_and_only_writes_are_reported_dirty P" "storage_store_then_load P"
  by (simp_all add: a_slot_is_fetched_on_demand_and_only_writes_are_reported_dirty_def
      storage_store_then_load_def storage_eval)

lemma keys_test: "keys_differing_past_the_leading_word_do_not_share_a_slot P"
proof -
  have "(replicate 32 (7 :: u8))[16 := 1] \<noteq> (replicate 32 7)[16 := 2]"
    by (auto dest: arg_cong [of _ _ "\<lambda>xs. xs ! 16"])
  then show ?thesis
    by (simp add: keys_differing_past_the_leading_word_do_not_share_a_slot_def storage_eval)
qed

section \<open>Rollback\<close>

definition fault_rolls_back_storage :: "prims \<Rightarrow> bool" where
  "fault_rolls_back_storage P =
     (let key = scalar_key 5;
          persistent = fmupd key 1 fmempty in
      faults_with P (with_memory key (with_storage persistent
          (new_interp (program [Ldi 0 0, Ldi 1 123, SStore 0 1, Ldi 2 (- 1), Ldi 3 1, Add 4 2 3, Halt]) [] 2000)))
        Overflow \<and>
      fmlookup persistent key = Some (1 :: u64))"

definition out_of_meter_rolls_back_storage :: "prims \<Rightarrow> bool" where
  "out_of_meter_rolls_back_storage P =
     (let key = scalar_key 5;
          persistent = fmupd key 1 fmempty in
      faults_with P (with_memory key (with_storage persistent
          (new_interp (program [Ldi 0 0, Ldi 1 123, SStore 0 1, Jmp 23]) [] 520)))
        OutOfMeter \<and>
      fmlookup persistent key = Some (1 :: u64))"

lemma rollback_tests: "fault_rolls_back_storage P" "out_of_meter_rolls_back_storage P"
  by (simp_all add: fault_rolls_back_storage_def out_of_meter_rolls_back_storage_def storage_eval)

end
