(* ===== verification/EffectTests.thy ===== *)
theory EffectTests
  imports AsmTests StorageTests
begin

text \<open>
  The unit tests of \<open>interp.rs\<close> on effects: transfers, events, their price by the byte and the fresh
  leaves that recipients past the first pay for.
\<close>

lemmas effect_eval = storage_eval exec_send_def exec_emit_def charge_effect_def charge_durable_target_def
  count_event_def DURABLE_TRANSFER_def DURABLE_MINT_def EFFECT_BYTE_def EVENT_BYTE_def EFFECT_RECORD_OVERHEAD_def
  EFFECTS_BYTES_CAP_def ASSET_MINT_DATA_BYTES_def FREE_EVENT_RECORDS_def EVENT_RECORD_METER_def KEYED_SLOT_METER_def

section \<open>Transfers\<close>

definition send_records_transfer_effect :: "prims \<Rightarrow> bool" where
  "send_records_transfer_effect P =
     (let account = replicate 32 171 in
      when_assembled [''LDI r0, 0'', ''LDI r1, 32'', ''LDI r2, 1000'', ''SEND r0, r1, r2'', ''HALT'']
        (\<lambda>code. halts P (with_memory account (new_interp code [] 1000))
           (\<lambda>out. o_effects out = [Transfer account 1000] \<and>
              o_meter_used out = 3 * cost OpLdi + cost OpSend + 32 * EFFECT_BYTE + cost OpHalt)))"

definition send_out_of_bounds_target_faults :: "prims \<Rightarrow> bool" where
  "send_out_of_bounds_target_faults P =
     faults_with P (new_interp (program [Ldi 0 (- 1), Ldi 1 32, Ldi 2 1, Send 0 1 2, Halt]) [] 1000) BadMemory"

lemma send_source:
  "assembles_to [''LDI r0, 0'', ''LDI r1, 32'', ''LDI r2, 1000'', ''SEND r0, r1, r2'', ''HALT'']
     [Ldi 0 0, Ldi 1 32, Ldi 2 1000, Send 0 1 2, Halt]"
  by (simp add: assembles_to_def parse_eval)

lemma send_tests: "send_records_transfer_effect P" "send_out_of_bounds_target_faults P"
  by (simp_all add: send_records_transfer_effect_def send_out_of_bounds_target_faults_def
      assembled_listing [OF send_source] effect_eval)

section \<open>Events\<close>

definition emit_records_event_effect :: "prims \<Rightarrow> bool" where
  "emit_records_event_effect P =
     (let payload = replicate 16 7; sel = (2882343476 :: u32) in
      when_assembled [''LDI r0, 0'', ''LDI r1, 16'', ''LDI r2, 2882343476'', ''EMIT r0, r1, r2'', ''HALT'']
        (\<lambda>code. halts P (with_memory payload (new_interp code [] 20000))
           (\<lambda>out. o_effects out = [Event (to_be 4 sel) payload])))"

definition emit_out_of_bounds_payload_faults :: "prims \<Rightarrow> bool" where
  "emit_out_of_bounds_payload_faults P =
     faults_with P (new_interp (program [Ldi 0 (- 1), Ldi 1 16, Ldi 2 1, Emit 0 1 2, Halt]) [] 1000) BadMemory"

definition emit_charges_per_byte_and_a_small_event_is_priced_sanely :: "prims \<Rightarrow> bool" where
  "emit_charges_per_byte_and_a_small_event_is_priced_sanely P =
     when_assembled [''LDI r0, 0'', ''LDI r1, 64'', ''LDI r2, 1'', ''EMIT r0, r1, r2'', ''HALT'']
       (\<lambda>code. halts P (with_memory (replicate 64 9) (new_interp code [] 10000))
          (\<lambda>out. length (o_effects out) = 1 \<and>
             o_meter_used out = 3 * cost OpLdi + cost OpEmit + 64 * EVENT_BYTE + cost OpHalt))"

definition emit_loop_over_full_memory_faults_at_the_effects_cap :: "prims \<Rightarrow> bool" where
  "emit_loop_over_full_memory_faults_at_the_effects_cap P =
     when_assembled [''LDI r0, 0'', ''LDI r1, 65536'', ''LDI r2, 1'', ''loop:'', ''EMIT r0, r1, r2'', ''JMP loop'', ''HALT'']
       (\<lambda>code. faults_with P (new_interp code [] (- 1)) EffectsTooLarge)"

definition emit_loop_runs_out_of_meter_at_the_proportional_cost :: "prims \<Rightarrow> bool" where
  "emit_loop_runs_out_of_meter_at_the_proportional_cost P =
     when_assembled [''LDI r0, 0'', ''LDI r1, 65536'', ''LDI r2, 1'', ''loop:'', ''EMIT r0, r1, r2'', ''JMP loop'', ''HALT'']
       (\<lambda>code. faults_with P (new_interp code [] 500000) OutOfMeter)"

definition an_over_cap_emit_surfaces_no_effects_and_rolls_back_state :: "prims \<Rightarrow> bool" where
  "an_over_cap_emit_surfaces_no_effects_and_rolls_back_state P =
     (let key = scalar_key 5;
          persistent = fmupd key 1 fmempty in
      when_assembled [''LDI r0, 0'', ''LDI r1, 123'', ''SSTORE r0, r1'', ''LDI r2, 65536'', ''LDI r3, 1'', ''loop:'',
          ''EMIT r0, r2, r3'', ''JMP loop'', ''HALT'']
        (\<lambda>code. faults_with P (with_memory key (with_storage persistent (new_interp code [] (- 1)))) EffectsTooLarge) \<and>
      fmlookup persistent key = Some (1 :: u64))"

definition send_charges_per_byte_and_is_bounded_by_the_effects_cap :: "prims \<Rightarrow> bool" where
  "send_charges_per_byte_and_is_bounded_by_the_effects_cap P =
     when_assembled [''LDI r0, 0'', ''LDI r1, 65536'', ''LDI r2, 1'', ''loop:'', ''SEND r0, r1, r2'', ''JMP loop'', ''HALT'']
       (\<lambda>code. faults_with P (new_interp code [] (- 1)) EffectsTooLarge)"

lemma event_sources:
  "assembles_to [''LDI r0, 0'', ''LDI r1, 16'', ''LDI r2, 2882343476'', ''EMIT r0, r1, r2'', ''HALT'']
     [Ldi 0 0, Ldi 1 16, Ldi 2 2882343476, Emit 0 1 2, Halt]"
  "assembles_to [''LDI r0, 0'', ''LDI r1, 64'', ''LDI r2, 1'', ''EMIT r0, r1, r2'', ''HALT'']
     [Ldi 0 0, Ldi 1 64, Ldi 2 1, Emit 0 1 2, Halt]"
  by (simp_all add: assembles_to_def parse_eval)

lemma loop_sources:
  "assembles_to [''LDI r0, 0'', ''LDI r1, 65536'', ''LDI r2, 1'', ''loop:'', ''EMIT r0, r1, r2'', ''JMP loop'', ''HALT'']
     [Ldi 0 0, Ldi 1 65536, Ldi 2 1, Emit 0 1 2, Jmp 30, Halt]"
  "assembles_to [''LDI r0, 0'', ''LDI r1, 123'', ''SSTORE r0, r1'', ''LDI r2, 65536'', ''LDI r3, 1'', ''loop:'',
       ''EMIT r0, r2, r3'', ''JMP loop'', ''HALT'']
     [Ldi 0 0, Ldi 1 123, SStore 0 1, Ldi 2 65536, Ldi 3 1, Emit 0 2 3, Jmp 43, Halt]"
  "assembles_to [''LDI r0, 0'', ''LDI r1, 65536'', ''LDI r2, 1'', ''loop:'', ''SEND r0, r1, r2'', ''JMP loop'', ''HALT'']
     [Ldi 0 0, Ldi 1 65536, Ldi 2 1, Send 0 1 2, Jmp 30, Halt]"
  by (simp_all add: assembles_to_def parse_eval)

lemma mint_selector: "to_be 4 (w :: u32) = ASSET_MINT_SELECTOR \<longleftrightarrow> w = 1296649812"
proof -
  have "to_be 4 (1296649812 :: u32) = ASSET_MINT_SELECTOR"
    by code_simp
  then show ?thesis
    using to_be_inject [of 4 w 1296649812] by (simp del: to_be.simps)
qed

lemma event_tests:
  "emit_records_event_effect P" "emit_out_of_bounds_payload_faults P"
  "emit_charges_per_byte_and_a_small_event_is_priced_sanely P"
  "emit_loop_runs_out_of_meter_at_the_proportional_cost P"
  by (simp_all add: emit_records_event_effect_def emit_out_of_bounds_payload_faults_def
      emit_charges_per_byte_and_a_small_event_is_priced_sanely_def
      emit_loop_runs_out_of_meter_at_the_proportional_cost_def assembled_listing [OF event_sources(1)]
      assembled_listing [OF event_sources(2)] assembled_listing [OF loop_sources(1)] effect_eval mint_selector
      del: to_be.simps)

lemma length_region: "q + n \<le> length m \<Longrightarrow> length (window_of m q n) = n"
  by (simp add: window_of_def)

lemmas cap_eval = effect_eval mint_selector length_region

lemma emit_cap_test: "emit_loop_over_full_memory_faults_at_the_effects_cap P"
  by (simp add: emit_loop_over_full_memory_faults_at_the_effects_cap_def assembled_listing [OF loop_sources(1)]
      cap_eval del: to_be.simps region_blank)

lemma rollback_cap_test: "an_over_cap_emit_surfaces_no_effects_and_rolls_back_state P"
  by (simp add: an_over_cap_emit_surfaces_no_effects_and_rolls_back_state_def assembled_listing [OF loop_sources(2)]
      cap_eval del: to_be.simps region_blank)

lemma send_cap_test: "send_charges_per_byte_and_is_bounded_by_the_effects_cap P"
  by (simp add: send_charges_per_byte_and_is_bounded_by_the_effects_cap_def assembled_listing [OF loop_sources(3)]
      cap_eval del: to_be.simps region_blank)

end
