(* ===== verification/ContainerTests.thy ===== *)
theory ContainerTests
  imports AsmTests Container
begin

text \<open>
  The unit tests of \<open>container.rs\<close>.  They call the hash for their selectors, so they pass for all
  primitives whose hash returns (\<open>hash_returns\<close>); the tests that two names have different selectors or
  two containers different identifiers pass where the hash has no collision on the two.
\<close>

section \<open>The primitives\<close>

definition hash_returns :: "prims \<Rightarrow> bool" where
  "hash_returns P \<longleftrightarrow> (\<forall>x. p_sha3_256 P x \<noteq> None)"

lemma selectorE:
  assumes "hash_returns P"
  obtains sel where "selector P x = Inr sel" "length sel = 4"
proof -
  obtain d where "p_sha3_256 P x = Some d"
    using assms by (auto simp: hash_returns_def)
  then show ?thesis
    using that [of "take 4 (digest_bytes d)"]
    by (simp add: selector_def sha3_256_def call_def SELECTOR_BYTES_def)
qed

definition no_access :: StateAccess where
  "no_access = \<lparr>reads = [], writes = [], keyed_reads = [], keyed_writes = []\<rparr>"

abbreviation selecting :: "prims \<Rightarrow> string \<Rightarrow> (bytes \<Rightarrow> bool) \<Rightarrow> bool" where
  "selecting P signature f \<equiv> expecting (selector P (ascii signature)) f"

section \<open>Verification by listing\<close>

lemma verify_code_listed:
  assumes "list_all wf_instr is" and "instr_at is p = Some i"
  shows "verify_code (program is) n p S T =
    bindE (verify_instr n i T) (\<lambda>T. verify_code (program is) n (p + encoded_len i) (finsert (of_nat p) S) T)"
proof -
  have "p < length (program is)"
    using decodeD(3,5) [OF decode_program [OF assms]] by linarith
  then show ?thesis
    using decode_program [OF assms] by (subst verify_code.simps) simp
qed

lemma verify_code_end: "length (program is) \<le> p \<Longrightarrow> verify_code (program is) n p S T = Inr (S, T)"
  by (subst verify_code.simps) simp

lemmas verify_eval = verify_def verify_code_listed verify_code_end verify_instr_def declared_slots_def container_limits
  length_program encoded_lens wf_instr_def NUM_REGS_def new_container_def no_access_def Let_def

section \<open>Identifiers and selectors\<close>

definition sample :: "prims \<Rightarrow> exn + Container" where
  "sample P =
     bindE (selector P (ascii ''transfer(Address,u64)'')) (\<lambda>sel.
       Inr (new_container [0, 1, 2] [10, 20]
         [\<lparr>e_selector = sel, e_offset = 0, e_access = no_access\<lparr>reads := [1], writes := [2, 3]\<rparr>\<rparr>]))"

definition identifier_is_deterministic :: "prims \<Rightarrow> bool" where
  "identifier_is_deterministic P =
     expecting (sample P) (\<lambda>a. expecting (sample P) (\<lambda>b.
       expecting (container_identifier P a) (\<lambda>x. expecting (container_identifier P b) (\<lambda>y. x = y))))"

text \<open>The three tests that a change of the container changes its identifier.\<close>

definition identifiers_differ :: "prims \<Rightarrow> (Container \<Rightarrow> Container) \<Rightarrow> bool" where
  "identifiers_differ P f =
     expecting (sample P) (\<lambda>a. expecting (sample P) (\<lambda>b. let b = f b in
       expecting (container_identifier P a) (\<lambda>x. expecting (container_identifier P b) (\<lambda>y. x \<noteq> y))))"

definition change_entry :: "(Entry \<Rightarrow> Entry) \<Rightarrow> Container \<Rightarrow> Container" where
  "change_entry f b = b\<lparr>c_entries := (c_entries b)[0 := f (c_entries b ! 0)]\<rparr>"

definition code_change_changes_identifier :: "prims \<Rightarrow> bool" where
  "code_change_changes_identifier P = identifiers_differ P (\<lambda>b. b\<lparr>c_code := c_code b @ [3]\<rparr>)"

definition manifest_change_changes_identifier :: "prims \<Rightarrow> bool" where
  "manifest_change_changes_identifier P =
     identifiers_differ P (change_entry (\<lambda>e. e\<lparr>e_access := (e_access e)\<lparr>writes := writes (e_access e) @ [9]\<rparr>\<rparr>))"

definition entry_offset_change_changes_identifier :: "prims \<Rightarrow> bool" where
  "entry_offset_change_changes_identifier P = identifiers_differ P (change_entry (\<lambda>e. e\<lparr>e_offset := 16\<rparr>))"

definition selector_is_deterministic :: "prims \<Rightarrow> bool" where
  "selector_is_deterministic P =
     (selecting P ''mint(u64)'' (\<lambda>a. selecting P ''mint(u64)'' (\<lambda>b. a = b)) \<and>
      selecting P ''mint(u64)'' (\<lambda>a. selecting P ''burn(u64)'' (\<lambda>b. a \<noteq> b)))"

definition entry_offset_resolves_by_selector :: "prims \<Rightarrow> bool" where
  "entry_offset_resolves_by_selector P =
     selecting P ''mint(u64)'' (\<lambda>mint. selecting P ''burn(u64)'' (\<lambda>burn.
       let container = new_container [] []
             [\<lparr>e_selector = mint, e_offset = 0, e_access = no_access\<rparr>,
              \<lparr>e_selector = burn, e_offset = 24, e_access = no_access\<rparr>] in
       entry_offset container mint = Some 0 \<and> entry_offset container burn = Some 24 \<and>
       selecting P ''pause()'' (\<lambda>pause. entry_offset container pause = None)))"

text \<open>The changes of the three tests, and that a hash without a collision on them tells them from the sample.\<close>

definition changes :: "(Container \<Rightarrow> Container) set" where
  "changes = {\<lambda>b. b\<lparr>c_code := c_code b @ [3]\<rparr>,
     change_entry (\<lambda>e. e\<lparr>e_access := (e_access e)\<lparr>writes := writes (e_access e) @ [9]\<rparr>\<rparr>),
     change_entry (\<lambda>e. e\<lparr>e_offset := 16\<rparr>)}"

definition no_sample_collision :: "prims \<Rightarrow> bool" where
  "no_sample_collision P \<longleftrightarrow>
     (\<forall>a f. sample P = Inr a \<longrightarrow> f \<in> changes \<longrightarrow> \<not> collision P {canonical_bytes a, canonical_bytes (f a)})"

lemma sampleE:
  assumes "hash_returns P"
  obtains a where "sample P = Inr a" "\<And>f. f \<in> changes \<Longrightarrow> container_ok a \<and> container_ok (f a) \<and> f a \<noteq> a"
proof -
  obtain sel where sel: "selector P (ascii ''transfer(Address,u64)'') = Inr sel" "length sel = 4"
    using selectorE [OF assms] .
  let ?a = "\<lparr>c_code = [0, 1, 2], c_consts = [10, 20], c_entries =
      [\<lparr>e_selector = sel, e_offset = 0, e_access = \<lparr>reads = [1], writes = [2, 3], keyed_reads = [], keyed_writes = []\<rparr>\<rparr>]\<rparr>"
  have "sample P = Inr ?a"
    using sel(1) by (simp add: sample_def new_container_def no_access_def)
  moreover have "container_ok ?a \<and> container_ok (f ?a) \<and> f ?a \<noteq> ?a" if "f \<in> changes" for f
    using that sel(2)
    by (auto simp: changes_def container_ok_def entry_ok_def access_ok_def short_def SELECTOR_BYTES_def change_entry_def)
  ultimately show ?thesis
    by (rule that)
qed

lemma identifierE:
  assumes "hash_returns P"
  obtains x where "container_identifier P c = Inr x"
proof -
  obtain d where "p_sha3_256 P (canonical_bytes c) = Some d"
    using assms by (auto simp: hash_returns_def)
  then show ?thesis
    using that [of "digest_bytes d"] by (simp add: container_identifier_def sha3_256_def call_def)
qed

lemma changed_identifiers:
  assumes "hash_returns P" and "no_sample_collision P" and "f \<in> changes"
  shows "identifiers_differ P f"
proof -
  obtain a where a: "sample P = Inr a" "container_ok a \<and> container_ok (f a) \<and> f a \<noteq> a"
    using sampleE [OF assms(1)] assms(3) by metis
  obtain x y where "container_identifier P a = Inr x" "container_identifier P (f a) = Inr y"
    using identifierE [OF assms(1)] by metis
  then show ?thesis
    using a assms(2,3) identifier_binding [of P a x "f a"]
    by (auto simp: identifiers_differ_def no_sample_collision_def Let_def)
qed

lemma identifier_tests:
  assumes "hash_returns P" and "no_sample_collision P"
  shows "identifier_is_deterministic P" "code_change_changes_identifier P"
    "manifest_change_changes_identifier P" "entry_offset_change_changes_identifier P"
proof -
  obtain a where a: "sample P = Inr a"
    using sampleE [OF assms(1)] by metis
  obtain x where "container_identifier P a = Inr x"
    using identifierE [OF assms(1)] .
  with a show "identifier_is_deterministic P"
    by (simp add: identifier_is_deterministic_def)
  show "code_change_changes_identifier P" "manifest_change_changes_identifier P"
    "entry_offset_change_changes_identifier P"
    unfolding code_change_changes_identifier_def manifest_change_changes_identifier_def
      entry_offset_change_changes_identifier_def
    using changed_identifiers [OF assms] by (simp_all add: changes_def)
qed

lemma selector_tests:
  assumes "selector P (ascii ''mint(u64)'') = Inr mint" and "selector P (ascii ''burn(u64)'') = Inr burn"
    and "selector P (ascii ''pause()'') = Inr pause" and "distinct [mint, burn, pause]"
  shows "selector_is_deterministic P" "entry_offset_resolves_by_selector P"
  using assms by (simp_all add: selector_is_deterministic_def entry_offset_resolves_by_selector_def Let_def
      entry_offset_def new_container_def)

section \<open>The verifier\<close>

definition one_entry :: "prims \<Rightarrow> bytes \<Rightarrow> u32 \<Rightarrow> exn + Container" where
  "one_entry P cd offset =
     bindE (selector P (ascii ''run()'')) (\<lambda>sel.
       Inr (new_container cd [] [\<lparr>e_selector = sel, e_offset = offset, e_access = no_access\<rparr>]))"

definition verify_accepts_a_well_formed_container :: "prims \<Rightarrow> bool" where
  "verify_accepts_a_well_formed_container P =
     when_assembled [''LDI r0, 1'', ''JMP done'', ''done:'', ''HALT'']
       (\<lambda>cd. expecting (one_entry P cd 0) (\<lambda>c. verify c = Inr ()))"

definition verify_rejects_a_jump_into_the_middle_of_an_instruction :: "prims \<Rightarrow> bool" where
  "verify_rejects_a_jump_into_the_middle_of_an_instruction P =
     when_assembled [''LDI r0, 1'', ''JMP 3'', ''HALT'']
       (\<lambda>cd. expecting (one_entry P cd 0) (\<lambda>c. verify c = Inl (MisalignedTarget 3)))"

definition verify_rejects_an_entry_offset_off_a_boundary :: "prims \<Rightarrow> bool" where
  "verify_rejects_an_entry_offset_off_a_boundary P =
     when_assembled [''LDI r0, 1'', ''HALT'']
       (\<lambda>cd. expecting (one_entry P cd 3) (\<lambda>c.
          selecting P ''run()'' (\<lambda>sel. verify c = Inl (EntryOffsetMisaligned sel))))"

definition verify_rejects_a_truncated_tail :: "prims \<Rightarrow> bool" where
  "verify_rejects_a_truncated_tail P =
     when_assembled [''LDI r0, 1'', ''HALT'']
       (\<lambda>cd. expecting (one_entry P (cd @ [op_byte OpAdd]) 0) (\<lambda>c.
          case verify c of Inl (UndecodableCode _) \<Rightarrow> True | _ \<Rightarrow> False))"

definition verify_rejects_oversize_code :: "prims \<Rightarrow> bool" where
  "verify_rejects_oversize_code P =
     expecting (one_entry P (replicate (MAX_CODE_BYTES + 1) (op_byte OpNop)) 0) (\<lambda>c. verify c = Inl CodeTooLarge)"

definition verify_rejects_an_oversize_constant_pool :: "prims \<Rightarrow> bool" where
  "verify_rejects_an_oversize_constant_pool P =
     selecting P ''run()'' (\<lambda>sel.
       verify (new_container [op_byte OpHalt] (replicate (MAX_CONSTS + 1) 0)
         [\<lparr>e_selector = sel, e_offset = 0, e_access = no_access\<rparr>]) = Inl ConstsTooLarge)"

definition verify_rejects_too_many_entries :: bool where
  "verify_rejects_too_many_entries \<longleftrightarrow>
     verify (new_container [op_byte OpHalt] []
       (map (\<lambda>i. \<lparr>e_selector = to_be 4 (of_nat i :: u32), e_offset = 0, e_access = no_access\<rparr>) [0..<MAX_ENTRIES + 1])) =
       Inl EntriesTooLarge"

definition verify_rejects_a_const_index_past_the_pool :: "prims \<Rightarrow> bool" where
  "verify_rejects_a_const_index_past_the_pool P =
     when_assembled [''LDC r0, 5'', ''HALT''] (\<lambda>cd. selecting P ''run()'' (\<lambda>sel.
       verify (new_container cd [1, 2] [\<lparr>e_selector = sel, e_offset = 0, e_access = no_access\<rparr>]) =
         Inl (ConstIndexOutOfRange 5)))"

definition verify_rejects_an_access_list_past_the_bound :: "prims \<Rightarrow> bool" where
  "verify_rejects_an_access_list_past_the_bound P =
     when_assembled [''HALT''] (\<lambda>cd. selecting P ''run()'' (\<lambda>sel.
       let over = new_container cd []
             [\<lparr>e_selector = sel, e_offset = 0, e_access = no_access\<lparr>writes := replicate (MAX_ACCESS_SLOTS + 1) 0\<rparr>\<rparr>];
           split = MAX_ACCESS_SLOTS div 4;
           over_by_sum = new_container cd []
             [\<lparr>e_selector = sel, e_offset = 0, e_access =
                \<lparr>reads = replicate (split + 1) 0, writes = replicate (split + 1) 0,
                 keyed_reads = replicate (split + 1) 0, keyed_writes = replicate (split + 1) 0\<rparr>\<rparr>] in
       verify over = Inl (AccessListTooLarge sel) \<and> verify over_by_sum = Inl (AccessListTooLarge sel)))"

definition verify_accepts_an_access_list_at_the_bound :: "prims \<Rightarrow> bool" where
  "verify_accepts_an_access_list_at_the_bound P =
     when_assembled [''HALT''] (\<lambda>cd. selecting P ''run()'' (\<lambda>sel.
       verify (new_container cd []
         [\<lparr>e_selector = sel, e_offset = 0, e_access = no_access\<lparr>writes := replicate MAX_ACCESS_SLOTS 0\<rparr>\<rparr>]) = Inr ()))"

definition verify_rejects_duplicate_selectors :: "prims \<Rightarrow> bool" where
  "verify_rejects_duplicate_selectors P =
     when_assembled [''HALT''] (\<lambda>cd. selecting P ''dup()'' (\<lambda>sel.
       verify (new_container cd []
         [\<lparr>e_selector = sel, e_offset = 0, e_access = no_access\<rparr>,
          \<lparr>e_selector = sel, e_offset = 0, e_access = no_access\<rparr>]) = Inl (DuplicateSelector sel)))"

lemma verify_sources:
  "assembles_to [''LDI r0, 1'', ''JMP done'', ''done:'', ''HALT''] [Ldi 0 1, Jmp 15, Halt]"
  "assembles_to [''LDI r0, 1'', ''JMP 3'', ''HALT''] [Ldi 0 1, Jmp 3, Halt]"
  "assembles_to [''LDI r0, 1'', ''HALT''] [Ldi 0 1, Halt]"
  "assembles_to [''LDC r0, 5'', ''HALT''] [Ldc 0 5, Halt]"
  "assembles_to [''HALT''] [Halt]"
  by (simp_all add: assembles_to_def parse_eval)

lemmas verify_listings = verify_sources [THEN assembled_listing]

lemma truncated_tail:
  "verify_code (program [Ldi 0 1, Halt] @ [16]) 0 0 {||} [] = Inl (UndecodableCode 11)"
  by (simp add: program_def) code_simp

lemma verify_tests:
  assumes "hash_returns P"
  shows "verify_accepts_a_well_formed_container P" "verify_rejects_a_jump_into_the_middle_of_an_instruction P"
    "verify_rejects_an_entry_offset_off_a_boundary P" "verify_rejects_a_truncated_tail P"
    "verify_rejects_oversize_code P" "verify_rejects_an_oversize_constant_pool P"
    "verify_rejects_too_many_entries" "verify_rejects_a_const_index_past_the_pool P"
    "verify_rejects_an_access_list_past_the_bound P" "verify_accepts_an_access_list_at_the_bound P"
    "verify_rejects_duplicate_selectors P"
proof -
  obtain run dup where "selector P (ascii ''run()'') = Inr run" "selector P (ascii ''dup()'') = Inr dup"
    using selectorE [OF assms] by metis
  note s = this and defs = one_entry_def verify_accepts_a_well_formed_container_def
    verify_rejects_a_jump_into_the_middle_of_an_instruction_def verify_rejects_an_entry_offset_off_a_boundary_def
    verify_rejects_a_truncated_tail_def verify_rejects_oversize_code_def verify_rejects_an_oversize_constant_pool_def
    verify_rejects_too_many_entries_def verify_rejects_a_const_index_past_the_pool_def
    verify_rejects_an_access_list_past_the_bound_def verify_accepts_an_access_list_at_the_bound_def
    verify_rejects_duplicate_selectors_def
  show "verify_accepts_a_well_formed_container P" "verify_rejects_a_jump_into_the_middle_of_an_instruction P"
    "verify_rejects_an_entry_offset_off_a_boundary P" "verify_rejects_a_truncated_tail P"
    "verify_rejects_oversize_code P" "verify_rejects_an_oversize_constant_pool P"
    "verify_rejects_too_many_entries" "verify_rejects_a_const_index_past_the_pool P"
    "verify_rejects_an_access_list_past_the_bound P" "verify_accepts_an_access_list_at_the_bound P"
    "verify_rejects_duplicate_selectors P"
    using s by (simp_all add: defs verify_listings truncated_tail verify_eval)
qed

end
