(* ===== verification/MeterTests.thy ===== *)
theory MeterTests
  imports Container Meter
begin

text \<open>
  The tests of the schedule: the budget and the unit tests of \<open>meter.rs\<close>, with the calibration
  constants only they use, the tests of \<open>abi.rs\<close> and the pricing tests of \<open>interp.rs\<close> that run nothing.
\<close>

section \<open>Budgets\<close>

definition LEAF_ROOT_BUDGET_MS :: u64 where "LEAF_ROOT_BUDGET_MS = 200"
definition LEAF_ROOT_MICROS :: u64 where "LEAF_ROOT_MICROS = 900"
definition BLOCK_METER_BUDGET :: u64 where "BLOCK_METER_BUDGET = 50000000"
definition BLOCK_BUDGET :: u64 where "BLOCK_BUDGET = 50000000"
definition MAX_TX_METER :: u64 where "MAX_TX_METER = 12500000"

definition a_full_block_of_fresh_leaves_roots_inside_its_budget :: bool where
  "a_full_block_of_fresh_leaves_roots_inside_its_budget =
     (let leaves = BLOCK_METER_BUDGET div KEYED_SLOT_METER; micros = leaves * LEAF_ROOT_MICROS in
      micros \<le> LEAF_ROOT_BUDGET_MS * 1000)"

definition the_crypto_opcodes_charge_at_least_the_cpu_they_burn :: bool where
  "the_crypto_opcodes_charge_at_least_the_cpu_they_burn =
     list_all (\<lambda>(name, charged, micros). let owed = micros * METER_PER_MICRO in charged \<ge> owed)
       [(''VerifyMl'', cost OpVerifyMl, VERIFY_ML_MICROS), (''VerifySlh'', cost OpVerifySlh, VERIFY_SLH_MICROS)]"

definition a_durable_event_byte_costs_what_a_code_byte_costs :: bool where
  "a_durable_event_byte_costs_what_a_code_byte_costs \<longleftrightarrow>
     (let DEPLOY_BYTE_METER = 100 in EVENT_BYTE \<ge> DEPLOY_BYTE_METER)"

definition a_full_block_of_event_records_stays_bounded :: bool where
  "a_full_block_of_event_records_stays_bounded =
     (let records = BLOCK_METER_BUDGET div EVENT_RECORD_METER in records \<le> 8192)"

definition a_dispatch_of_the_largest_contract_costs_more_than_a_slot_write :: bool where
  "a_dispatch_of_the_largest_contract_costs_more_than_a_slot_write =
     (let largest = of_nat MAX_CODE_BYTES * CODE_SCAN_PER_BYTE; per_block = BLOCK_BUDGET div largest in
      largest > KEYED_SLOT_METER \<and> per_block \<le> 128)"

definition one_transaction_cannot_buy_more_fresh_accounts_than_the_meter_pays_for :: bool where
  "one_transaction_cannot_buy_more_fresh_accounts_than_the_meter_pays_for =
     (let max_tx_meter = 50000000 div 4;
          by_meter = max_tx_meter div KEYED_SLOT_METER + 1;
          by_effects = EFFECTS_BYTES_CAP div 32 in
      by_meter < by_effects)"

definition a_whole_block_of_keyed_slots_stays_within_reach_of_the_root_recompute :: bool where
  "a_whole_block_of_keyed_slots_stays_within_reach_of_the_root_recompute =
     (let per_block = BLOCK_METER_BUDGET div KEYED_SLOT_METER in per_block \<le> 4000)"

definition a_keyed_slot_costs_more_than_the_opcode_that_writes_it :: bool where
  "a_keyed_slot_costs_more_than_the_opcode_that_writes_it \<longleftrightarrow> KEYED_SLOT_METER > cost OpSStore * 20"

lemma budget_tests:
  "a_full_block_of_fresh_leaves_roots_inside_its_budget"
  "the_crypto_opcodes_charge_at_least_the_cpu_they_burn"
  "a_durable_event_byte_costs_what_a_code_byte_costs"
  "a_full_block_of_event_records_stays_bounded"
  "a_dispatch_of_the_largest_contract_costs_more_than_a_slot_write"
  "one_transaction_cannot_buy_more_fresh_accounts_than_the_meter_pays_for"
  "a_whole_block_of_keyed_slots_stays_within_reach_of_the_root_recompute"
  "a_keyed_slot_costs_more_than_the_opcode_that_writes_it"
  by (simp_all add: a_full_block_of_fresh_leaves_roots_inside_its_budget_def
      the_crypto_opcodes_charge_at_least_the_cpu_they_burn_def
      a_durable_event_byte_costs_what_a_code_byte_costs_def a_full_block_of_event_records_stays_bounded_def
      a_dispatch_of_the_largest_contract_costs_more_than_a_slot_write_def
      one_transaction_cannot_buy_more_fresh_accounts_than_the_meter_pays_for_def
      a_whole_block_of_keyed_slots_stays_within_reach_of_the_root_recompute_def
      a_keyed_slot_costs_more_than_the_opcode_that_writes_it_def LEAF_ROOT_BUDGET_MS_def LEAF_ROOT_MICROS_def
      BLOCK_METER_BUDGET_def BLOCK_BUDGET_def MAX_CODE_BYTES_def meter_consts Let_def)

section \<open>Free instructions\<close>

definition every_opcode :: "OpCode list" where
  "every_opcode = map opcode
     [Halt, Nop, Mov 0 0, Ldi 0 0, Ldc 0 0, Add 0 0 0, Sub 0 0 0, Mul 0 0 0, Div 0 0 0, Rem 0 0 0, AddW 0 0 0,
      SubW 0 0 0, MulW 0 0 0, MulHi 0 0 0, DivW 0 0 0 0 0 0, RemW 0 0 0 0 0 0, And 0 0 0, Or 0 0 0, Xor 0 0 0,
      NotW 0 0, Shl 0 0 0, Shr 0 0 0, Eq 0 0 0, LtU 0 0 0, GtU 0 0 0, Push 0, Pop 0, MLoad 0 0, MStore 0 0,
      Jmp 0, Jz 0 0, Jnz 0 0, Call 0, Ret, SLoad 0 0, SStore 0 0, Send 0 0 0, Emit 0 0 0, Hash 0 0 0,
      VerifyMl 0 0 0, VerifySlh 0 0 0, MerkleVerify 0 0 0, Addr 0 0 0]"

primrec listed_name :: "Instr \<Rightarrow> string" where
  "listed_name Halt = ''Halt''"
| "listed_name Nop = ''Nop''"
| "listed_name (Mov d a) = ''Mov''"
| "listed_name (Ldi d imm) = ''Ldi''"
| "listed_name (Ldc d idx) = ''Ldc''"
| "listed_name (Add d a b) = ''Add''"
| "listed_name (Sub d a b) = ''Sub''"
| "listed_name (Mul d a b) = ''Mul''"
| "listed_name (Div d a b) = ''Div''"
| "listed_name (Rem d a b) = ''Rem''"
| "listed_name (AddW d a b) = ''AddW''"
| "listed_name (SubW d a b) = ''SubW''"
| "listed_name (MulW d a b) = ''MulW''"
| "listed_name (MulHi d a b) = ''MulHi''"
| "listed_name (DivW dlo dhi alo ahi blo bhi) = ''DivW''"
| "listed_name (RemW dlo dhi alo ahi blo bhi) = ''RemW''"
| "listed_name (And d a b) = ''And''"
| "listed_name (Or d a b) = ''Or''"
| "listed_name (Xor d a b) = ''Xor''"
| "listed_name (NotW d a) = ''Not''"
| "listed_name (Shl d a b) = ''Shl''"
| "listed_name (Shr d a b) = ''Shr''"
| "listed_name (Eq d a b) = ''Eq''"
| "listed_name (LtU d a b) = ''LtU''"
| "listed_name (GtU d a b) = ''GtU''"
| "listed_name (Push a) = ''Push''"
| "listed_name (Pop d) = ''Pop''"
| "listed_name (MLoad d a) = ''MLoad''"
| "listed_name (MStore a b) = ''MStore''"
| "listed_name (Jmp target) = ''Jmp''"
| "listed_name (Jz a target) = ''Jz''"
| "listed_name (Jnz a target) = ''Jnz''"
| "listed_name (Call target) = ''Call''"
| "listed_name Ret = ''Ret''"
| "listed_name (SLoad d a) = ''SLoad''"
| "listed_name (SStore a b) = ''SStore''"
| "listed_name (Send a b c) = ''Send''"
| "listed_name (Emit a b c) = ''Emit''"
| "listed_name (Hash a b c) = ''Hash''"
| "listed_name (VerifyMl a b c) = ''VerifyMl''"
| "listed_name (VerifySlh a b c) = ''VerifySlh''"
| "listed_name (MerkleVerify a b c) = ''MerkleVerify''"
| "listed_name (Addr a b c) = ''Addr''"

text \<open>The match names every instruction, so that a new one fails to compile; the name is dropped.\<close>

definition is_listed :: "Instr \<Rightarrow> bool" where
  "is_listed instr = (let name = listed_name instr in True)"

definition the_free_instruction_check_walks_every_instruction_in_the_isa :: bool where
  "the_free_instruction_check_walks_every_instruction_in_the_isa \<longleftrightarrow>
     length every_opcode = 43 \<and> is_listed Halt"

definition only_halt_is_free :: bool where
  "only_halt_is_free = list_all (\<lambda>op. if op = OpHalt then cost op = 0 else cost op \<ge> 1) every_opcode"

text \<open>The list that the test walks has every opcode, which its length only suggests.\<close>

lemma every_opcode_complete: "op \<in> set every_opcode"
  by (cases op) (simp_all add: every_opcode_def)

lemma free_tests: "the_free_instruction_check_walks_every_instruction_in_the_isa" "only_halt_is_free"
proof -
  show "the_free_instruction_check_walks_every_instruction_in_the_isa"
    by (simp add: the_free_instruction_check_walks_every_instruction_in_the_isa_def every_opcode_def is_listed_def)
  have "1 \<le> cost op" if "op \<noteq> OpHalt" for op
    using cost_pos [OF that] by (simp add: word_le_nat_alt)
  then show "only_halt_is_free"
    by (simp add: only_halt_is_free_def list_all_iff)
qed

section \<open>The helpers of the contract interface\<close>

definition scheme_identifiers_are_the_ones_the_opcodes_dispatch_on :: bool where
  "scheme_identifiers_are_the_ones_the_opcodes_dispatch_on \<longleftrightarrow> SCHEME_ML_DSA = 1 \<and> SCHEME_SLH_DSA = 2"

lemma abi_test: "scheme_identifiers_are_the_ones_the_opcodes_dispatch_on"
  by (simp add: scheme_identifiers_are_the_ones_the_opcodes_dispatch_on_def SCHEME_ML_DSA_def SCHEME_SLH_DSA_def)

end
