(* ===== verification/EntryTests.thy ===== *)
theory EntryTests
  imports EffectTests ContainerTests MeterTests
begin

text \<open>
  The unit tests of \<open>interp.rs\<close> that open an entry of a container: declared slots, maps derived from
  declared bases, control flow and dispatch.  They pass for primitives whose hash returns and gives
  the signatures they use another selector than the genesis one.
\<close>

definition single :: "bytes \<Rightarrow> bytes \<Rightarrow> StateAccess \<Rightarrow> Container" where
  "single cd sel access = new_container cd [] [\<lparr>e_selector = sel, e_offset = 0, e_access = access\<rparr>]"

text \<open>The names of the tests have selectors of their own.\<close>

definition own_selectors :: "prims \<Rightarrow> string list \<Rightarrow> bool" where
  "own_selectors P names \<longleftrightarrow>
     (\<exists>g sels. selector P GENESIS_SIGNATURE = Inr g \<and> map (\<lambda>n. selector P (ascii n)) names = map Inr sels \<and>
        distinct (g # sels))"

lemmas entry_eval = effect_eval single_def no_access_def new_container_def for_entry_def open_entry_def
  container_limits declared_slots_def DISPATCH_def CODE_SCAN_PER_BYTE_def METER_PER_MICRO_def saturating_add_def
  saturating_mul_def can_read_def can_write_def

section \<open>Declared slots\<close>

definition a_dispatched_entry_may_only_write_declared_slots :: "prims \<Rightarrow> bool" where
  "a_dispatched_entry_may_only_write_declared_slots P =
     when_assembled [''LDI r0, 0'', ''LDI r1, 55'', ''SSTORE r0, r1'', ''HALT''] (\<lambda>cd. selecting P ''store()'' (\<lambda>sel.
       let container = single cd sel (no_access\<lparr>reads := [], writes := [7]\<rparr>);
           key7 = scalar_key 7; key8 = scalar_key 8 in
       expecting (for_entry P container sel 5000) (\<lambda>s.
         halts P (with_memory key7 s) (\<lambda>out. fmlookup (o_storage out) key7 = Some 55)) \<and>
       expecting (for_entry P container sel 5000) (\<lambda>s. faults_with P (with_memory key8 s) UndeclaredSlot)))"

definition a_dispatched_entry_may_only_read_declared_slots :: "prims \<Rightarrow> bool" where
  "a_dispatched_entry_may_only_read_declared_slots P =
     when_assembled [''LDI r0, 0'', ''SLOAD r2, r0'', ''HALT''] (\<lambda>cd. selecting P ''look()'' (\<lambda>sel.
       let container = single cd sel (no_access\<lparr>reads := [7], writes := []\<rparr>);
           key7 = scalar_key 7; key8 = scalar_key 8 in
       expecting (for_entry P container sel 5000) (\<lambda>s. halts P (with_memory key7 s) (\<lambda>_. True)) \<and>
       expecting (for_entry P container sel 5000) (\<lambda>s. faults_with P (with_memory key8 s) UndeclaredSlot)))"

lemma slot_sources:
  "assembles_to [''LDI r0, 0'', ''LDI r1, 55'', ''SSTORE r0, r1'', ''HALT''] [Ldi 0 0, Ldi 1 55, SStore 0 1, Halt]"
  "assembles_to [''LDI r0, 0'', ''SLOAD r2, r0'', ''HALT''] [Ldi 0 0, SLoad 2 0, Halt]"
  by (simp_all add: assembles_to_def parse_eval)

lemma scalar_key_inject: "scalar_key a = scalar_key b \<longleftrightarrow> a = b"
proof
  assume "scalar_key a = scalar_key b"
  then have "to_be 8 a = to_be 8 b"
    by (simp add: scalar_key_def copy_into_def STORAGE_KEY_BYTES_def del: to_be.simps)
  then show "a = b"
    using to_be_inject [of 8 a b] by (simp del: to_be.simps)
qed simp

lemma slot_tests:
  assumes "own_selectors P [''store()'', ''look()'']"
  shows "a_dispatched_entry_may_only_write_declared_slots P" "a_dispatched_entry_may_only_read_declared_slots P"
proof -
  obtain g s l where s: "selector P GENESIS_SIGNATURE = Inr g" "selector P (ascii ''store()'') = Inr s"
      "selector P (ascii ''look()'') = Inr l" "s \<noteq> g" "l \<noteq> g"
    using assms by (auto simp: own_selectors_def)
  then show "a_dispatched_entry_may_only_write_declared_slots P" "a_dispatched_entry_may_only_read_declared_slots P"
    by (simp_all add: a_dispatched_entry_may_only_write_declared_slots_def
        a_dispatched_entry_may_only_read_declared_slots_def slot_sources [THEN assembled_listing]
        entry_eval scalar_key_inject)
qed

section \<open>Derived slots\<close>

lemmas keyed_eval = entry_eval exec_hash_def hash_def run_crypto_def sha3_256_def call_def write_or_fault_def
  taint_keyed_from_hash_def record_keyed_def charge_keyed_def retain_keyed_def KEYED_READ_METER_def
  KEYED_READ_MICROS_def hash_variable_def keccak_blocks_def KECCAK_RATE_def HASH_BLOCK_def

definition keyed_memory :: "u64 \<Rightarrow> bytes" where
  "keyed_memory base = to_be 8 base @ to_be 8 (0x00ABCDEF :: u64)"

definition a_declared_map_base_authorises_its_whole_keyspace :: "prims \<Rightarrow> bool" where
  "a_declared_map_base_authorises_its_whole_keyspace P =
     (let base = push_bit 40 1; memory = keyed_memory base in
      expecting (sha3_256 P memory) (\<lambda>want.
      when_assembled [''LDI r0, 0'', ''LDI r1, 16'', ''LDI r2, 64'', ''HASH r0, r1, r2'', ''LDI r3, 64'', ''LDI r4, 99'',
          ''SSTORE r3, r4'', ''HALT''] (\<lambda>cd. selecting P ''credit()'' (\<lambda>sel.
        let container = single cd sel (no_access\<lparr>keyed_writes := [base]\<rparr>) in
        expecting (for_entry P container sel (KEYED_SLOT_METER * 4)) (\<lambda>s.
          halts P (with_memory memory s) (\<lambda>out. fmlookup (o_storage out) want = Some 99))))))"

definition keyed_base_binds_to_the_preimage_even_when_the_digest_overwrites_it :: "prims \<Rightarrow> bool" where
  "keyed_base_binds_to_the_preimage_even_when_the_digest_overwrites_it P =
     (let base = push_bit 40 1; memory = keyed_memory base in
      expecting (sha3_256 P memory) (\<lambda>want. take 8 want \<noteq> to_be 8 base \<and>
      when_assembled [''LDI r0, 0'', ''LDI r1, 16'', ''LDI r2, 0'', ''HASH r0, r1, r2'', ''LDI r4, 99'', ''SSTORE r0, r4'',
          ''HALT''] (\<lambda>cd. selecting P ''credit()'' (\<lambda>sel.
        let container = single cd sel (no_access\<lparr>keyed_writes := [base]\<rparr>) in
        expecting (for_entry P container sel (KEYED_SLOT_METER * 4)) (\<lambda>s.
          halts P (with_memory memory s) (\<lambda>out. fmlookup (o_storage out) want = Some 99))))))"

definition an_undeclared_map_still_faults_on_a_keyed_write :: "prims \<Rightarrow> bool" where
  "an_undeclared_map_still_faults_on_a_keyed_write P =
     (let written = push_bit 40 1; declared = push_bit 40 1 + push_bit 32 1; memory = keyed_memory written in
      when_assembled [''LDI r0, 0'', ''LDI r1, 16'', ''LDI r2, 64'', ''HASH r0, r1, r2'', ''LDI r3, 64'', ''LDI r4, 99'',
          ''SSTORE r3, r4'', ''HALT''] (\<lambda>cd. selecting P ''credit()'' (\<lambda>sel.
        let container = single cd sel (no_access\<lparr>keyed_writes := [declared]\<rparr>) in
        expecting (for_entry P container sel 50000) (\<lambda>s. faults_with P (with_memory memory s) UndeclaredSlot))))"

lemma keyed_sources:
  "assembles_to [''LDI r0, 0'', ''LDI r1, 16'', ''LDI r2, 64'', ''HASH r0, r1, r2'', ''LDI r3, 64'', ''LDI r4, 99'',
       ''SSTORE r3, r4'', ''HALT'']
     [Ldi 0 0, Ldi 1 16, Ldi 2 64, Hash 0 1 2, Ldi 3 64, Ldi 4 99, SStore 3 4, Halt]"
  "assembles_to [''LDI r0, 0'', ''LDI r1, 16'', ''LDI r2, 0'', ''HASH r0, r1, r2'', ''LDI r4, 99'', ''SSTORE r0, r4'',
       ''HALT'']
     [Ldi 0 0, Ldi 1 16, Ldi 2 0, Hash 0 1 2, Ldi 4 99, SStore 0 4, Halt]"
  by (simp_all add: assembles_to_def parse_eval)

lemma keyed_region:
  "length (keyed_memory base) = 16" "take 8 (keyed_memory base) = to_be 8 base"
  by (simp_all add: keyed_memory_def del: to_be.simps)

lemma keyed_tests:
  assumes "own_selectors P [''credit()'']" and "p_sha3_256 P (keyed_memory (push_bit 40 1)) = Some d"
  shows "a_declared_map_base_authorises_its_whole_keyspace P" "an_undeclared_map_still_faults_on_a_keyed_write P"
    "take 8 (digest_bytes d) \<noteq> to_be 8 (push_bit 40 1 :: u64) \<Longrightarrow>
       keyed_base_binds_to_the_preimage_even_when_the_digest_overwrites_it P"
proof -
  obtain g s where s: "selector P GENESIS_SIGNATURE = Inr g" "selector P (ascii ''credit()'') = Inr s" "s \<noteq> g"
    using assms(1) by (auto simp: own_selectors_def)
  then show "a_declared_map_base_authorises_its_whole_keyspace P" "an_undeclared_map_still_faults_on_a_keyed_write P"
    "take 8 (digest_bytes d) \<noteq> to_be 8 (push_bit 40 1 :: u64) \<Longrightarrow>
       keyed_base_binds_to_the_preimage_even_when_the_digest_overwrites_it P"
    using assms(2)
    by (simp_all add: a_declared_map_base_authorises_its_whole_keyspace_def
        an_undeclared_map_still_faults_on_a_keyed_write_def
        keyed_base_binds_to_the_preimage_even_when_the_digest_overwrites_it_def
        keyed_sources [THEN assembled_listing] keyed_eval keyed_region del: to_be.simps)
qed

section \<open>Control flow and dispatch\<close>

definition a_computed_jump_off_a_boundary_faults_under_dispatch :: "prims \<Rightarrow> bool" where
  "a_computed_jump_off_a_boundary_faults_under_dispatch P =
     when_assembled [''LDI r0, 3'', ''PUSH r0'', ''RET''] (\<lambda>cd. selecting P ''jump()'' (\<lambda>sel.
       expecting (for_entry P (single cd sel no_access) sel 5000) (\<lambda>s. faults_with P s BadJump)))"

definition a_call_and_return_between_boundaries_still_runs_under_dispatch :: "prims \<Rightarrow> bool" where
  "a_call_and_return_between_boundaries_still_runs_under_dispatch P =
     when_assembled [''CALL fn'', ''HALT'', ''fn:'', ''LDI r0, 9'', ''RET''] (\<lambda>cd. selecting P ''go()'' (\<lambda>sel.
       expecting (for_entry P (single cd sel no_access) sel 5000) (\<lambda>s. halts P s (\<lambda>out. o_regs out ! 0 = 9))))"

definition two_entry_container :: "prims \<Rightarrow> exn + Container \<times> bytes \<times> bytes" where
  "two_entry_container P =
     (let first = program [Ldi 0 111, Halt]; second = program [Ldi 0 222, Halt];
          offset = of_nat (length first); cd = first @ second in
      bindE (selector P (ascii ''alpha()'')) (\<lambda>alpha. bindE (selector P (ascii ''beta()'')) (\<lambda>beta.
        Inr (new_container cd []
            [\<lparr>e_selector = alpha, e_offset = 0, e_access = no_access\<rparr>,
             \<lparr>e_selector = beta, e_offset = offset, e_access = no_access\<rparr>], alpha, beta))))"

definition dispatch_enters_entry_named_by_selector :: "prims \<Rightarrow> bool" where
  "dispatch_enters_entry_named_by_selector P =
     expecting (two_entry_container P) (\<lambda>(container, alpha, beta).
       expecting (for_entry P container alpha 1000) (\<lambda>s. halts P s (\<lambda>a. o_regs a ! 0 = 111)) \<and>
       expecting (for_entry P container beta 1000) (\<lambda>s. halts P s (\<lambda>b. o_regs b ! 0 = 222 \<and>
         o_meter_used b =
           DISPATCH + of_nat (length (c_code container)) * CODE_SCAN_PER_BYTE + cost OpLdi + cost OpHalt)))"

definition unknown_selector_reverts :: "prims \<Rightarrow> bool" where
  "unknown_selector_reverts P =
     expecting (two_entry_container P) (\<lambda>(container, _, _). selecting P ''missing()'' (\<lambda>missing.
       for_entry P container missing 1000 = Inl (Fault UnknownSelector)))"

definition dispatch_over_the_limit_runs_out_of_meter :: "prims \<Rightarrow> bool" where
  "dispatch_over_the_limit_runs_out_of_meter P =
     expecting (two_entry_container P) (\<lambda>(container, alpha, _).
       for_entry P container alpha (DISPATCH - 1) = Inl (Fault OutOfMeter))"

lemma control_sources:
  "assembles_to [''LDI r0, 3'', ''PUSH r0'', ''RET''] [Ldi 0 3, Push 0, Ret]"
  "assembles_to [''CALL fn'', ''HALT'', ''fn:'', ''LDI r0, 9'', ''RET''] [Call 6, Halt, Ldi 0 9, Ret]"
  by (simp_all add: assembles_to_def parse_eval)

lemma control_flow_tests:
  assumes "own_selectors P [''jump()'', ''go()'']"
  shows "a_computed_jump_off_a_boundary_faults_under_dispatch P"
    "a_call_and_return_between_boundaries_still_runs_under_dispatch P"
proof -
  obtain g j s where "selector P GENESIS_SIGNATURE = Inr g" "selector P (ascii ''jump()'') = Inr j"
      "selector P (ascii ''go()'') = Inr s" "j \<noteq> g" "s \<noteq> g"
    using assms by (auto simp: own_selectors_def)
  then show "a_computed_jump_off_a_boundary_faults_under_dispatch P"
    "a_call_and_return_between_boundaries_still_runs_under_dispatch P"
    by (simp_all add: a_computed_jump_off_a_boundary_faults_under_dispatch_def
        a_call_and_return_between_boundaries_still_runs_under_dispatch_def
        control_sources [THEN assembled_listing] entry_eval)
qed

lemma two_programs: "program xs @ program ys = program (xs @ ys)"
  by (simp add: program_def)

lemma dispatch_tests:
  assumes "own_selectors P [''alpha()'', ''beta()'', ''missing()'']"
  shows "dispatch_enters_entry_named_by_selector P" "unknown_selector_reverts P"
    "dispatch_over_the_limit_runs_out_of_meter P"
proof -
  obtain g a b m where "selector P GENESIS_SIGNATURE = Inr g" "selector P (ascii ''alpha()'') = Inr a"
      "selector P (ascii ''beta()'') = Inr b" "selector P (ascii ''missing()'') = Inr m" "distinct [g, a, b, m]" "distinct [m, b, a, g]"
    using assms by (auto simp: own_selectors_def)
  then show "dispatch_enters_entry_named_by_selector P" "unknown_selector_reverts P"
    "dispatch_over_the_limit_runs_out_of_meter P"
    by (simp_all add: dispatch_enters_entry_named_by_selector_def unknown_selector_reverts_def
        dispatch_over_the_limit_runs_out_of_meter_def two_entry_container_def two_programs entry_eval)
qed

section \<open>Prices of derived slots\<close>

text \<open>\<open>keyed_call\<close>, whose \<open>legacy\<close> runs under the rules before: it hands its outcome to the assertions.\<close>

definition keyed_call :: "prims \<Rightarrow> string list \<Rightarrow> bool \<Rightarrow> u64 \<Rightarrow> bool \<Rightarrow> (Outcome \<Rightarrow> bool) \<Rightarrow> bool" where
  "keyed_call P prog is_read held legacy Q =
     (let base = push_bit 40 1 in
      when_assembled prog (\<lambda>cd. selecting P ''touch()'' (\<lambda>sel.
        let access = (if is_read then no_access\<lparr>keyed_reads := [base]\<rparr> else no_access\<lparr>keyed_writes := [base]\<rparr>);
            container = single cd sel access in
        expecting (for_entry P container sel MAX_TX_METER) (\<lambda>s.
          let s = with_memory (to_be 8 base) (with_storage_loader (\<lambda>_. held) s) in
          if legacy then halts P (with_legacy_rules s) Q else halts P s Q))))"

definition READ_ROW :: "string list" where
  "READ_ROW = [''LDI r0, 0'', ''LDI r1, 16'', ''LDI r2, 64'', ''HASH r0, r1, r2'', ''SLOAD r3, r2'', ''HALT'']"

definition WRITE_ROW :: "string list" where
  "WRITE_ROW = [''LDI r0, 0'', ''LDI r1, 16'', ''LDI r2, 64'', ''HASH r0, r1, r2'', ''LDI r3, 5'', ''SSTORE r2, r3'',
     ''SSTORE r2, r3'', ''HALT'']"

definition reading_an_existing_keyed_row_is_priced_as_a_read :: "prims \<Rightarrow> bool" where
  "reading_an_existing_keyed_row_is_priced_as_a_read P \<longleftrightarrow>
     keyed_call P READ_ROW True 7 False (\<lambda>read. o_regs read ! 3 = 7 \<and> o_meter_used read < KEYED_SLOT_METER) \<and>
     keyed_call P READ_ROW True 7 True (\<lambda>legacy. o_meter_used legacy \<ge> KEYED_SLOT_METER)"

definition a_fresh_keyed_row_pays_the_leaf_price_once_and_an_existing_row_does_not :: "prims \<Rightarrow> bool" where
  "a_fresh_keyed_row_pays_the_leaf_price_once_and_an_existing_row_does_not P \<longleftrightarrow>
     keyed_call P WRITE_ROW False 0 False
       (\<lambda>fresh. o_meter_used fresh \<ge> KEYED_SLOT_METER \<and> o_meter_used fresh < 2 * KEYED_SLOT_METER) \<and>
     keyed_call P WRITE_ROW False 9 False (\<lambda>existing. o_meter_used existing < KEYED_SLOT_METER)"

lemma row_sources:
  "assembles_to READ_ROW [Ldi 0 0, Ldi 1 16, Ldi 2 64, Hash 0 1 2, SLoad 3 2, Halt]"
  "assembles_to WRITE_ROW [Ldi 0 0, Ldi 1 16, Ldi 2 64, Hash 0 1 2, Ldi 3 5, SStore 2 3, SStore 2 3, Halt]"
  by (simp_all add: READ_ROW_def WRITE_ROW_def assembles_to_def parse_eval)

lemma row_tests:
  assumes "own_selectors P [''touch()'']" and "hash_returns P"
  shows "reading_an_existing_keyed_row_is_priced_as_a_read P"
    "a_fresh_keyed_row_pays_the_leaf_price_once_and_an_existing_row_does_not P"
proof -
  obtain g s where s: "selector P GENESIS_SIGNATURE = Inr g" "selector P (ascii ''touch()'') = Inr s" "s \<noteq> g"
    using assms(1) by (auto simp: own_selectors_def)
  let ?m = "copy_into blank 0 (to_be 8 (push_bit 40 1 :: u64))"
  obtain d where d: "p_sha3_256 P (window_of ?m 0 16) = Some d"
    using assms(2) by (auto simp: hash_returns_def)
  show "reading_an_existing_keyed_row_is_priced_as_a_read P"
    "a_fresh_keyed_row_pays_the_leaf_price_once_and_an_existing_row_does_not P"
    using s d by (simp_all add: reading_an_existing_keyed_row_is_priced_as_a_read_def
        a_fresh_keyed_row_pays_the_leaf_price_once_and_an_existing_row_does_not_def keyed_call_def
        with_legacy_rules_def MAX_TX_METER_def row_sources [THEN assembled_listing] keyed_eval del: to_be.simps)
qed

section \<open>Rules\<close>

definition an_event_selector_wider_than_four_bytes_faults_under_current_rules :: "prims \<Rightarrow> bool" where
  "an_event_selector_wider_than_four_bytes_faults_under_current_rules P =
     when_assembled [''LDI r0, 0'', ''LDI r1, 8'', ''LDI r2, 4294967297'', ''EMIT r0, r1, r2'', ''HALT''] (\<lambda>cd.
       faults_with P (for_unchecked_program cd [] 1000000) Malformed \<and>
       halts P (with_legacy_rules (for_unchecked_program cd [] 1000000)) (\<lambda>legacy. length (o_effects legacy) = 1))"

definition the_genesis_entry_opens_only_through_for_genesis_and_duplicate_selectors_are_refused :: "prims \<Rightarrow> bool" where
  "the_genesis_entry_opens_only_through_for_genesis_and_duplicate_selectors_are_refused P =
     when_assembled [''HALT''] (\<lambda>cd. expecting (selector P GENESIS_SIGNATURE) (\<lambda>genesis. selecting P ''run()'' (\<lambda>run_sel.
       let container = new_container cd []
             [\<lparr>e_selector = genesis, e_offset = 0, e_access = no_access\<rparr>,
              \<lparr>e_selector = run_sel, e_offset = 0, e_access = no_access\<rparr>];
           doubled = new_container cd []
             [\<lparr>e_selector = run_sel, e_offset = 0, e_access = no_access\<rparr>,
              \<lparr>e_selector = run_sel, e_offset = 0, e_access = no_access\<rparr>] in
       for_entry P container genesis 1000 = Inl (Fault UnknownSelector) \<and>
       expecting (for_genesis P container 1000) (\<lambda>_. True) \<and>
       expecting (for_entry P container run_sel 1000) (\<lambda>_. True) \<and>
       for_entry P doubled run_sel 1000 = Inl (Fault Malformed))))"

lemma wide_event_source:
  "assembles_to [''LDI r0, 0'', ''LDI r1, 8'', ''LDI r2, 4294967297'', ''EMIT r0, r1, r2'', ''HALT'']
     [Ldi 0 0, Ldi 1 8, Ldi 2 4294967297, Emit 0 1 2, Halt]"
  by (simp add: assembles_to_def parse_eval)

lemma wide_event_test: "an_event_selector_wider_than_four_bytes_faults_under_current_rules P"
  by (simp add: an_event_selector_wider_than_four_bytes_faults_under_current_rules_def for_unchecked_program_def
      with_legacy_rules_def assembled_listing [OF wide_event_source] effect_eval mint_selector del: to_be.simps)

lemma genesis_test:
  assumes "own_selectors P [''run()'']"
  shows "the_genesis_entry_opens_only_through_for_genesis_and_duplicate_selectors_are_refused P"
proof -
  obtain g r where "selector P GENESIS_SIGNATURE = Inr g" "selector P (ascii ''run()'') = Inr r" "r \<noteq> g" "g \<noteq> r"
    using assms by (auto simp: own_selectors_def)
  then show ?thesis
    by (simp add: the_genesis_entry_opens_only_through_for_genesis_and_duplicate_selectors_are_refused_def
        verify_sources(5) [THEN assembled_listing] for_genesis_def entry_eval)
qed

end
