(* ===== verification/PriceTests.thy ===== *)
theory PriceTests
  imports EffectTests
begin

text \<open>
  The pricing tests of \<open>interp.rs\<close> on the recipients of transfers and mints: the first durable target
  of a run is free, every further one pays for a fresh leaf.
\<close>

definition a_single_recipient_is_not_charged_a_fresh_leaf :: "prims \<Rightarrow> bool" where
  "a_single_recipient_is_not_charged_a_fresh_leaf P =
     when_assembled [''LDI r0, 0'', ''LDI r1, 32'', ''LDI r2, 5'', ''SEND r0, r1, r2'', ''HALT'']
       (\<lambda>cd. halts P (with_memory (replicate 32 9) (new_interp cd [] 1000))
          (\<lambda>out. o_meter_used out < KEYED_SLOT_METER))"

definition a_second_distinct_recipient_pays_a_fresh_leaf :: "prims \<Rightarrow> bool" where
  "a_second_distinct_recipient_pays_a_fresh_leaf P =
     when_assembled [''LDI r0, 0'', ''LDI r1, 32'', ''LDI r2, 5'', ''SEND r0, r1, r2'',
         ''             LDI r0, 32'', ''SEND r0, r1, r2'', ''HALT'']
       (\<lambda>cd. halts P (with_memory (replicate 32 9 @ replicate 32 11) (new_interp cd [] (KEYED_SLOT_METER + 1000)))
          (\<lambda>out. o_meter_used out > KEYED_SLOT_METER \<and> length (o_effects out) = 2))"

text \<open>The selector of a mint as a number, which the sources print: 1296649812.\<close>

definition a_minted_holder_past_the_first_pays_a_fresh_leaf :: "prims \<Rightarrow> bool" where
  "a_minted_holder_past_the_first_pays_a_fresh_leaf P =
     when_assembled [''LDI r0, 0'', ''LDI r1, 40'', ''LDI r2, 1296649812'', ''EMIT r0, r1, r2'',
         ''             LDI r0, 40'', ''EMIT r0, r1, r2'', ''HALT'']
       (\<lambda>cd. halts P (with_memory (replicate 40 3 @ replicate 40 4) (new_interp cd [] (KEYED_SLOT_METER * 2)))
          (\<lambda>out. o_meter_used out > KEYED_SLOT_METER))"

definition a_send_and_a_mint_to_one_id_each_pay_for_their_own_leaf :: "prims \<Rightarrow> bool" where
  "a_send_and_a_mint_to_one_id_each_pay_for_their_own_leaf P =
     when_assembled [''LDI r0, 0'', ''LDI r1, 32'', ''LDI r2, 7'', ''SEND r0, r1, r2'', ''LDI r1, 40'',
         ''LDI r2, 1296649812'', ''EMIT r0, r1, r2'', ''HALT'']
       (\<lambda>cd. halts P (with_memory (replicate 32 5 @ replicate 8 0) (new_interp cd [] (KEYED_SLOT_METER * 3)))
          (\<lambda>out. o_meter_used out > KEYED_SLOT_METER))"

definition repaying_the_same_recipient_is_charged_once :: "prims \<Rightarrow> bool" where
  "repaying_the_same_recipient_is_charged_once P =
     when_assembled [''LDI r0, 0'', ''LDI r1, 32'', ''LDI r2, 5'', ''SEND r0, r1, r2'', ''SEND r0, r1, r2'', ''HALT'']
       (\<lambda>cd. halts P (with_memory (replicate 32 9) (new_interp cd [] 1000)) (\<lambda>out. length (o_effects out) = 2))"

lemma mint_number: "from_be ASSET_MINT_SELECTOR = (1296649812 :: u32)"
  by (simp add: ASSET_MINT_SELECTOR_def from_be_def push_bit_eq_mult)

lemma send_sources:
  "assembles_to [''LDI r0, 0'', ''LDI r1, 32'', ''LDI r2, 5'', ''SEND r0, r1, r2'', ''HALT'']
     [Ldi 0 0, Ldi 1 32, Ldi 2 5, Send 0 1 2, Halt]"
  "assembles_to [''LDI r0, 0'', ''LDI r1, 32'', ''LDI r2, 5'', ''SEND r0, r1, r2'',
       ''             LDI r0, 32'', ''SEND r0, r1, r2'', ''HALT'']
     [Ldi 0 0, Ldi 1 32, Ldi 2 5, Send 0 1 2, Ldi 0 32, Send 0 1 2, Halt]"
  "assembles_to [''LDI r0, 0'', ''LDI r1, 32'', ''LDI r2, 5'', ''SEND r0, r1, r2'', ''SEND r0, r1, r2'', ''HALT'']
     [Ldi 0 0, Ldi 1 32, Ldi 2 5, Send 0 1 2, Send 0 1 2, Halt]"
  by (simp_all add: assembles_to_def parse_eval)

lemma mint_sources:
  "assembles_to [''LDI r0, 0'', ''LDI r1, 40'', ''LDI r2, 1296649812'', ''EMIT r0, r1, r2'',
       ''             LDI r0, 40'', ''EMIT r0, r1, r2'', ''HALT'']
     [Ldi 0 0, Ldi 1 40, Ldi 2 1296649812, Emit 0 1 2, Ldi 0 40, Emit 0 1 2, Halt]"
  "assembles_to [''LDI r0, 0'', ''LDI r1, 32'', ''LDI r2, 7'', ''SEND r0, r1, r2'', ''LDI r1, 40'',
       ''LDI r2, 1296649812'', ''EMIT r0, r1, r2'', ''HALT'']
     [Ldi 0 0, Ldi 1 32, Ldi 2 7, Send 0 1 2, Ldi 1 40, Ldi 2 1296649812, Emit 0 1 2, Halt]"
  by (simp_all add: assembles_to_def parse_eval)

lemma distinct_arrays:
  "replicate 32 (9 :: u8) \<noteq> replicate 32 11" "take 32 (replicate 40 (3 :: u8)) \<noteq> take 32 (replicate 40 4)"
  by (auto dest: arg_cong [of _ _ hd])

lemma price_tests:
  "a_single_recipient_is_not_charged_a_fresh_leaf P" "a_second_distinct_recipient_pays_a_fresh_leaf P"
  "a_minted_holder_past_the_first_pays_a_fresh_leaf P"
  "a_send_and_a_mint_to_one_id_each_pay_for_their_own_leaf P"
  "repaying_the_same_recipient_is_charged_once P"
  using distinct_arrays
  by (simp_all add: a_single_recipient_is_not_charged_a_fresh_leaf_def
      a_second_distinct_recipient_pays_a_fresh_leaf_def a_minted_holder_past_the_first_pays_a_fresh_leaf_def
      a_send_and_a_mint_to_one_id_each_pay_for_their_own_leaf_def repaying_the_same_recipient_is_charged_once_def
      send_sources [THEN assembled_listing] mint_sources [THEN assembled_listing] effect_eval mint_selector
      del: to_be.simps)

end
