(* ===== verification/CryptoTests.thy ===== *)
theory CryptoTests
  imports EffectTests ContainerTests
begin

text \<open>
  The unit tests of \<open>crypto.rs\<close> and the tests of \<open>interp.rs\<close> on the cryptographic opcodes.  Keys and
  signatures come from the external crate, so a test takes the key, the signature or the digests it
  uses; the lemmas assume of them what the crate documents: their sizes, that a signature verifies
  under its key and message, and that a tampered one does not.
\<close>

section \<open>Machines\<close>

text \<open>A new machine with bytes written at an offset, and registers set in turn.\<close>

definition machine_with :: "bytes \<Rightarrow> u64 \<Rightarrow> exn + machine" where
  "machine_with bs at = (case mem_write new_machine at bs of (True, m) \<Rightarrow> Inr m | (False, _) \<Rightarrow> Inl Panic)"

fun set_regs :: "(Reg \<times> u64) list \<Rightarrow> machine \<Rightarrow> exn + machine" where
  "set_regs [] m = Inr m"
| "set_regs ((r, v) # rvs) m = bindE (set_reg m r v) (\<lambda>m. set_regs rvs m)"

lemmas machine_eval = machine_with_def new_machine_blank zeros_def set_reg_def reg_def mem_eval length_blank
  region_write region_blank word_eval Let_def sha3_256_def call_def write_or_fault_def SCHEME_ML_DSA_def SCHEME_SLH_DSA_def

lemma digest_ex: "hash_returns P \<Longrightarrow> \<exists>d. p_sha3_256 P x = Some d"
  by (simp add: hash_returns_def)

section \<open>Hash\<close>

definition hash_reproduces_the_crypto_crate_digest :: "prims \<Rightarrow> bool" where
  "hash_reproduces_the_crypto_crate_digest P =
     (let input = ascii ''quantova hash opcode over a region'' in
      expecting (bindE (machine_with input 0) (set_regs [(0, 0), (1, of_nat (length input)), (2, 4096)])) (\<lambda>m.
        expecting (hash P m 0 1 2) (\<lambda>m. expecting (sha3_256 P input) (\<lambda>want.
          mem_region m 4096 32 = Some want))))"

definition hash_of_empty_region_is_defined :: "prims \<Rightarrow> bool" where
  "hash_of_empty_region_is_defined P =
     expecting (set_regs [(0, 0), (1, 0), (2, 0)] new_machine) (\<lambda>m.
       expecting (hash P m 0 1 2) (\<lambda>m. expecting (sha3_256 P []) (\<lambda>want. mem_region m 0 32 = Some want)))"

definition hash_rejects_out_of_bounds_output :: "prims \<Rightarrow> bool" where
  "hash_rejects_out_of_bounds_output P =
     expecting (set_regs [(0, 0), (1, 8), (2, - 1)] new_machine) (\<lambda>m. hash P m 0 1 2 = Inl (Fault BadMemory))"

lemma hash_tests:
  assumes "hash_returns P"
  shows "hash_reproduces_the_crypto_crate_digest P" "hash_of_empty_region_is_defined P"
    "hash_rejects_out_of_bounds_output P"
proof -
  let ?in = "ascii ''quantova hash opcode over a region''"
  obtain d e f where d: "p_sha3_256 P ?in = Some d" "p_sha3_256 P [] = Some e"
      "p_sha3_256 P (replicate 8 0) = Some f"
    using digest_ex [OF assms] by metis
  have "length ?in = 34"
    by (simp add: ascii_def)
  with d(1) show "hash_reproduces_the_crypto_crate_digest P"
    by (simp add: hash_reproduces_the_crypto_crate_digest_def hash_def machine_eval)
  show "hash_of_empty_region_is_defined P"
    using d(2) by (simp add: hash_of_empty_region_is_defined_def hash_def machine_eval)
  show "hash_rejects_out_of_bounds_output P"
    using d(3) by (simp add: hash_rejects_out_of_bounds_output_def hash_def machine_eval)
qed

section \<open>Addresses\<close>

definition expected_address :: "prims \<Rightarrow> u8 \<Rightarrow> bytes \<Rightarrow> exn + bytes" where
  "expected_address P scheme public_key = sha3_256 P (scheme # public_key)"

definition address_matches_the_account_model_for_ml_dsa :: "prims \<Rightarrow> bytes \<Rightarrow> bool" where
  "address_matches_the_account_model_for_ml_dsa P pk =
     (let region = pk @ ascii ''signature and message follow the key'' in
      expecting (bindE (machine_with region 0) (set_regs [(0, 0), (1, SCHEME_ML_DSA), (2, 40000)])) (\<lambda>m.
        expecting (address P m 0 1 2) (\<lambda>m. expecting (expected_address P 1 pk) (\<lambda>want.
          mem_region m 40000 32 = Some want))))"

definition address_matches_the_account_model_for_slh_dsa :: "prims \<Rightarrow> bytes \<Rightarrow> bool" where
  "address_matches_the_account_model_for_slh_dsa P pk =
     expecting (bindE (machine_with pk 0) (set_regs [(0, 0), (1, SCHEME_SLH_DSA), (2, 40000)])) (\<lambda>m.
       expecting (address P m 0 1 2) (\<lambda>m. expecting (expected_address P 2 pk) (\<lambda>want.
         mem_region m 40000 32 = Some want)))"

definition derive :: "prims \<Rightarrow> bytes \<Rightarrow> exn + bytes" where
  "derive P pk =
     bindE (machine_with pk 0) (\<lambda>m. bindE (set_regs [(0, 0), (1, SCHEME_ML_DSA), (2, 40000)] m) (\<lambda>m.
     bindE (address P m 0 1 2) (\<lambda>m. ok_or (mem_region m 40000 32) BadMemory)))"

definition a_different_public_key_derives_a_different_address :: "prims \<Rightarrow> bytes \<Rightarrow> bytes \<Rightarrow> bool" where
  "a_different_public_key_derives_a_different_address P pk_a pk_b =
     expecting (derive P pk_a) (\<lambda>a. expecting (derive P pk_b) (\<lambda>b. a \<noteq> b))"

definition an_unknown_scheme_faults :: "prims \<Rightarrow> bytes \<Rightarrow> bool" where
  "an_unknown_scheme_faults P pk =
     expecting (bindE (machine_with pk 0) (set_regs [(0, 0), (1, 3), (2, 40000)])) (\<lambda>m.
       address P m 0 1 2 = Inl (Fault BadScheme))"

definition a_region_too_short_for_the_public_key_faults :: "prims \<Rightarrow> bool" where
  "a_region_too_short_for_the_public_key_faults P =
     expecting (set_regs [(0, 0), (1, SCHEME_ML_DSA), (2, 40000), (0, of_nat (MEM_BYTES - 16))] new_machine) (\<lambda>m.
       address P m 0 1 2 = Inl (Fault BadMemory))"

text \<open>The sizes of keys and signatures: more than sixteen bytes, and room for all of a call in the memory.\<close>

definition sizes_ok :: "prims \<Rightarrow> bool" where
  "sizes_ok P \<longleftrightarrow>
     16 < p_ml_pk_bytes P \<and> p_ml_pk_bytes P < 32768 \<and> 16 < p_slh_pk_bytes P \<and> p_slh_pk_bytes P < 32768 \<and>
     p_ml_pk_bytes P + p_ml_sig_bytes P < 32768 \<and> p_slh_pk_bytes P + p_slh_sig_bytes P < 65000 \<and>
     16 < p_ml_sig_bytes P \<and> 64 < p_slh_pk_bytes P + p_slh_sig_bytes P"

lemma unat_size: "n < 65536 \<Longrightarrow> unat (of_nat n :: u64) = n"
  by (simp add: unsigned_of_nat take_bit_nat_eq_self)

lemma derives:
  assumes "length pk = p_ml_pk_bytes P" and "sizes_ok P" and "p_sha3_256 P (1 # pk) = Some d"
  shows "derive P pk = Inr (digest_bytes d)"
  using assms by (simp add: derive_def address_def machine_eval sizes_ok_def unat_size)

lemma address_tests:
  assumes "hash_returns P" and "sizes_ok P"
  shows "length pk = p_ml_pk_bytes P \<Longrightarrow> address_matches_the_account_model_for_ml_dsa P pk"
    "length spk = p_slh_pk_bytes P \<Longrightarrow> address_matches_the_account_model_for_slh_dsa P spk"
    "length pk_a = p_ml_pk_bytes P \<Longrightarrow> length pk_b = p_ml_pk_bytes P \<Longrightarrow>
       p_sha3_256 P (1 # pk_a) \<noteq> p_sha3_256 P (1 # pk_b) \<Longrightarrow>
       a_different_public_key_derives_a_different_address P pk_a pk_b"
    "length pk = p_ml_pk_bytes P \<Longrightarrow> an_unknown_scheme_faults P pk"
    "a_region_too_short_for_the_public_key_faults P"
proof -
  note s = assms(2) [unfolded sizes_ok_def]
  show "address_matches_the_account_model_for_ml_dsa P pk" if "length pk = p_ml_pk_bytes P"
  proof -
    obtain d where d: "p_sha3_256 P (1 # pk) = Some d"
      using digest_ex [OF assms(1)] by metis
    have "length (ascii ''signature and message follow the key'') = 36"
      by (simp add: ascii_def)
    then show ?thesis
      using that s d by (simp add: address_matches_the_account_model_for_ml_dsa_def address_def expected_address_def
          machine_eval unat_size)
  qed
  show "address_matches_the_account_model_for_slh_dsa P spk" if "length spk = p_slh_pk_bytes P"
  proof -
    obtain d where d: "p_sha3_256 P (2 # spk) = Some d"
      using digest_ex [OF assms(1)] by metis
    then show ?thesis
      using that s by (simp add: address_matches_the_account_model_for_slh_dsa_def address_def expected_address_def
          machine_eval unat_size)
  qed
  show "a_different_public_key_derives_a_different_address P pk_a pk_b"
    if k: "length pk_a = p_ml_pk_bytes P" "length pk_b = p_ml_pk_bytes P"
      "p_sha3_256 P (1 # pk_a) \<noteq> p_sha3_256 P (1 # pk_b)"
  proof -
    obtain a b where "p_sha3_256 P (1 # pk_a) = Some a" "p_sha3_256 P (1 # pk_b) = Some b"
      using digest_ex [OF assms(1)] by metis
    then show ?thesis
      using k derives assms(2) by (simp add: a_different_public_key_derives_a_different_address_def)
  qed
  show "an_unknown_scheme_faults P pk" if "length pk = p_ml_pk_bytes P"
    using that s by (simp add: an_unknown_scheme_faults_def address_def machine_eval)
  show "a_region_too_short_for_the_public_key_faults P"
    using s by (simp add: a_region_too_short_for_the_public_key_faults_def address_def machine_eval MEM_BYTES_def unat_size)
qed

section \<open>Signatures\<close>

definition load_region :: "bytes list \<Rightarrow> exn + machine" where
  "load_region parts =
     (let region = concat parts in
      bindE (machine_with region 0) (set_regs [(0, 0), (1, of_nat (length region))]))"

definition flip_first :: "bytes \<Rightarrow> bytes" where
  "flip_first bs = bs[0 := bs ! 0 XOR 1]"

definition verify_ml_accepts_valid_and_rejects_tampered :: "prims \<Rightarrow> bytes \<Rightarrow> bytes \<Rightarrow> bool" where
  "verify_ml_accepts_valid_and_rejects_tampered P pk sig =
     (let msg = ascii ''quantova ml-dsa verify opcode'' in
      expecting (load_region [pk, sig, msg]) (\<lambda>m. expecting (verify_ml P m 0 1 2) (\<lambda>m. reg m 2 = Inr 1)) \<and>
      expecting (load_region [pk, flip_first sig, msg]) (\<lambda>m.
        expecting (verify_ml P m 0 1 2) (\<lambda>m. reg m 2 = Inr 0)))"

definition verify_ml_rejects_short_region :: "prims \<Rightarrow> bool" where
  "verify_ml_rejects_short_region P =
     expecting (set_regs [(0, 0), (1, 16)] new_machine) (\<lambda>m. verify_ml P m 0 1 2 = Inl (Fault BadMemory))"

definition verify_slh_accepts_valid_and_rejects_tampered :: "prims \<Rightarrow> bytes \<Rightarrow> bytes \<Rightarrow> bool" where
  "verify_slh_accepts_valid_and_rejects_tampered P pk sig =
     (let msg = ascii ''quantova slh-dsa verify opcode'' in
      expecting (load_region [pk, sig, msg]) (\<lambda>m. expecting (verify_slh P m 0 1 2) (\<lambda>m. reg m 2 = Inr 1)) \<and>
      expecting (load_region [pk, flip_first sig, msg]) (\<lambda>m.
        expecting (verify_slh P m 0 1 2) (\<lambda>m. reg m 2 = Inr 0)))"

definition verify_slh_rejects_short_region :: "prims \<Rightarrow> bool" where
  "verify_slh_rejects_short_region P =
     expecting (set_regs [(0, 0), (1, 64)] new_machine) (\<lambda>m. verify_slh P m 0 1 2 = Inl (Fault BadMemory))"

lemma length_flip [simp]: "length (flip_first bs) = length bs"
  by (simp add: flip_first_def)

lemma load_region_eval:
  "length (concat parts) \<le> 65536 \<Longrightarrow>
     load_region parts = Inr (new_machine\<lparr>mem := copy_into blank 0 (concat parts),
       regs := zeros[0 := 0, 1 := of_nat (length (concat parts))]\<rparr>)"
  unfolding load_region_def machine_with_def new_machine_blank
  by (simp add: mem_eval length_blank Let_def set_reg_def zeros_def)

text \<open>The region of a call whose key, signature and message lie at its start.\<close>

lemma verify_ml_loaded:
  assumes "length pk = p_ml_pk_bytes P" and "length sig = p_ml_sig_bytes P" and "sizes_ok P" and "length msg < 100"
    and "p_ml_degenerate P pk = Some False" and "p_ml_verify P pk msg sig VM_VERIFY_CONTEXT = Some b"
  shows "expecting (load_region [pk, sig, msg]) (\<lambda>m. expecting (verify_ml P m 0 1 2) (\<lambda>m. reg m 2 = Inr (of_bool b)))"
  using assms
  by (simp add: sizes_ok_def load_region_eval verify_ml_def reg_def set_reg_def zeros_def new_machine_blank mem_eval
      length_blank unat_size region_write call_def Let_def del: of_nat_add)

lemma verify_slh_loaded:
  assumes "length pk = p_slh_pk_bytes P" and "length sig = p_slh_sig_bytes P" and "sizes_ok P" and "length msg < 100"
    and "p_slh_verify P pk msg sig VM_VERIFY_CONTEXT = Some b"
  shows "expecting (load_region [pk, sig, msg]) (\<lambda>m. expecting (verify_slh P m 0 1 2) (\<lambda>m. reg m 2 = Inr (of_bool b)))"
  using assms
  by (simp add: sizes_ok_def load_region_eval verify_slh_def reg_def set_reg_def zeros_def new_machine_blank mem_eval
      length_blank unat_size region_write call_def Let_def del: of_nat_add)

lemma verify_ml_tests:
  assumes "sizes_ok P" and "length pk = p_ml_pk_bytes P" and "length sig = p_ml_sig_bytes P"
    and "p_ml_degenerate P pk = Some False"
    and "p_ml_verify P pk (ascii ''quantova ml-dsa verify opcode'') sig VM_VERIFY_CONTEXT = Some True"
    and "p_ml_verify P pk (ascii ''quantova ml-dsa verify opcode'') (flip_first sig) VM_VERIFY_CONTEXT = Some False"
  shows "verify_ml_accepts_valid_and_rejects_tampered P pk sig" "verify_ml_rejects_short_region P"
proof -
  have "length (ascii ''quantova ml-dsa verify opcode'') < 100"
    by (simp add: ascii_def)
  then show "verify_ml_accepts_valid_and_rejects_tampered P pk sig"
    using verify_ml_loaded [OF assms(2,3,1) _ assms(4,5)]
      verify_ml_loaded [of pk P "flip_first sig", OF assms(2) _ assms(1) _ assms(4,6)] assms(3)
    by (simp add: verify_ml_accepts_valid_and_rejects_tampered_def Let_def)
  show "verify_ml_rejects_short_region P"
    using assms(1) by (simp add: sizes_ok_def verify_ml_rejects_short_region_def verify_ml_def machine_eval)
qed

lemma verify_slh_tests:
  assumes "sizes_ok P" and "length pk = p_slh_pk_bytes P" and "length sig = p_slh_sig_bytes P"
    and "p_slh_verify P pk (ascii ''quantova slh-dsa verify opcode'') sig VM_VERIFY_CONTEXT = Some True"
    and "p_slh_verify P pk (ascii ''quantova slh-dsa verify opcode'') (flip_first sig) VM_VERIFY_CONTEXT = Some False"
  shows "verify_slh_accepts_valid_and_rejects_tampered P pk sig" "verify_slh_rejects_short_region P"
proof -
  have "length (ascii ''quantova slh-dsa verify opcode'') < 100"
    by (simp add: ascii_def)
  then show "verify_slh_accepts_valid_and_rejects_tampered P pk sig"
    using verify_slh_loaded [OF assms(2,3,1) _ assms(4)]
      verify_slh_loaded [of pk P "flip_first sig", OF assms(2) _ assms(1) _ assms(5)] assms(3)
    by (simp add: verify_slh_accepts_valid_and_rejects_tampered_def Let_def)
  show "verify_slh_rejects_short_region P"
    using assms(1) by (simp add: sizes_ok_def verify_slh_rejects_short_region_def verify_slh_def machine_eval)
qed

end
