(* ===== verification/OpcodeTests.thy ===== *)
theory OpcodeTests
  imports CryptoTests
begin

text \<open>
  The tests of Merkle paths in \<open>crypto.rs\<close> and \<open>interp.rs\<close>, and the tests of \<open>interp.rs\<close> that run a
  cryptographic opcode and check its result against the external hash and its price.
\<close>

section \<open>A hash that returns\<close>

text \<open>The digest of a hash that returns, so that the digests of a test are terms.\<close>

definition digest_of :: "prims \<Rightarrow> bytes \<Rightarrow> bytes" where
  "digest_of P x = digest_bytes (the (p_sha3_256 P x))"

lemma digest_of_eval: "hash_returns P \<Longrightarrow> sha3_256 P x = Inr (digest_of P x)"
  using digest_ex [of P x] by (auto simp: digest_of_def sha3_256_def call_def)

lemma length_digest_of [simp]: "length (digest_of P x) = 32"
  by (simp add: digest_of_def)

lemma digest_of_nonempty [simp]: "digest_of P x \<noteq> []"
  using length_digest_of [of P x] by force

lemma flip_first_append: "bs \<noteq> [] \<Longrightarrow> flip_first (bs @ r) = flip_first bs @ r"
  by (cases bs) (simp_all add: flip_first_def)

lemma flip_first_changes: "bs \<noteq> [] \<Longrightarrow> flip_first bs \<noteq> bs"
proof -
  have "b XOR 1 \<noteq> b" for b :: u8
  proof
    assume "b XOR 1 = b"
    then have "b XOR (b XOR 1) = b XOR b"
      by simp
    then show False
      by (simp flip: xor.assoc)
  qed
  then show "bs \<noteq> [] \<Longrightarrow> flip_first bs \<noteq> bs"
    by (cases bs) (simp_all add: flip_first_def)
qed

section \<open>Merkle paths\<close>

text \<open>The tree of four leaves of the tests: the data, the tagged leaves, the two nodes and the root.\<close>

record tree4 =
  t_data :: "bytes list"
  t_tagged :: "bytes list"
  t_p01 :: bytes
  t_p23 :: bytes
  t_root :: bytes

definition four_leaves :: "prims \<Rightarrow> exn + tree4" where
  "four_leaves P =
     bindE (sha3_256 P [0]) (\<lambda>d0. bindE (sha3_256 P [1]) (\<lambda>d1.
     bindE (sha3_256 P [2]) (\<lambda>d2. bindE (sha3_256 P [3]) (\<lambda>d3.
     bindE (merkle_leaf P d0) (\<lambda>t0. bindE (merkle_leaf P d1) (\<lambda>t1.
     bindE (merkle_leaf P d2) (\<lambda>t2. bindE (merkle_leaf P d3) (\<lambda>t3.
     bindE (merkle_node P t0 t1) (\<lambda>p01. bindE (merkle_node P t2 t3) (\<lambda>p23.
     bindE (merkle_node P p01 p23) (\<lambda>root.
       Inr \<lparr>t_data = [d0, d1, d2, d3], t_tagged = [t0, t1, t2, t3], t_p01 = p01, t_p23 = p23, t_root = root\<rparr>)))))))))))"

definition merkle_region :: "bytes \<Rightarrow> u64 \<Rightarrow> bytes \<Rightarrow> bytes list \<Rightarrow> bytes" where
  "merkle_region root index leaf path = root @ to_be 8 index @ leaf @ concat path"

text \<open>The verdict of the opcode on a region at the start of the memory.\<close>

definition merkle_verdict :: "prims \<Rightarrow> bytes \<Rightarrow> (u64 \<Rightarrow> bool) \<Rightarrow> bool" where
  "merkle_verdict P bs Q =
     expecting (bindE (machine_with bs 0) (set_regs [(0, 0), (1, of_nat (length bs))])) (\<lambda>m.
       expecting (merkle_verify P m 0 1 2 True) (\<lambda>m. expecting (reg m 2) Q))"

definition merkle_verify_accepts_valid_and_rejects_tampered :: "prims \<Rightarrow> bool" where
  "merkle_verify_accepts_valid_and_rejects_tampered P =
     expecting (four_leaves P) (\<lambda>t.
       let region = merkle_region (t_root t) 2 (t_data t ! 2) [t_tagged t ! 3, t_p01 t] in
       merkle_verdict P region (\<lambda>v. v = 1) \<and> merkle_verdict P (flip_first region) (\<lambda>v. v = 0))"

definition merkle_verify_rejects_misshaped_region :: "prims \<Rightarrow> bool" where
  "merkle_verify_rejects_misshaped_region P =
     expecting (set_regs [(0, 0), (1, 2 * 32 + 8 + 5)] new_machine) (\<lambda>m.
       merkle_verify P m 0 1 2 True = Inl (Fault BadMemory) \<and>
       expecting (set_reg m 1 8) (\<lambda>m. merkle_verify P m 0 1 2 True = Inl (Fault BadMemory)))"

definition merkle_verify_rejects_a_zero_length_path :: "prims \<Rightarrow> bool" where
  "merkle_verify_rejects_a_zero_length_path P =
     expecting (sha3_256 P (ascii ''a committed root'')) (\<lambda>root.
       merkle_verdict P (merkle_region root 0 root []) (\<lambda>v. v = 0))"

abbreviation leaf_of :: "prims \<Rightarrow> bytes \<Rightarrow> bytes" where
  "leaf_of P d \<equiv> digest_of P (0 # d)"

abbreviation node_of :: "prims \<Rightarrow> bytes \<Rightarrow> bytes \<Rightarrow> bytes" where
  "node_of P l r \<equiv> digest_of P (1 # l @ r)"

definition tree_of :: "prims \<Rightarrow> bytes \<Rightarrow> bytes \<Rightarrow> bytes \<Rightarrow> bytes \<Rightarrow> tree4" where
  "tree_of P d0 d1 d2 d3 =
     (let p01 = node_of P (leaf_of P d0) (leaf_of P d1); p23 = node_of P (leaf_of P d2) (leaf_of P d3) in
      \<lparr>t_data = [d0, d1, d2, d3], t_tagged = map (leaf_of P) [d0, d1, d2, d3], t_p01 = p01, t_p23 = p23,
       t_root = node_of P p01 p23\<rparr>)"

lemmas tagged_hashes = merkle_leaf_def merkle_node_def MERKLE_LEAF_TAG_def MERKLE_NODE_TAG_def

lemma four_leaves_eval:
  assumes "hash_returns P"
  obtains d0 d1 d2 d3 where "four_leaves P = Inr (tree_of P d0 d1 d2 d3)" "length d2 = 32"
  using digest_of_eval [OF assms]
  by (intro that [of "digest_of P [0]" "digest_of P [1]" "digest_of P [2]" "digest_of P [3]"])
    (simp_all add: four_leaves_def tree_of_def tagged_hashes Let_def)

lemma chunks_two: "length a = 32 \<Longrightarrow> length b = 32 \<Longrightarrow> chunks32 (a @ b) = [a, b]"
  by (simp add: chunks32.simps)

text \<open>The verdict on a region of at least the header, by the decision on its parts.\<close>

lemma merkle_verdict_eval:
  assumes "length root = 32" and "length leaf = 32" and "length path \<le> 1024" and "length path mod 32 = 0"
    and "merkle_check P root index leaf path True = Inr b"
  shows "merkle_verdict P (root @ to_be 8 index @ leaf @ path) Q \<longleftrightarrow> Q (of_bool b)"
  using assms
  by (simp add: merkle_verdict_def merkle_verify_def machine_with_def new_machine_blank mem_eval length_blank unat_size
      region_write zeros_def reg_def set_reg_def Let_def word_eval del: of_nat_add to_be.simps)

text \<open>The path of the third leaf proves its own index and root, and no index past the depth of the path.\<close>

lemma third_leaf:
  assumes "hash_returns P"
  shows "merkle_check P root 2 d (leaf_of P e @ node_of P x y) True =
      Inr (node_of P (node_of P x y) (node_of P (leaf_of P d) (leaf_of P e)) = root)"
    and "drop_bit 2 index \<noteq> 0 \<Longrightarrow> merkle_check P root index d (leaf_of P e @ node_of P x y) True = Inr False"
  using digest_of_eval [OF assms] by (simp_all add: merkle_check_def chunks_two tagged_hashes drop_bit_eq_div Let_def)

lemma merkle_tests:
  assumes "hash_returns P"
  shows "merkle_verify_accepts_valid_and_rejects_tampered P" "merkle_verify_rejects_misshaped_region P"
    "merkle_verify_rejects_a_zero_length_path P"
proof -
  obtain d0 d1 d2 d3 where t: "four_leaves P = Inr (tree_of P d0 d1 d2 d3)" "length d2 = 32"
    using four_leaves_eval [OF assms] .
  have "digest_of P x \<noteq> flip_first (digest_of P x)" for x
    using flip_first_changes [of "digest_of P x"] by force
  then show "merkle_verify_accepts_valid_and_rejects_tampered P"
    using t third_leaf(1) [OF assms]
    by (simp add: merkle_verify_accepts_valid_and_rejects_tampered_def tree_of_def merkle_region_def Let_def
        merkle_verdict_eval [where b = True] merkle_verdict_eval [where b = False] flip_first_append del: to_be.simps)
  show "merkle_verify_rejects_misshaped_region P"
    by (simp add: merkle_verify_rejects_misshaped_region_def merkle_verify_def machine_eval)
  let ?d = "digest_of P (ascii ''a committed root'')"
  have "merkle_check P ?d 0 ?d [] True = Inr False"
    by (simp add: merkle_check_def)
  then have "merkle_verdict P (?d @ to_be 8 (0 :: u64) @ ?d @ []) (\<lambda>v. v = 0)"
    using merkle_verdict_eval [of ?d ?d "[]" P 0 False] by simp
  then show "merkle_verify_rejects_a_zero_length_path P"
    using digest_of_eval [OF assms]
    by (simp add: merkle_verify_rejects_a_zero_length_path_def merkle_region_def del: to_be.simps)
qed

section \<open>Opcodes\<close>

lemmas opcode_eval = storage_eval exec_hash_def exec_verify_def run_crypto_def hash_def address_def write_or_fault_def
  hash_variable_def message_variable_def merkle_variable_def keccak_blocks_def KECCAK_RATE_def HASH_BLOCK_def
  MERKLE_LEVEL_def VERIFY_MESSAGE_BLOCK_def saturating_mul_def saturating_sub_def taint_keyed_from_hash_def
  SCHEME_ML_DSA_def SCHEME_SLH_DSA_def

definition hash_opcode_runs_metered :: "prims \<Rightarrow> bool" where
  "hash_opcode_runs_metered P =
     (let w = 72623859790382856 in
      halts P (new_interp (program [Ldi 0 0, Ldi 1 w, MStore 0 1, Ldi 3 8, Ldi 4 64, Hash 0 3 4, MLoad 5 4, Halt]) [] 1000)
        (\<lambda>out. expecting (sha3_256 P (to_be 8 w)) (\<lambda>digest.
           o_regs out ! 5 = from_be (take 8 digest) \<and>
           o_meter_used out = 1 + 1 + 3 + 1 + 1 + cost OpHash + hash_variable 8 + 3)))"

definition addr_opcode_derives_the_account_address_metered :: "prims \<Rightarrow> bytes \<Rightarrow> bool" where
  "addr_opcode_derives_the_account_address_metered P pk =
     when_assembled [''LDI r0, 0'', ''LDI r1, 1'', ''LDI r2, 40000'', ''ADDR r0, r1, r2'', ''MLOAD r3, r2'', ''HALT''] (\<lambda>cd.
       halts P (with_memory pk (new_interp cd [] 100000)) (\<lambda>out.
         expecting (sha3_256 P (ucast SCHEME_ML_DSA # pk)) (\<lambda>want.
           o_regs out ! 3 = from_be (take 8 want) \<and>
           o_meter_used out = 3 * cost OpLdi + cost OpAddr + cost OpMLoad + cost OpHalt)))"

definition a_hash_scales_with_the_length_it_absorbs :: "prims \<Rightarrow> bool" where
  "a_hash_scales_with_the_length_it_absorbs P =
     when_assembled [''LDI r0, 0'', ''LDI r1, 8'', ''LDI r2, 40000'', ''HASH r0, r1, r2'', ''HALT''] (\<lambda>short_code.
     when_assembled [''LDI r0, 0'', ''LDI r1, 40000'', ''LDI r2, 40000'', ''HASH r0, r1, r2'', ''HALT''] (\<lambda>long_code.
       expecting (run P (new_interp short_code [] 1000000)) (\<lambda>s. expecting (run P (new_interp long_code [] 1000000)) (\<lambda>l.
         o_meter_used l - o_meter_used s = hash_variable 40000 - hash_variable 8 \<and>
         o_meter_used l > o_meter_used s))))"

definition a_panicking_crypto_call_is_caught_and_mapped_to_a_fault :: bool where
  "a_panicking_crypto_call_is_caught_and_mapped_to_a_fault \<longleftrightarrow>
     run_crypto (\<lambda>_. Inl Panic) (new_interp (program [Halt]) [] 100) = Inl (Fault CryptoFault)"

lemma hash_sources:
  "assembles_to [''LDI r0, 0'', ''LDI r1, 1'', ''LDI r2, 40000'', ''ADDR r0, r1, r2'', ''MLOAD r3, r2'', ''HALT'']
     [Ldi 0 0, Ldi 1 1, Ldi 2 40000, Addr 0 1 2, MLoad 3 2, Halt]"
  "assembles_to [''LDI r0, 0'', ''LDI r1, 8'', ''LDI r2, 40000'', ''HASH r0, r1, r2'', ''HALT'']
     [Ldi 0 0, Ldi 1 8, Ldi 2 40000, Hash 0 1 2, Halt]"
  "assembles_to [''LDI r0, 0'', ''LDI r1, 40000'', ''LDI r2, 40000'', ''HASH r0, r1, r2'', ''HALT'']
     [Ldi 0 0, Ldi 1 40000, Ldi 2 40000, Hash 0 1 2, Halt]"
  by (simp_all add: assembles_to_def parse_eval)

lemma opcode_tests:
  assumes "hash_returns P"
  shows "hash_opcode_runs_metered P" "a_hash_scales_with_the_length_it_absorbs P"
    "a_panicking_crypto_call_is_caught_and_mapped_to_a_fault"
    "sizes_ok P \<Longrightarrow> length pk = p_ml_pk_bytes P \<Longrightarrow> addr_opcode_derives_the_account_address_metered P pk"
  using digest_of_eval [OF assms]
  by (simp_all add: hash_opcode_runs_metered_def a_hash_scales_with_the_length_it_absorbs_def
      a_panicking_crypto_call_is_caught_and_mapped_to_a_fault_def addr_opcode_derives_the_account_address_metered_def
      hash_sources [THEN assembled_listing] opcode_eval sizes_ok_def unat_size del: to_be.simps)

section \<open>Paths as programs\<close>

definition run_verify :: "prims \<Rightarrow> string \<Rightarrow> bytes \<Rightarrow> (u64 \<Rightarrow> u64 \<Rightarrow> bool) \<Rightarrow> bool" where
  "run_verify P mnem bs Q =
     when_assembled [''LDI r0, 0'', ''LDI r1, '' @ show_nat (length bs), mnem @ '' r0, r1, r2'', ''HALT''] (\<lambda>cd.
       halts P (with_memory bs (new_interp cd [] (cost OpVerifySlh * 4)))
         (\<lambda>out. Q (o_regs out ! 2) (o_meter_used out)))"

definition verify_meter :: "OpCode \<Rightarrow> u64 \<Rightarrow> u64" where
  "verify_meter op variable = 2 * cost OpLdi + cost op + variable + cost OpHalt"

definition merkle_verify_opcode_runs_metered :: "prims \<Rightarrow> bool" where
  "merkle_verify_opcode_runs_metered P =
     expecting (four_leaves P) (\<lambda>t.
       let bs = merkle_region (t_root t) 2 (t_data t ! 2) [t_tagged t ! 3, t_p01 t];
           path_bytes = of_nat (length bs) - MERKLE_HEADER in
       run_verify P ''MERKLEVERIFY'' bs (\<lambda>result meter.
         result = 1 \<and> meter = verify_meter OpMerkleVerify (merkle_variable path_bytes)))"

definition a_merkle_index_past_the_path_depth_does_not_verify :: "prims \<Rightarrow> bool" where
  "a_merkle_index_past_the_path_depth_does_not_verify P =
     expecting (four_leaves P) (\<lambda>t.
       let bs = (\<lambda>index. merkle_region (t_root t) index (t_data t ! 2) [t_tagged t ! 3, t_p01 t]) in
       run_verify P ''MERKLEVERIFY'' (bs 2) (\<lambda>result _. result = 1) \<and>
       run_verify P ''MERKLEVERIFY'' (bs (2 + 4)) (\<lambda>result _. result = 0) \<and>
       run_verify P ''MERKLEVERIFY'' (bs (2 OR push_bit 63 1)) (\<lambda>result _. result = 0))"

lemma verify_source:
  "assembles_to [''LDI r0, 0'', ''LDI r1, 136'', ''MERKLEVERIFY r0, r1, r2'', ''HALT'']
     [Ldi 0 0, Ldi 1 136, MerkleVerify 0 1 2, Halt]"
  by (simp add: assembles_to_def parse_eval)

text \<open>A path of two siblings, run as a program: the verdict of the decision, at the price of two levels.\<close>

lemma run_verify_path:
  assumes "length root = 32" and "length leaf = 32" and "length a = 32" and "length b = 32"
    and "merkle_check P root index leaf (a @ b) True = Inr v"
  shows "run_verify P ''MERKLEVERIFY'' (merkle_region root index leaf [a, b]) Q \<longleftrightarrow> Q (of_bool v) 614"
proof -
  let ?bs = "merkle_region root index leaf [a, b]"
  have "length ?bs = 136" "take 32 ?bs = root" "take 8 (drop 32 ?bs) = to_be 8 index" "take 32 (drop 40 ?bs) = leaf"
    "drop 72 ?bs = a @ b"
    using assms(1-4) by (simp_all add: merkle_region_def del: to_be.simps)
  moreover have "show_nat 136 = ''136''"
    by code_simp
  ultimately show ?thesis
    using assms assembled_listing [OF verify_source]
    by (simp add: run_verify_def merkle_verify_def opcode_eval MERKLE_HEADER_def del: to_be.simps)
qed

lemma merkle_program_tests:
  assumes "hash_returns P"
  shows "merkle_verify_opcode_runs_metered P" "a_merkle_index_past_the_path_depth_does_not_verify P"
proof -
  obtain d0 d1 d2 d3 where t: "four_leaves P = Inr (tree_of P d0 d1 d2 d3)" "length d2 = 32"
    using four_leaves_eval [OF assms] .
  have "length (merkle_region (digest_of P x) 2 d2 [digest_of P y, digest_of P z]) = 136" for x y z
    using t(2) by (simp add: merkle_region_def del: to_be.simps)
  then show "merkle_verify_opcode_runs_metered P"
    using t third_leaf(1) [OF assms]
    by (simp add: merkle_verify_opcode_runs_metered_def tree_of_def run_verify_path MERKLE_HEADER_def
        verify_meter_def merkle_variable_def MERKLE_LEVEL_def saturating_mul_def Let_def)
  show "a_merkle_index_past_the_path_depth_does_not_verify P"
    using t third_leaf [OF assms]
    by (simp add: a_merkle_index_past_the_path_depth_does_not_verify_def tree_of_def run_verify_path [where v = True]
        run_verify_path [where v = False] drop_bit_eq_div Let_def)
qed

end
