(* ===== verification/PathTests.thy ===== *)
theory PathTests
  imports OpcodeTests
begin

text \<open>
  The tests of Merkle paths that attack the format: an inner node presented as a leaf, and a path
  deeper than an index of 64 bits can address, which the rules before accepted.
\<close>

section \<open>An inner node as a leaf\<close>

definition merkle_verify_rejects_an_internal_node_presented_as_a_leaf :: "prims \<Rightarrow> bool" where
  "merkle_verify_rejects_an_internal_node_presented_as_a_leaf P =
     expecting (four_leaves P) (\<lambda>t.
       merkle_verdict P (merkle_region (t_root t) 0 (t_p01 t) [t_p23 t]) (\<lambda>v. v = 0))"

lemma digest_of_inject: "hash_returns P \<Longrightarrow> digest_of P x = digest_of P y \<Longrightarrow> \<not> collision P {x, y} \<Longrightarrow> x = y"
  using digest_ex [of P x] digest_ex [of P y] by (auto simp: digest_of_def collision_def)

text \<open>The tags make the two hashes differ in their input, so that only a collision could verify.\<close>

lemma internal_node_test:
  assumes "hash_returns P"
    and tree: "\<And>t. four_leaves P = Inr t \<Longrightarrow> leaf_of P (t_p01 t) \<noteq> t_p01 t \<and>
      \<not> collision P {1 # leaf_of P (t_p01 t) @ t_p23 t, 1 # t_p01 t @ t_p23 t}"
  shows "merkle_verify_rejects_an_internal_node_presented_as_a_leaf P"
proof -
  obtain d0 d1 d2 d3 where t: "four_leaves P = Inr (tree_of P d0 d1 d2 d3)"
    using four_leaves_eval [OF assms(1)] .
  let ?l = "node_of P (leaf_of P d0) (leaf_of P d1)" and ?r = "node_of P (leaf_of P d2) (leaf_of P d3)"
  have "node_of P (leaf_of P ?l) ?r \<noteq> node_of P ?l ?r"
  proof
    assume "node_of P (leaf_of P ?l) ?r = node_of P ?l ?r"
    from digest_of_inject [OF assms(1) this] have "1 # leaf_of P ?l @ ?r = 1 # ?l @ ?r"
      using tree [OF t] by (simp add: tree_of_def Let_def)
    then show False
      using tree [OF t] by (simp add: tree_of_def Let_def)
  qed
  moreover have "chunks32 ?r = [?r]"
    by (simp add: chunks32.simps)
  ultimately have "merkle_check P (node_of P ?l ?r) 0 ?l ?r True = Inr False"
    using digest_of_eval [OF assms(1)] by (simp add: merkle_check_def tagged_hashes Let_def)
  then show ?thesis
    using t by (simp add: merkle_verify_rejects_an_internal_node_presented_as_a_leaf_def tree_of_def merkle_region_def
        Let_def merkle_verdict_eval [where b = False] del: to_be.simps)
qed

section \<open>A path of 65 levels\<close>

text \<open>\<open>for _ in 0..depth { leaf_hash = merkle_node(&leaf_hash, &[0u8; 32]) }\<close>\<close>

fun climb :: "prims \<Rightarrow> nat \<Rightarrow> bytes \<Rightarrow> exn + bytes" where
  "climb P 0 h = Inr h"
| "climb P (Suc n) h = bindE (merkle_node P h (replicate 32 0)) (climb P n)"

definition a_merkle_path_deeper_than_the_index_can_address_is_refused :: "prims \<Rightarrow> bool" where
  "a_merkle_path_deeper_than_the_index_can_address_is_refused P =
     (let depth = 65; memory = replicate (72 + 32 * depth) 0; memory = copy_into memory 32 (to_be 8 (0 :: u64)) in
      when_assembled [''LDI r0, 0'', ''LDI r1, '' @ show_nat (length memory), ''LDI r2, 0'',
          ''MERKLEVERIFY r0, r1, r2'', ''HALT''] (\<lambda>cd.
        expecting (bindE (merkle_leaf P (replicate 32 0)) (climb P depth)) (\<lambda>root.
          let memory = copy_into memory 0 root in
          halts P (with_memory memory (for_unchecked_program cd [] 10000000)) (\<lambda>strct. o_regs strct ! 2 = 0) \<and>
          halts P (with_legacy_rules (with_memory memory (for_unchecked_program cd [] 10000000)))
            (\<lambda>legacy. o_regs legacy ! 2 = 1))))"

lemma deep_source:
  "assembles_to [''LDI r0, 0'', ''LDI r1, 2152'', ''LDI r2, 0'', ''MERKLEVERIFY r0, r1, r2'', ''HALT'']
     [Ldi 0 0, Ldi 1 2152, Ldi 2 0, MerkleVerify 0 1 2, Halt]"
  by (simp add: assembles_to_def parse_eval)

lemma chunks_zeros: "chunks32 (replicate (n * 32) 0) = replicate n (replicate 32 0)"
  by (induction n) (simp_all add: chunks32.simps)

lemma fold_zeros: "merkle_fold P 0 k h (replicate n (replicate 32 0)) = climb P n h"
  by (induction n arbitrary: k h) simp_all

lemma climb_total: "hash_returns P \<Longrightarrow> length h = 32 \<Longrightarrow> \<exists>r. climb P n h = Inr r \<and> length r = 32"
  by (induction n arbitrary: h) (simp_all add: merkle_node_def digest_of_eval)

text \<open>A path of zeros to the node that climbing reaches: refused now, accepted before.\<close>

lemma deep_check:
  assumes "merkle_leaf P (replicate 32 0) = Inr h" and "climb P 65 h = Inr root"
  shows "merkle_check P root 0 (replicate 32 0) (replicate 2080 0) True = Inr False"
    and "merkle_check P root 0 (replicate 32 0) (replicate 2080 0) False = Inr True"
  using assms chunks_zeros [of 65] by (simp_all add: merkle_check_def fold_zeros)

lemma deep_path_test:
  assumes "hash_returns P"
  shows "a_merkle_path_deeper_than_the_index_can_address_is_refused P"
proof -
  obtain h where h: "merkle_leaf P (replicate 32 0) = Inr h" "length h = 32"
    using digest_of_eval [OF assms] by (auto simp: merkle_leaf_def)
  then obtain root where root: "climb P 65 h = Inr root" "length root = 32"
    using climb_total [OF assms] by blast
  let ?memory = "root @ replicate 2120 0"
  have zeros: "copy_into (replicate 2152 (0 :: u8)) 32 (to_be 8 (0 :: u64)) = replicate 2152 0"
  proof -
    have "to_be 8 (0 :: u64) = replicate 8 0"
      by code_simp
    then show ?thesis
      by (simp add: copy_into_def flip: replicate_add)
  qed
  have "copy_into (replicate 2152 0) 0 root = ?memory" "length ?memory = 2152"
    using root(2) by (simp_all add: copy_into_def)
  moreover have "show_nat 2152 = ''2152''"
    by code_simp
  moreover have "take 32 ?memory = root" "drop 32 ?memory = replicate 2120 0"
    using root(2) by simp_all
  moreover have "from_be (replicate 8 0) = (0 :: u64)"
    by code_simp
  ultimately show ?thesis
    using h root zeros deep_check [OF h(1) root(1)]
    by (simp add: a_merkle_path_deeper_than_the_index_can_address_is_refused_def merkle_verify_def opcode_eval
        deep_source [THEN assembled_listing] for_unchecked_program_def with_legacy_rules_def MERKLE_HEADER_def
        del: to_be.simps)
qed

end
