(* ===== verification/Loops.thy ===== *)
theory Loops
  imports TestRuns
begin

text \<open>
  Programs with loops, whose passes no evaluation counts out.  An invariant indexed by the passes is
  a contract, \<open>counted_loop\<close>: a pass from a state that meets it leads to one that meets it at the next
  index, with the same result of the run.  The loops of the unit tests are its interpretations.
\<close>

section \<open>Loops by their passes\<close>

locale counted_loop =
  fixes P :: prims
    and inv :: "nat \<Rightarrow> interp \<Rightarrow> bool"
    and last_pass :: nat
  assumes pass: "inv n s \<Longrightarrow> n < last_pass \<Longrightarrow> \<exists>t. inv (Suc n) t \<and> run P s = run P t"
begin

lemma passes: "inv 0 s \<Longrightarrow> n \<le> last_pass \<Longrightarrow> \<exists>t. inv n t \<and> run P s = run P t"
proof (induction n)
  case (Suc n)
  then obtain t where "inv n t" "run P s = run P t"
    by auto
  then show ?case
    using pass [of n t] Suc.prems(2) by auto
qed auto

lemma exhausted:
  assumes "inv 0 s" and "\<And>t. inv last_pass t \<Longrightarrow> run P t = r"
  shows "run P s = r"
  using passes [OF assms(1) order_refl] assms(2) by auto

end

text \<open>A turn whose instruction is known.\<close>

lemma run_listed_turn:
  assumes "code s = program instrs" and "list_all wf_instr instrs" and "instr_at instrs (unat (mpc (machine s))) = Some i"
    and "unat (mpc (machine s)) + encoded_len i < 2 ^ 32"
  shows "run P s = resume P (turn_at P i s)"
  by (subst run.simps) (simp add: turn_listed [OF assms] resume_def)

section \<open>Meters that count up\<close>

lemma checked_add_of_nat:
  "u + unat k < 2 ^ 64 \<Longrightarrow> checked_add (of_nat u) (k :: u64) = Some (of_nat (u + unat k))"
  by (simp add: checked_add_def unat_of_nat)

lemma checked_add_0: "checked_add 0 k = Some (k :: u64)"
  using unat_bound [of k] by (simp add: checked_add_def)

lemma count_above: "a < 2 ^ 64 \<Longrightarrow> b < 2 ^ 64 \<Longrightarrow> (of_nat a :: u64) < of_nat b \<longleftrightarrow> a < b"
  by (simp add: word_less_nat_alt unat_of_nat)

lemma of_nat_not_above: "\<not> of_nat u > (- 1 :: u64)"
  by (simp add: not_less)

lemma charge_of_nat:
  "meter_used s = of_nat u \<Longrightarrow> meter_limit s = - 1 \<Longrightarrow> u + unat k < 2 ^ 64 \<Longrightarrow>
     charge k s = Inr (s\<lparr>meter_used := of_nat (u + unat k)\<rparr>)"
  by (simp add: charge_def checked_add_of_nat of_nat_not_above del: of_nat_add)

lemmas count_eval = run_listed encoded_lens wf_instr_def NUM_REGS_def resume_simps turn_at_def step_def on_machine_def
  reg_def binary_def set_reg_def exec_jump_if_def jump_to_def target_ok_def program_target outcome_of_def
  charge_def checked_add_of_nat of_nat_not_above Let_def

end
