(* ===== verification/FloodTests.thy ===== *)
theory FloodTests
  imports EntryTests Loops
begin

text \<open>
  The tests of \<open>interp.rs\<close> that flood a run with empty events.  The loop of any number of them is an
  interpretation of \<open>counted_loop\<close>: it halts with all its events up to 32768 and faults past that.
\<close>

section \<open>Empty events\<close>

definition a_flood_of_empty_events_is_bounded_by_the_effects_memory_cap :: "prims \<Rightarrow> bool" where
  "a_flood_of_empty_events_is_bounded_by_the_effects_memory_cap P =
     when_assembled [''LDI r0, 0'', ''LDI r1, 0'', ''LDI r2, 7'', ''LDI r3, 0'', ''LDI r4, 1'', ''LDI r5, 60000'',
         ''loop:'', ''EMIT r0, r1, r2'', ''ADDW r3, r3, r4'', ''LTU r6, r3, r5'', ''JNZ r6, loop'', ''HALT'']
       (\<lambda>cd. faults_with P (new_interp cd [] (- 1)) EffectsTooLarge)"

definition empty_events_up_to_the_cap_still_succeed :: "prims \<Rightarrow> bool" where
  "empty_events_up_to_the_cap_still_succeed P =
     (let room = EFFECTS_BYTES_CAP div EFFECT_RECORD_OVERHEAD;
          count = room - 1 in
      when_assembled [''LDI r0, 0'', ''LDI r1, 0'', ''LDI r2, 7'', ''LDI r3, 0'', ''LDI r4, 1'',
          ''LDI r5, '' @ show_nat (unat count),
          ''loop:'', ''EMIT r0, r1, r2'', ''ADDW r3, r3, r4'', ''LTU r6, r3, r5'', ''JNZ r6, loop'', ''HALT'']
        (\<lambda>cd. halts P (new_interp cd [] (- 1)) (\<lambda>out. of_nat (length (o_effects out)) = count)))"

definition flood_code :: "u64 \<Rightarrow> Instr list" where
  "flood_code count =
     [Ldi 0 0, Ldi 1 0, Ldi 2 7, Ldi 3 0, Ldi 4 1, Ldi 5 count, Emit 0 1 2, AddW 3 3 4, LtU 6 3 5, Jnz 6 60, Halt]"

lemma flood_sources:
  "assembles_to [''LDI r0, 0'', ''LDI r1, 0'', ''LDI r2, 7'', ''LDI r3, 0'', ''LDI r4, 1'', ''LDI r5, 60000'',
         ''loop:'', ''EMIT r0, r1, r2'', ''ADDW r3, r3, r4'', ''LTU r6, r3, r5'', ''JNZ r6, loop'', ''HALT'']
     (flood_code 60000)"
  "assembles_to [''LDI r0, 0'', ''LDI r1, 0'', ''LDI r2, 7'', ''LDI r3, 0'', ''LDI r4, 1'', ''LDI r5, 32767'',
         ''loop:'', ''EMIT r0, r1, r2'', ''ADDW r3, r3, r4'', ''LTU r6, r3, r5'', ''JNZ r6, loop'', ''HALT'']
     (flood_code 32767)"
  by (simp_all add: assembles_to_def flood_code_def parse_eval)

text \<open>The head of the loop after \<open>n\<close> events, \<open>u\<close> meter spent.\<close>

definition flood_head :: "u64 \<Rightarrow> nat \<Rightarrow> nat \<Rightarrow> u64 \<Rightarrow> interp" where
  "flood_head count n u flag =
     (new_interp (program (flood_code count)) [] (- 1))
       \<lparr>machine := \<lparr>regs = [0, 0, 7, of_nat n, 1, count, flag, 0, 0, 0, 0, 0, 0, 0, 0, 0], mpc = 60, stack = [], mem = blank\<rparr>,
        meter_used := of_nat u, effects := replicate n (Event (to_be 4 (7 :: u32)) []),
        effects_bytes := of_nat (32 * n), event_records := of_nat n\<rparr>"


definition emitted :: "u64 \<Rightarrow> nat \<Rightarrow> nat \<Rightarrow> u64 \<Rightarrow> interp" where
  "emitted count n u flag =
     flood_head count n u flag
       \<lparr>machine := \<lparr>regs = [0, 0, 7, of_nat n, 1, count, flag, 0, 0, 0, 0, 0, 0, 0, 0, 0], mpc = 64, stack = [], mem = blank\<rparr>,
        effects := replicate (Suc n) (Event (to_be 4 (7 :: u32)) []),
        effects_bytes := of_nat (32 * Suc n), event_records := of_nat (Suc n)\<rparr>"

lemma flood_emit:
  assumes "n < 32768" and "u < 2 ^ 60"
  shows "turn_at P (Emit 0 1 2) (flood_head count n u flag) =
    Inr (Inr (emitted count n (u + (if n < 4 then 200 else 6450)) flag))"
proof -
  have "checked_add (of_nat n) (1 :: u64) = Some (of_nat (Suc n))"
    using assms checked_add_of_nat [of n 1] by simp
  moreover have "checked_add (of_nat (32 * n)) (32 :: u64) = Some (of_nat (32 * Suc n))"
    using assms checked_add_of_nat [of "32 * n" 32] unfolding mult_Suc_right [of 32 n] add.commute [of 32 "32 * n"]
    by (simp del: of_nat_add of_nat_mult)
  moreover have "\<not> of_nat (32 * Suc n) > (1048576 :: u64)"
    using assms by (simp add: word_less_nat_alt unat_of_nat del: of_nat_mult of_nat_add)
  moreover have "of_nat (Suc n) > (4 :: u64) \<longleftrightarrow> n \<ge> 4"
    using assms by (simp add: word_less_nat_alt unat_of_nat del: of_nat_Suc) linarith
  ultimately show ?thesis
    using assms
    by (simp add: flood_head_def emitted_def turn_at_def step_def new_interp_def encoded_lens charge_of_nat checked_add_0
        exec_emit_def reg_def mem_eval length_blank window_of_def charge_effect_def Let_def EFFECT_BYTE_def
        EVENT_BYTE_def EFFECT_RECORD_OVERHEAD_def EFFECTS_BYTES_CAP_def checked_mul_def mint_selector count_event_def
        FREE_EVENT_RECORDS_def EVENT_RECORD_METER_def replicate_append_same add.commute [of u]
        del: to_be.simps of_nat_add of_nat_mult of_nat_Suc charge_Inr_iff bindE_Inr_iff)
qed

lemma flood_emit_full:
  assumes "u < 2 ^ 60"
  shows "turn_at P (Emit 0 1 2) (flood_head count 32768 u flag) = Inl (Fault EffectsTooLarge)"
  using assms
  by (simp add: flood_head_def turn_at_def step_def new_interp_def encoded_lens charge_of_nat checked_add_0
      exec_emit_def reg_def mem_eval length_blank window_of_def charge_effect_def Let_def EFFECT_BYTE_def
      EVENT_BYTE_def EFFECT_RECORD_OVERHEAD_def EFFECTS_BYTES_CAP_def checked_mul_def checked_add_def
      del: of_nat_add charge_Inr_iff bindE_Inr_iff)

text \<open>The rest of the loop: the counter, the test, the jump back.\<close>

lemma flood_rest:
  assumes "n < 32768" and "u < 2 ^ 60" and "again \<longleftrightarrow> (of_nat (Suc n) :: u64) < count"
  shows "run P (emitted count n u flag) =
    (if again then run P (flood_head count (Suc n) (u + 5) 1)
     else Inr (outcome_of (flood_head count (Suc n) (u + 5) 0)))"
  using assms
  by (simp add: emitted_def flood_head_def flood_code_def new_interp_def count_eval
      add.commute [of u] add.commute [of "of_nat n :: u64"]
      del: to_be.simps of_nat_add of_nat_mult charge_Inr_iff bindE_Inr_iff replicate.simps add_2_eq_Suc add_2_eq_Suc')

lemma flood_turn:
  "run P (flood_head count n u flag) = resume P (turn_at P (Emit 0 1 2) (flood_head count n u flag))"
  by (simp add: flood_head_def flood_code_def new_interp_def run_listed encoded_lens wf_instr_def NUM_REGS_def
      del: to_be.simps of_nat_add of_nat_mult)

lemma flood_pass:
  assumes "n < 32768" and "u < 2 ^ 50" and "again \<longleftrightarrow> Suc n < unat count"
  shows "run P (flood_head count n u flag) =
    (if again then run P (flood_head count (Suc n) (u + (if n < 4 then 205 else 6455)) 1)
     else Inr (outcome_of (flood_head count (Suc n) (u + (if n < 4 then 205 else 6455)) 0)))"
proof -
  have "again \<longleftrightarrow> (of_nat (Suc n) :: u64) < count"
    using assms(1,3) by (simp add: word_less_nat_alt unat_of_nat del: of_nat_Suc)
  then show ?thesis
    using flood_emit [of n u P count flag] flood_rest [of n "u + (if n < 4 then 200 else 6450)" again count P flag] assms(1,2)
    by (simp add: flood_turn [of P count n u] resume_simps add.assoc split: if_splits)
qed

text \<open>What \<open>n\<close> passes pay: six constants, 205 a pass, and 6250 for each record beyond four.\<close>

definition flood_price :: "nat \<Rightarrow> nat" where
  "flood_price n = 6 + 205 * n + 6250 * (n - 4)"

lemma flood_price_Suc: "flood_price (Suc n) = flood_price n + (if n < 4 then 205 else 6455)"
  by (cases "n < 4") (auto simp: flood_price_def not_less le_iff_add)

lemma flood_price_small: "n \<le> 32768 \<Longrightarrow> flood_price n < 2 ^ 50"
  by (simp add: flood_price_def)

definition flood_inv :: "u64 \<Rightarrow> nat \<Rightarrow> interp \<Rightarrow> bool" where
  "flood_inv count n s \<longleftrightarrow> (\<exists>flag. s = flood_head count n (flood_price n) flag)"

interpretation empty_events: counted_loop P "flood_inv count" "min 32768 (unat count - 1)" for P count
proof
  fix n s
  assume "flood_inv count n s" and n: "n < min 32768 (unat count - 1)"
  then obtain flag where s: "s = flood_head count n (flood_price n) flag"
    by (auto simp: flood_inv_def)
  have "n < 32768" "flood_price n < 2 ^ 50" "True \<longleftrightarrow> Suc n < unat count"
    using n flood_price_small [of n] by auto
  from flood_pass [OF this, of P flag] show "\<exists>t. flood_inv count (Suc n) t \<and> run P s = run P t"
    by (intro exI [of _ "flood_head count (Suc n) (flood_price (Suc n)) 1"])
      (auto simp: s flood_inv_def flood_price_Suc)
qed

lemma flood_start: "run P (new_interp (program (flood_code count)) [] (- 1)) = run P (flood_head count 0 6 0)"
  by (simp add: flood_head_def flood_code_def run_eval exec_emit_def del: to_be.simps)

lemma flood_starts: "flood_inv count 0 (flood_head count 0 6 0)"
  by (auto simp: flood_inv_def flood_price_def)

lemma empty_events_halt:
  assumes "max 1 (unat count) = Suc n" and "n < 32768"
  shows "\<exists>out. run P (new_interp (program (flood_code count)) [] (- 1)) = Inr out \<and>
    o_effects out = replicate (Suc n) (Event (to_be 4 (7 :: u32)) []) \<and> o_meter_used out = of_nat (flood_price (Suc n))"
proof -
  obtain flag where flag: "run P (flood_head count 0 6 0) = run P (flood_head count n (flood_price n) flag)"
    using empty_events.passes [OF flood_starts [of count], of n P] assms by (auto simp: flood_inv_def max_def split: if_splits)
  have "False \<longleftrightarrow> Suc n < unat count"
    using assms(1) by (auto simp: max_def split: if_splits)
  from flood_pass [OF assms(2) _ this, of "flood_price n" P flag] flood_price_small [of n] assms(2) flag
  show ?thesis
    unfolding flood_start flood_price_Suc
    by (simp add: outcome_of_def flood_head_def del: to_be.simps replicate.simps of_nat_add)
qed

lemma empty_events_fault:
  assumes "32768 < unat count"
  shows "run P (new_interp (program (flood_code count)) [] (- 1)) = Inl (Fault EffectsTooLarge)"
  unfolding flood_start
proof (rule empty_events.exhausted [OF flood_starts])
  fix t
  have "min 32768 (unat count - 1) = 32768"
    using assms by simp
  moreover assume "flood_inv count (min 32768 (unat count - 1)) t"
  moreover have "flood_price 32768 < 2 ^ 60"
    by (simp add: flood_price_def)
  ultimately obtain u flag where "t = flood_head count 32768 u flag" "u < 2 ^ 60"
    by (auto simp: flood_inv_def)
  then show "run P t = Inl (Fault EffectsTooLarge)"
    using flood_emit_full by (simp add: flood_turn resume_simps)
qed

text \<open>C40. Events of no bytes are neither free nor unbounded: a loop that emits any number of them, under
  the largest limit, halts with exactly that many (at least one) and at a price of 205 a pass and 6250
  for every event beyond four, up to 32768 events, and with any number above faults with
  \<open>EffectsTooLarge\<close>.\<close>

theorem empty_events_bounded:
  "if max 1 (unat count) \<le> 32768
   then \<exists>out. run P (new_interp (program (flood_code count)) [] (- 1)) = Inr out \<and>
     o_effects out = replicate (max 1 (unat count)) (Event (to_be 4 (7 :: u32)) []) \<and>
     o_meter_used out = of_nat (flood_price (max 1 (unat count)))
   else run P (new_interp (program (flood_code count)) [] (- 1)) = Inl (Fault EffectsTooLarge)"
proof -
  obtain n where n: "max 1 (unat count) = Suc n"
    by (cases "max 1 (unat count)") auto
  show ?thesis
    using empty_events_halt [OF n, of P] empty_events_fault [of count P] n
    by (auto simp: max_def simp del: to_be.simps replicate.simps split: if_splits)
qed

lemma flood_tests:
  "a_flood_of_empty_events_is_bounded_by_the_effects_memory_cap P" "empty_events_up_to_the_cap_still_succeed P"
proof -
  show "a_flood_of_empty_events_is_bounded_by_the_effects_memory_cap P"
    using empty_events_fault [of 60000 P]
    by (simp add: a_flood_of_empty_events_is_bounded_by_the_effects_memory_cap_def flood_sources [THEN assembled_listing]
        faults_with_def)
  obtain out where out: "run P (new_interp (program (flood_code 32767)) [] (- 1)) = Inr out" "length (o_effects out) = 32767"
    using empty_events_halt [of 32767 32766 P] by auto
  have "EFFECTS_BYTES_CAP div EFFECT_RECORD_OVERHEAD = 32768"
    by (simp add: EFFECTS_BYTES_CAP_def EFFECT_RECORD_OVERHEAD_def)
  moreover have "show_nat 32767 = ''32767''"
    by (simp add: show_nat.simps char_of_def bit_0)
  ultimately show "empty_events_up_to_the_cap_still_succeed P"
    using out by (simp add: empty_events_up_to_the_cap_still_succeed_def flood_sources [THEN assembled_listing]
        halts_def Let_def)
qed

end
