(* ===== verification/KeyFloods.thy ===== *)
theory KeyFloods
  imports EntryTests OpcodeTests Loops
begin

text \<open>
  The tests of \<open>interp.rs\<close> whose programs hash in a loop: over the full memory until the meter is
  out, and over ever new keys of a declared map until the meter or the cap on authorised keys ends them.
\<close>

section \<open>A loop of hashes\<close>

definition a_hash_loop_over_full_memory_runs_out_of_meter :: "prims \<Rightarrow> bool" where
  "a_hash_loop_over_full_memory_runs_out_of_meter P =
     when_assembled [''LDI r0, 0'', ''LDI r1, 65536'', ''LDI r2, 0'', ''loop:'', ''HASH r0, r1, r2'', ''JMP loop'', ''HALT'']
       (\<lambda>cd. faults_with P (new_interp cd [] 500000) OutOfMeter)"

lemma hash_loop_source:
  "assembles_to [''LDI r0, 0'', ''LDI r1, 65536'', ''LDI r2, 0'', ''loop:'', ''HASH r0, r1, r2'', ''JMP loop'', ''HALT'']
     [Ldi 0 0, Ldi 1 65536, Ldi 2 0, Hash 0 1 2, Jmp 30, Halt]"
  by (simp add: assembles_to_def parse_eval)

text \<open>The head of the loop over a memory; a pass costs the base price, 482 blocks and the jump.\<close>

definition hash_head :: "bytes \<Rightarrow> u64 \<Rightarrow> interp" where
  "hash_head m u =
     (new_interp (program [Ldi 0 0, Ldi 1 65536, Ldi 2 0, Hash 0 1 2, Jmp 30, Halt]) [] 500000)
       \<lparr>machine := \<lparr>regs = [0, 65536, 0, 0, 0, 0, 0, 0, 0, 0, 0, 0, 0, 0, 0, 0], mpc = 30, stack = [], mem = m\<rparr>,
        meter_used := u\<rparr>"

lemmas hash_eval = exec_hash_def hash_def run_crypto_def hash_variable_def keccak_blocks_def KECCAK_RATE_def HASH_BLOCK_def
  saturating_mul_def taint_keyed_from_hash_def write_or_fault_def

lemma hash_turn: "run P (hash_head m u) = resume P (turn_at P (Hash 0 1 2) (hash_head m u))"
  by (rule run_listed_turn [where instrs = "[Ldi 0 0, Ldi 1 65536, Ldi 2 0, Hash 0 1 2, Jmp 30, Halt]"])
    (simp_all add: hash_head_def new_interp_def encoded_lens wf_instr_def NUM_REGS_def)

lemma hash_pass:
  assumes "hash_returns P" and "length m = 65536" and "u + 19482 \<le> 500000"
  shows "run P (hash_head m (of_nat u)) = run P (hash_head (copy_into m 0 (digest_of P m)) (of_nat (u + 19482)))"
proof -
  let ?m = "copy_into m 0 (digest_of P m)"
  have paid: "\<not> of_nat (u + k) > (500000 :: u64)" if "k \<le> 19482" for k
    using assms(3) that count_above [of 500000 "u + k"] by simp
  have "turn_at P (Hash 0 1 2) (hash_head m (of_nat u)) =
      Inr (Inr ((hash_head ?m (of_nat (u + 19480)))\<lparr>machine := (machine (hash_head ?m 0))\<lparr>mpc := 34\<rparr>\<rparr>))"
    using assms digest_of_eval [OF assms(1)] paid
    by (simp add: hash_head_def new_interp_def turn_at_def encoded_lens step_def reg_def charge_def checked_add_of_nat
        Let_def hash_eval mem_eval window_of_def add.assoc
        del: of_nat_add of_nat_mult charge_Inr_iff bindE_Inr_iff)
  moreover have "run P ((hash_head ?m (of_nat (u + 19480)))\<lparr>machine := (machine (hash_head ?m 0))\<lparr>mpc := 34\<rparr>\<rparr>) =
      run P (hash_head ?m (of_nat (u + 19482)))"
    using assms(3) paid [of 19482]
    by (subst run_listed_turn [where instrs = "[Ldi 0 0, Ldi 1 65536, Ldi 2 0, Hash 0 1 2, Jmp 30, Halt]" and i = "Jmp 30"])
      (simp_all add: hash_head_def new_interp_def turn_at_def encoded_lens step_def wf_instr_def NUM_REGS_def charge_def
        checked_add_of_nat jump_to_def target_ok_def program_target resume_simps add.assoc add.commute [of u]
        del: of_nat_add of_nat_mult charge_Inr_iff bindE_Inr_iff)
  ultimately show ?thesis
    by (simp only: hash_turn resume_simps)
qed

definition hash_inv :: "prims \<Rightarrow> nat \<Rightarrow> interp \<Rightarrow> bool" where
  "hash_inv P n s \<longleftrightarrow> hash_returns P \<and> (\<exists>m. length m = 65536 \<and> s = hash_head m (of_nat (3 + 19482 * n)))"

lemma hash_invI: "hash_returns P \<Longrightarrow> length m = 65536 \<Longrightarrow> u = of_nat (3 + 19482 * n) \<Longrightarrow> hash_inv P n (hash_head m u)"
  by (auto simp: hash_inv_def)

text \<open>25 passes fit the meter, the hash of the next does not.\<close>

interpretation hash_loop: counted_loop P "hash_inv P" 25 for P
proof
  fix n s
  assume "hash_inv P n s" and n: "n < 25"
  then obtain m where m: "hash_returns P" "length m = 65536" "s = hash_head m (of_nat (3 + 19482 * n))"
    by (auto simp: hash_inv_def)
  then have "hash_inv P (Suc n) (hash_head (copy_into m 0 (digest_of P m)) (of_nat (3 + 19482 * n + 19482)))"
    by (intro hash_invI) simp_all
  then show "\<exists>t. hash_inv P (Suc n) t \<and> run P s = run P t"
    using hash_pass [OF m(1,2), of "3 + 19482 * n"] n m(3) by auto
qed

lemma hash_loop_test:
  assumes "hash_returns P"
  shows "a_hash_loop_over_full_memory_runs_out_of_meter P"
proof -
  have "run P (hash_head blank 3) = Inl (Fault OutOfMeter)"
  proof (rule hash_loop.exhausted)
    show "hash_inv P 0 (hash_head blank 3)"
      using assms by (intro hash_invI) (simp_all add: length_blank)
    show "run P t = Inl (Fault OutOfMeter)" if "hash_inv P 25 t" for t
      using that by (auto simp: hash_inv_def hash_turn resume_simps)
        (simp add: hash_head_def new_interp_def turn_at_def step_def charge_def checked_add_def reg_def hash_eval Let_def resume_simps)
  qed
  moreover have "run P (new_interp (program [Ldi 0 0, Ldi 1 65536, Ldi 2 0, Hash 0 1 2, Jmp 30, Halt]) [] 500000) =
      run P (hash_head blank 3)"
    by (simp add: hash_head_def run_eval exec_hash_def)
  ultimately show ?thesis
    by (simp add: a_hash_loop_over_full_memory_runs_out_of_meter_def hash_loop_source [THEN assembled_listing]
        faults_with_def)
qed

section \<open>A loop of new keys\<close>

abbreviation slot_code :: "Instr list" where
  "slot_code \<equiv>
     [Ldi 0 0, Ldi 1 16, Ldi 2 64, Ldi 3 0, Ldi 4 1, Ldi 5 8, Ldi 6 40000, MStore 5 3, Hash 0 1 2, AddW 3 3 4, LtU 7 3 6,
      Jnz 7 70, Halt]"

lemma slot_source: "assembles_to
        [''LDI r0, 0'', ''LDI r1, 16'', ''LDI r2, 64'', ''LDI r3, 0'', ''LDI r4, 1'', ''LDI r5, 8'', ''LDI r6, 40000'', ''loop:'',
         ''MSTORE r5, r3'', ''HASH r0, r1, r2'', ''ADDW r3, r3, r4'', ''LTU r7, r3, r6'', ''JNZ r7, loop'', ''HALT'']
     slot_code"
  by (simp add: assembles_to_def parse_eval)

definition slot_flood :: "prims \<Rightarrow> u64 \<Rightarrow> (exn + Outcome \<Rightarrow> bool) \<Rightarrow> bool" where
  "slot_flood P limit Q =
     (let base = push_bit 40 1 in
      when_assembled
        [''LDI r0, 0'', ''LDI r1, 16'', ''LDI r2, 64'', ''LDI r3, 0'', ''LDI r4, 1'', ''LDI r5, 8'', ''LDI r6, 40000'', ''loop:'',
         ''MSTORE r5, r3'', ''HASH r0, r1, r2'', ''ADDW r3, r3, r4'', ''LTU r7, r3, r6'', ''JNZ r7, loop'', ''HALT''] (\<lambda>cd.
      selecting P ''credit()'' (\<lambda>sel.
        let container = single cd sel (no_access\<lparr>keyed_writes := [base]\<rparr>) in
        expecting (for_entry P container sel limit) (\<lambda>s. Q (run P (with_memory (to_be 8 base) s))))))"

definition one_transaction_cannot_buy_more_keyed_slots_than_the_meter_pays_for :: "prims \<Rightarrow> bool" where
  "one_transaction_cannot_buy_more_keyed_slots_than_the_meter_pays_for P \<longleftrightarrow>
     slot_flood P MAX_TX_METER (\<lambda>outcome. outcome = Inl (Fault OutOfMeter)) \<and>
     MAX_TX_METER div KEYED_SLOT_METER \<le> 1000"

definition the_keyed_authorization_sets_are_bounded_and_fault_when_flooded :: "prims \<Rightarrow> bool" where
  "the_keyed_authorization_sets_are_bounded_and_fault_when_flooded P =
     (let base = push_bit 40 1 in
      when_assembled
        [''LDI r0, 0'', ''LDI r1, 16'', ''LDI r2, 64'', ''LDI r3, 0'', ''LDI r4, 1'', ''LDI r5, 8'', ''LDI r6, 40000'', ''loop:'',
         ''MSTORE r5, r3'', ''HASH r0, r1, r2'', ''ADDW r3, r3, r4'', ''LTU r7, r3, r6'', ''JNZ r7, loop'', ''HALT''] (\<lambda>cd.
      selecting P ''credit()'' (\<lambda>sel.
        let container = single cd sel (no_access\<lparr>keyed_writes := [base]\<rparr>) in
        expecting (for_entry P container sel (- 1)) (\<lambda>s. faults_with P (with_memory (to_be 8 base) s) EffectsTooLarge))))"

lemma flooded_sets: "the_keyed_authorization_sets_are_bounded_and_fault_when_flooded P \<longleftrightarrow>
    slot_flood P (- 1) (\<lambda>outcome. outcome = Inl (Fault EffectsTooLarge))"
  by (simp add: the_keyed_authorization_sets_are_bounded_and_fault_when_flooded_def slot_flood_def faults_with_def)

text \<open>The key that the turn of a counter derives, and that the first turns derive different ones.\<close>

definition row :: "prims \<Rightarrow> nat \<Rightarrow> bytes" where
  "row P i = digest_of P (to_be 8 (push_bit 40 1 :: u64) @ to_be 8 (of_nat i :: u64))"

text \<open>A state of the loop: position, memory, keys, their bytes, counter, meter and flag.\<close>

definition key_at :: "u64 \<Rightarrow> u32 \<Rightarrow> bytes \<Rightarrow> bytes fset \<Rightarrow> nat \<Rightarrow> nat \<Rightarrow> nat \<Rightarrow> u64 \<Rightarrow> interp" where
  "key_at limit pc m keys kb n u flag =
     (new_interp (program slot_code) [] limit)
       \<lparr>machine := \<lparr>regs = [0, 16, 64, of_nat n, 1, 8, 40000, flag, 0, 0, 0, 0, 0, 0, 0, 0], mpc = pc, stack = [], mem = m\<rparr>,
        meter_used := of_nat u, keyed_bytes := of_nat kb,
        manifest := Some \<lparr>m_reads = {||}, m_writes = {||}, m_keyed_reads = {||}, m_keyed_writes = {|push_bit 40 1|}\<rparr>,
        keyed_authorized_reads := keys, keyed_authorized_writes := keys\<rparr>"

lemma slot_flood_start:
  assumes "own_selectors P [''credit()'']" and "limit = - 1 \<or> limit = 12500000"
  shows "slot_flood P limit Q \<longleftrightarrow>
    Q (run P (key_at limit 70 (copy_into blank 0 (to_be 8 (push_bit 40 1 :: u64))) {||} 0 0 839 0))"
proof -
  obtain g s where s: "selector P GENESIS_SIGNATURE = Inr g" "selector P (ascii ''credit()'') = Inr s" "s \<noteq> g"
    using assms(1) by (auto simp: own_selectors_def)
  then show ?thesis
    using assms(2)
    by (elim disjE) (simp_all add: slot_flood_def slot_source [THEN assembled_listing]
        entry_eval key_at_def del: to_be.simps)
qed

text \<open>The counter behind the base of the map is the preimage of a row.\<close>

lemma window_next: "length m = 65536 \<Longrightarrow> length b = 8 \<Longrightarrow> window_of (copy_into m 8 b) 0 16 = take 8 m @ b"
  by (simp add: window_of_def copy_into_def min_def)

lemma key_turns:
  "run P (key_at limit 70 m keys kb n u flag) = resume P (turn_at P (MStore 5 3) (key_at limit 70 m keys kb n u flag))"
  "run P (key_at limit 73 m keys kb n u flag) = resume P (turn_at P (Hash 0 1 2) (key_at limit 73 m keys kb n u flag))"
  by (rule run_listed_turn [where instrs = slot_code]; simp add: key_at_def new_interp_def encoded_lens wf_instr_def NUM_REGS_def)+

lemmas key_eval = key_at_def new_interp_def encoded_lens turn_at_def charge_def checked_add_of_nat step_def reg_def mem_eval
  Let_def resume_simps on_machine_def

lemma paid:
  assumes "u + c \<le> unat (limit :: u64)" and "k \<le> c"
  shows "u + k < 2 ^ 64" "\<not> of_nat (u + k) > limit"
  using assms unat_bound [of limit] by (simp_all add: word_less_nat_alt unat_of_nat del: of_nat_add unat_bound)

lemma key_store:
  assumes "length m = 65536" and "u + 3 \<le> unat limit"
  shows "turn_at P (MStore 5 3) (key_at limit 70 m keys kb n u flag) =
    Inr (Inr (key_at limit 73 (copy_into m 8 (to_be 8 (of_nat n :: u64))) keys kb n (u + 3) flag))"
  using assms(1) paid [OF assms(2) order_refl]
  by (simp add: key_eval exec_mstore_def del: to_be.simps of_nat_add of_nat_mult charge_Inr_iff bindE_Inr_iff)

lemmas key_hash_eval = key_eval hash_eval window_next row_def record_keyed_def charge_keyed_def retain_keyed_def
  KEYED_READ_METER_def METER_PER_MICRO_def KEYED_READ_MICROS_def region_write word_eval checked_mul_def
  STORAGE_KEY_BYTES_def EFFECTS_BYTES_CAP_def add.assoc

lemma base_word: "take 8 m = to_be 8 (b :: u64) \<Longrightarrow> from_be (window_of m 0 8) = b"
  by (simp add: window_of_def word_eval del: to_be.simps)

lemma key_hash:
  assumes "hash_returns P" and "length m = 65536" and "take 8 m = to_be 8 (push_bit 40 1 :: u64)"
    and "u + 1188 \<le> unat limit" and "kb + 64 \<le> 2 ^ 20" and "row P n |\<in>| keys \<longleftrightarrow> False"
  shows "turn_at P (Hash 0 1 2) (key_at limit 73 (copy_into m 8 (to_be 8 (of_nat n :: u64))) keys kb n u flag) =
    Inr (Inr (key_at limit 77 (copy_into (copy_into m 8 (to_be 8 (of_nat n :: u64))) 64 (row P n)) (finsert (row P n) keys)
      (kb + 64) n (u + 1188) flag))"
proof -
  have "checked_add (of_nat kb) (64 :: u64) = Some (of_nat (kb + 64))"
    using assms(5) checked_add_of_nat [of kb 64] by (simp del: of_nat_add of_nat_mult)
  moreover have "\<not> of_nat (kb + 64) > (1048576 :: u64)"
    using assms(5) by (simp add: word_less_nat_alt unat_of_nat del: of_nat_mult of_nat_add)
  ultimately show ?thesis
    using assms(1-3,6) base_word [OF assms(3)] digest_of_eval [OF assms(1)] paid(1) [OF assms(4) order_refl]
      paid(2) [OF assms(4)]
    by (simp add: key_hash_eval del: to_be.simps of_nat_add of_nat_mult charge_Inr_iff bindE_Inr_iff)
qed

text \<open>Past the cap on keys the hash faults, and where the price of a key is not left.\<close>

lemma key_hash_full:
  assumes "hash_returns P" and "length m = 65536" and "take 8 m = to_be 8 (push_bit 40 1 :: u64)"
    and "u + 1188 \<le> unat limit" and "row P n |\<in>| keys \<longleftrightarrow> False"
  shows "turn_at P (Hash 0 1 2) (key_at limit 73 (copy_into m 8 (to_be 8 (of_nat n :: u64))) keys 1048576 n u flag) =
    Inl (Fault EffectsTooLarge)"
  using assms(1-3,5) base_word [OF assms(3)] digest_of_eval [OF assms(1)] paid(1) [OF assms(4) order_refl]
    paid(2) [OF assms(4)]
  by (simp add: key_hash_eval checked_add_def [of "1048576"]
      del: to_be.simps of_nat_add of_nat_mult charge_Inr_iff bindE_Inr_iff)

lemma key_hash_broke:
  assumes "hash_returns P" and "length m = 65536" and "take 8 m = to_be 8 (push_bit 40 1 :: u64)"
    and "row P n |\<in>| keys \<longleftrightarrow> False"
  shows "turn_at P (Hash 0 1 2) (key_at 12500000 73 (copy_into m 8 (to_be 8 (of_nat n :: u64))) keys kb n 12499042 flag) =
    Inl (Fault OutOfMeter)"
  using assms base_word [OF assms(3)] digest_of_eval [OF assms(1)]
  by (simp add: key_hash_eval checked_add_def del: to_be.simps of_nat_mult charge_Inr_iff bindE_Inr_iff)

lemma key_rest:
  assumes "Suc n < 40000" and "u + 5 \<le> unat limit"
  shows "run P (key_at limit 77 m keys kb n u flag) = run P (key_at limit 70 m keys kb (Suc n) (u + 5) 1)"
proof -
  have "(of_nat (Suc n) :: u64) < 40000"
    using assms(1) by (simp add: word_less_nat_alt unat_of_nat del: of_nat_Suc)
  then show ?thesis
    using paid(1) [OF assms(2) order_refl] paid(2) [OF assms(2)]
    by (simp add: key_at_def new_interp_def count_eval add.assoc add.commute [of u] add.commute [of "of_nat n :: u64"]
        del: to_be.simps of_nat_add of_nat_mult charge_Inr_iff bindE_Inr_iff add_2_eq_Suc add_2_eq_Suc')
qed
definition distinct_rows :: "prims \<Rightarrow> bool" where
  "distinct_rows P \<longleftrightarrow> inj_on (row P) {..16384}"

definition rows :: "prims \<Rightarrow> nat \<Rightarrow> bytes fset" where
  "rows P n = fset_of_list (map (row P) [0..<n])"

lemma row_fresh: "distinct_rows P \<Longrightarrow> n \<le> 16384 \<Longrightarrow> row P n |\<in>| rows P n \<longleftrightarrow> False"
  by (auto simp: distinct_rows_def rows_def fset_of_list_elem dest: inj_onD)

lemma rows_Suc: "rows P (Suc n) = finsert (row P n) (rows P n)"
  by (auto simp: rows_def fset_of_list_elem)

definition key_inv :: "prims \<Rightarrow> u64 \<Rightarrow> nat \<Rightarrow> interp \<Rightarrow> bool" where
  "key_inv P limit n s \<longleftrightarrow> hash_returns P \<and> distinct_rows P \<and>
     (\<exists>m flag. length m = 65536 \<and> take 8 m = to_be 8 (push_bit 40 1 :: u64) \<and>
        s = key_at limit 70 m (rows P n) (64 * n) n (839 + 1196 * n) flag)"

lemma key_pass:
  assumes "hash_returns P" and "distinct_rows P" and "length m = 65536" and "take 8 m = to_be 8 (push_bit 40 1 :: u64)"
    and "n < 16384" and "u + 1196 \<le> unat limit"
    and "m' = copy_into (copy_into m 8 (to_be 8 (of_nat n :: u64))) 64 (row P n)"
  shows "run P (key_at limit 70 m (rows P n) (64 * n) n u flag) =
    run P (key_at limit 70 m' (rows P (Suc n)) (64 * Suc n) (Suc n) (u + 1196) 1)"
proof -
  have "u + 3 \<le> unat limit" "u + 3 + 1188 \<le> unat limit" "u + 1191 + 5 \<le> unat limit" "64 * n + 64 \<le> 2 ^ 20" "Suc n < 40000"
    using assms(5,6) by simp_all
  then show ?thesis
    using key_store [OF assms(3), of u limit P "rows P n" "64 * n" n flag]
      key_hash [OF assms(1,3,4), of "u + 3" limit "64 * n" n "rows P n" flag] row_fresh [OF assms(2), of n]
      key_rest [of n "u + 1191" limit P m' "rows P (Suc n)" "64 * Suc n" flag] assms(5)
    by (simp add: key_turns resume_simps rows_Suc assms(7) add.assoc add.commute
        del: to_be.simps)
qed

interpretation key_loop: counted_loop P "key_inv P limit" "min 16384 ((unat limit - 839) div 1196)" for P limit
proof
  fix n s
  assume "key_inv P limit n s" and n: "n < min 16384 ((unat limit - 839) div 1196)"
  then obtain m flag where m: "hash_returns P" "distinct_rows P" "length m = 65536" "take 8 m = to_be 8 (push_bit 40 1 :: u64)"
    and s: "s = key_at limit 70 m (rows P n) (64 * n) n (839 + 1196 * n) flag"
    by (auto simp: key_inv_def)
  let ?m = "copy_into (copy_into m 8 (to_be 8 (of_nat n :: u64))) 64 (row P n)"
  have n2: "n < 16384" "839 + 1196 * n + 1196 \<le> unat limit"
    using n by linarith+
  have "key_inv P limit (Suc n) (key_at limit 70 ?m (rows P (Suc n)) (64 * Suc n) (Suc n) (839 + 1196 * n + 1196) 1)"
    unfolding key_inv_def using m
    by (intro conjI exI [of _ ?m] exI [of _ 1]) (simp_all add: copy_into_def row_def add.commute)
  then show "\<exists>t. key_inv P limit (Suc n) t \<and> run P s = run P t"
    using key_pass [OF m n2 refl] s by auto
qed

lemma key_start:
  assumes "hash_returns P" and "distinct_rows P"
  shows "key_inv P limit 0 (key_at limit 70 (copy_into blank 0 (to_be 8 (push_bit 40 1 :: u64))) {||} 0 0 839 0)"
  unfolding key_inv_def using assms
  by (intro conjI exI [of _ "copy_into blank 0 (to_be 8 (push_bit 40 1 :: u64))"] exI [of _ 0])
    (simp_all add: rows_def length_blank copy_into_def del: to_be.simps)

text \<open>The meter of a transaction buys 10450 keys, no meter more than 16384.\<close>

lemma key_flood_tests:
  assumes "hash_returns P" and "distinct_rows P" and "own_selectors P [''credit()'']"
  shows "one_transaction_cannot_buy_more_keyed_slots_than_the_meter_pays_for P"
    "the_keyed_authorization_sets_are_bounded_and_fault_when_flooded P"
proof -
  have "run P t = Inl (Fault OutOfMeter)" if inv: "key_inv P 12500000 10450 t" for t
  proof -
    obtain m flag where m: "length m = 65536" "take 8 m = to_be 8 (push_bit 40 1 :: u64)"
      and t: "t = key_at 12500000 70 m (rows P 10450) (64 * 10450) 10450 12499039 flag"
      using inv by (auto simp: key_inv_def simp del: to_be.simps)
    show ?thesis
      using key_store [OF m(1), of 12499039 12500000 P "rows P 10450" "64 * 10450" 10450 flag]
        key_hash_broke [OF assms(1) m row_fresh [OF assms(2)], of 10450 "64 * 10450" flag]
      by (simp add: t key_turns resume_simps del: to_be.simps)
  qed
  then show "one_transaction_cannot_buy_more_keyed_slots_than_the_meter_pays_for P"
    using key_loop.exhausted [OF key_start [OF assms(1,2)], of 12500000] slot_flood_start [OF assms(3)]
    by (simp add: one_transaction_cannot_buy_more_keyed_slots_than_the_meter_pays_for_def MAX_TX_METER_def
        KEYED_SLOT_METER_def del: to_be.simps)
  have "run P t = Inl (Fault EffectsTooLarge)" if inv: "key_inv P (- 1) 16384 t" for t
  proof -
    obtain m flag where m: "length m = 65536" "take 8 m = to_be 8 (push_bit 40 1 :: u64)"
      and t: "t = key_at (- 1) 70 m (rows P 16384) 1048576 16384 19596103 flag"
      using inv by (auto simp: key_inv_def simp del: to_be.simps)
    show ?thesis
      using key_store [OF m(1), of 19596103 "- 1" P "rows P 16384" 1048576 16384 flag]
        key_hash_full [OF assms(1) m _ row_fresh [OF assms(2)], of 19596106 "- 1" 16384 flag]
      by (simp add: t key_turns resume_simps word_eval del: to_be.simps)
  qed
  then show "the_keyed_authorization_sets_are_bounded_and_fault_when_flooded P"
    unfolding flooded_sets
    using key_loop.exhausted [OF key_start [OF assms(1,2)], of "- 1"] slot_flood_start [OF assms(3)]
    by (simp add: word_eval del: to_be.simps)
qed

end
