(* ===== verification/SignTests.thy ===== *)
theory SignTests
  imports OpcodeTests
begin

text \<open>
  The tests of \<open>interp.rs\<close> that print the length of a region with a key and a signature into their
  source.  As those lengths are the external crate's, the source is no constant: it assembles because it
  is a printed program.
\<close>

section \<open>Printed sources\<close>

definition text_line :: "string \<Rightarrow> bool" where
  "text_line l \<longleftrightarrow> l \<noteq> [] \<and> newline \<notin> set l \<and> last l \<noteq> CHR 0x0D"

lemma split_inclusive_last: "l \<noteq> [] \<Longrightarrow> newline \<notin> set l \<Longrightarrow> split_inclusive l = [l]"
  by (induction l rule: induct_list012) auto

lemma chomp_last: "text_line l \<Longrightarrow> chomp l = l"
proof -
  assume "text_line l"
  then have "last l \<noteq> newline"
    unfolding text_line_def by (metis last_in_set)
  then show ?thesis
    by (simp add: chomp_def strip_suffix_def)
qed

lemma source_Cons: "source (l # k # ls) = l @ newline # source (k # ls)"
  by (simp add: source_def)

lemma lines_source: "list_all text_line ls \<Longrightarrow> lines (source ls) = ls"
proof (induction ls rule: induct_list012)
  case (2 l)
  then show ?case
    using split_inclusive_last [of l] chomp_last [of l] by (simp add: source_def lines_def text_line_def)
next
  case (3 l k ls)
  then show ?case
    using split_inclusive_line [of l "source (k # ls)"] chomp_line [of l]
    by (simp add: source_Cons lines_def text_line_def)
qed (simp add: source_def lines_def)

lemma printed_source:
  assumes "ls = map show_instr instrs" and "list_all wf_instr instrs" and "length (program instrs) < 2 ^ 32"
  shows "assembles_to ls instrs"
proof -
  have "text_line (show_instr i)" for i
    using show_instr_line [of i] show_instr_ends [of i] by (simp add: text_line_def)
  then have "lines (source ls) = map show_instr instrs"
    using lines_source [of ls] by (simp add: assms(1) list_all_iff)
  from assemble_shown [OF this] assms(2,3) show ?thesis
    by (simp add: assembles_to_def program_def)
qed

section \<open>Signatures in programs\<close>

definition slh_verify_opcode_runs_metered :: "prims \<Rightarrow> bytes \<Rightarrow> bytes \<Rightarrow> bool" where
  "slh_verify_opcode_runs_metered P pk sig =
     (let message = ascii ''quantova slh metered'';
          region = pk @ sig @ message in
      run_verify P ''VERIFYSLH'' region (\<lambda>result meter.
        result = 1 \<and> meter = verify_meter OpVerifySlh (message_variable (of_nat (length message)))))"

definition hand_assembled_hash_and_verify_runs_metered :: "prims \<Rightarrow> bytes \<Rightarrow> bytes \<Rightarrow> bool" where
  "hand_assembled_hash_and_verify_runs_metered P pk signature =
     (let message = ascii ''quantova hand assembled milestone'';
          region = pk @ signature @ message;
          msg_off = p_ml_pk_bytes P + p_ml_sig_bytes P;
          msg_len = length message;
          region_len = length region;
          digest_off = 32768 in
      when_assembled
        [''LDI r0, '' @ show_nat msg_off, ''LDI r1, '' @ show_nat msg_len, ''LDI r2, '' @ show_nat digest_off,
         ''HASH r0, r1, r2'', ''MLOAD r6, r2'', ''LDI r3, 0'', ''LDI r4, '' @ show_nat region_len, ''VERIFYML r3, r4, r5'',
         ''HALT''] (\<lambda>cd.
      halts P (with_memory region (new_interp cd [] 100000)) (\<lambda>out.
        o_regs out ! 5 = 1 \<and>
        expecting (sha3_256 P message) (\<lambda>digest.
          o_regs out ! 6 = from_be (take 8 digest) \<and>
          o_meter_used out =
            5 * cost OpLdi + cost OpHash + hash_variable (of_nat msg_len) + cost OpMLoad + cost OpVerifyMl +
            message_variable (of_nat msg_len) + cost OpHalt))))"

lemmas print_eval = show_instr_def operand_texts_def numbers_of_def reg_text_def show_nat.simps char_of_def bit_0
  unat_size wf_instr_def NUM_REGS_def length_program encoded_lens

lemma sign_sources:
  "n < 65536 \<Longrightarrow> assembles_to [''LDI r0, 0'', ''LDI r1, '' @ show_nat n, ''VERIFYSLH'' @ '' r0, r1, r2'', ''HALT'']
     [Ldi 0 0, Ldi 1 (of_nat n), VerifySlh 0 1 2, Halt]"
  "n < 65536 \<Longrightarrow> k < 65536 \<Longrightarrow> l < 65536 \<Longrightarrow> d < 65536 \<Longrightarrow> assembles_to
     [''LDI r0, '' @ show_nat n, ''LDI r1, '' @ show_nat k, ''LDI r2, '' @ show_nat d,
      ''HASH r0, r1, r2'', ''MLOAD r6, r2'', ''LDI r3, 0'', ''LDI r4, '' @ show_nat l, ''VERIFYML r3, r4, r5'', ''HALT'']
     [Ldi 0 (of_nat n), Ldi 1 (of_nat k), Ldi 2 (of_nat d), Hash 0 1 2, MLoad 6 2, Ldi 3 0, Ldi 4 (of_nat l), VerifyMl 3 4 5,
      Halt]"
  by (intro printed_source; simp add: print_eval)+

text \<open>What is past the header of a region is its message.\<close>

lemma message_length: "a + k < 65536 \<Longrightarrow> saturating_sub (of_nat (a + k)) (of_nat a) = (of_nat k :: u64)"
proof -
  assume "a + k < 65536"
  then have "of_nat a \<le> (of_nat (a + k) :: u64)"
    by (simp add: word_le_nat_alt unat_size del: of_nat_add)
  then show ?thesis
    by (simp add: saturating_sub_def)
qed

lemma slh_program_test:
  assumes "sizes_ok P" and "length pk = p_slh_pk_bytes P" and "length sig = p_slh_sig_bytes P"
    and "p_slh_verify P pk (ascii ''quantova slh metered'') sig VM_VERIFY_CONTEXT = Some True"
  shows "slh_verify_opcode_runs_metered P pk sig"
proof -
  have "length (ascii ''quantova slh metered'') = 20"
    by (simp add: ascii_def)
  moreover from this have "length (pk @ sig @ ascii ''quantova slh metered'') = p_slh_pk_bytes P + p_slh_sig_bytes P + 20"
    using assms(2,3) by simp
  ultimately show ?thesis
    using assms sign_sources(1) [of "p_slh_pk_bytes P + p_slh_sig_bytes P + 20", THEN assembled_listing]
      message_length [of "p_slh_pk_bytes P + p_slh_sig_bytes P" 20]
    by (simp add: slh_verify_opcode_runs_metered_def run_verify_def sizes_ok_def opcode_eval verify_slh_def
        unat_size SLH_DSA_SIGNED_BYTES_def verify_meter_def call_def add.assoc del: of_nat_add saturating_sub_def)
qed

lemma hand_program_test:
  assumes "hash_returns P" and "sizes_ok P" and "length pk = p_ml_pk_bytes P" and "length sig = p_ml_sig_bytes P"
    and "p_ml_degenerate P pk = Some False"
    and "p_ml_verify P pk (ascii ''quantova hand assembled milestone'') sig VM_VERIFY_CONTEXT = Some True"
    and "p_ml_pk_bytes P + p_ml_sig_bytes P + 33 \<le> 32768"
  shows "hand_assembled_hash_and_verify_runs_metered P pk sig"
proof -
  let ?a = "p_ml_pk_bytes P + p_ml_sig_bytes P"
  have "length (ascii ''quantova hand assembled milestone'') = 33"
    by (simp add: ascii_def)
  moreover from this have "length (pk @ sig @ ascii ''quantova hand assembled milestone'') = ?a + 33"
    using assms(3,4) by simp
  ultimately show ?thesis
    using assms sign_sources(2) [of ?a 33 "?a + 33" 32768, THEN assembled_listing]
      message_length [of ?a 33] digest_of_eval [OF assms(1)]
    by (simp add: hand_assembled_hash_and_verify_runs_metered_def sizes_ok_def opcode_eval verify_ml_def
        unat_size ML_DSA_SIGNED_BYTES_def call_def add.assoc del: of_nat_add saturating_sub_def)
qed

end
