(* ===== verification/StateTests.thy ===== *)
theory StateTests
  imports TestRuns
begin

text \<open>
  The unit tests of \<open>state.rs\<close>: the new machine, registers, the limit of the stack and the bounds of
  every access to the memory.
\<close>

definition new_is_zeroed :: bool where
  "new_is_zeroed =
     (let m = new_machine in
      mpc m = 0 \<and> stack m = [] \<and> length (mem m) = MEM_BYTES \<and>
      list_all (\<lambda>w. w = 0) (regs m) \<and> list_all (\<lambda>b. b = 0) (mem m))"

definition registers_round_trip :: bool where
  "registers_round_trip =
     expecting (set_reg new_machine 3 42) (\<lambda>m. reg m 3 = Inr 42 \<and> reg m 4 = Inr 0)"

text \<open>\<open>for i in 0..STACK_LIMIT { assert!(m.push(i as u64)) }\<close>\<close>

fun push_each :: "nat list \<Rightarrow> machine \<Rightarrow> machine option" where
  "push_each [] m = Some m"
| "push_each (i # is) m = (case push m (of_nat i) of (True, m) \<Rightarrow> push_each is m | (False, _) \<Rightarrow> None)"

definition stack_respects_limit :: bool where
  "stack_respects_limit =
     (case push_each [0..<STACK_LIMIT] new_machine of
        None \<Rightarrow> False
      | Some m \<Rightarrow>
          let (pushed, m) = push m 0 in \<not> pushed \<and> map_option fst (pop m) = Some (of_nat (STACK_LIMIT - 1)))"

definition byte_region_round_trip_and_bounds :: bool where
  "byte_region_round_trip_and_bounds =
     (let (written, m) = mem_write new_machine 10 [1, 2, 3, 4] in
      written \<and> mem_region m 10 4 = Some [1, 2, 3, 4] \<and>
      mem_region m 0 (of_nat MEM_BYTES) = Some (mem m) \<and>
      mem_region m (of_nat MEM_BYTES) 1 = None \<and>
      mem_region m 0 (of_nat MEM_BYTES + 1) = None \<and>
      \<not> fst (mem_write m (of_nat MEM_BYTES) [1]) \<and> \<not> fst (mem_write m (- 1) [1]) \<and>
      mem_region m 4 0 = Some [])"

definition memory_round_trip_and_bounds :: bool where
  "memory_round_trip_and_bounds =
     (let (stored, m) = mem_store new_machine 0 72623859790382856 in
      stored \<and> mem_load m 0 = Some 72623859790382856 \<and>
      mem_load m (of_nat (MEM_BYTES - WORD_BYTES + 1)) = None \<and> \<not> fst (mem_store m (- 1) 1))"

lemma push_each_all:
  "length (stack m) + length is \<le> STACK_LIMIT \<Longrightarrow>
     push_each is m = Some (m\<lparr>stack := stack m @ map of_nat is\<rparr>)"
  by (induction "is" arbitrary: m) (simp_all add: push_def)

lemma region_all: "length m = 65536 \<Longrightarrow> window_of m 0 65536 = m" "window_of m q 0 = []"
  by (simp_all add: window_of_def)

lemma state_tests:
  "new_is_zeroed" "registers_round_trip" "stack_respects_limit" "byte_region_round_trip_and_bounds"
  "memory_round_trip_and_bounds"
proof -
  show "new_is_zeroed"
    by (simp add: new_is_zeroed_def new_machine_def list_all_iff)
  show "registers_round_trip"
    by (simp add: registers_round_trip_def new_machine_blank zeros_def set_reg_def reg_def)
  show "stack_respects_limit"
  proof -
    have "push_each [0..<STACK_LIMIT] new_machine = Some (new_machine\<lparr>stack := map of_nat [0..<STACK_LIMIT]\<rparr>)"
      using push_each_all [of new_machine "[0..<STACK_LIMIT]"] by (simp add: new_machine_def)
    then show ?thesis
      by (simp add: stack_respects_limit_def push_def pop_def last_map STACK_LIMIT_def)
  qed
  show "byte_region_round_trip_and_bounds"
    by (simp add: byte_region_round_trip_and_bounds_def new_machine_blank mem_eval length_blank region_write
        region_all MEM_BYTES_def word_eval)
  show "memory_round_trip_and_bounds"
    by (simp add: memory_round_trip_and_bounds_def new_machine_blank mem_eval length_blank region_write
        MEM_BYTES_def WORD_BYTES_def word_eval del: to_be.simps)
qed

end
