(* ===== verification/IsaTests.thy ===== *)
theory IsaTests
  imports AsmTests Container
begin

text \<open>
  The unit tests of \<open>isa.rs\<close>, \<open>meter.rs\<close> and \<open>abi.rs\<close>.  The tests over random bytes are proved for every
  seed and every number of rounds, the tests over samples follow from the general round trip.
\<close>

section \<open>Round trips\<close>

definition the_retired_encapsulation_opcode_does_not_decode :: bool where
  "the_retired_encapsulation_opcode_does_not_decode \<longleftrightarrow>
     from_byte 117 = None \<and> (\<exists>e. assemble (source [''LDI r0, 0'', ''KEM r0, r0, r0'', ''HALT'']) = Inl e)"

definition sample_set :: "Instr list" where
  "sample_set =
     [Halt, Nop, Ret, Mov 1 2, Ldi 3 72623859790382856, Ldc 4 4660, Add 5 6 7, Sub 5 6 7, Mul 5 6 7, Div 5 6 7,
      Rem 5 6 7, AddW 5 6 7, SubW 5 6 7, MulW 5 6 7, MulHi 5 6 7, And 8 9 10, Or 8 9 10, Xor 8 9 10, NotW 8 9,
      Shl 8 9 10, Shr 8 9 10, Eq 11 12 13, LtU 11 12 13, GtU 11 12 13, Push 14, Pop 15, MLoad 0 1, MStore 0 1,
      Jmp 3735928559, Jz 2 12648430, Jnz 2 12648430, Call 4096, SLoad 3 4, SStore 3 4, Send 1 2 3, Emit 1 2 3,
      Hash 1 2 3, VerifyMl 1 2 3, VerifySlh 1 2 3, MerkleVerify 1 2 3, Addr 1 2 3]"

definition round_trip_each_opcode :: bool where
  "round_trip_each_opcode =
     list_all
       (\<lambda>instr. let bytes = encode instr in
          length bytes = encoded_len instr \<and>
          (case decode bytes 0 of
             Inl _ \<Rightarrow> False
           | Inr (decoded, used) \<Rightarrow> decoded = instr \<and> used = length bytes \<and> opcode decoded = opcode instr))
       sample_set"

text \<open>The loop of \<open>round_trip_within_stream\<close>, from the position it has reached.\<close>

fun decodes_in_turn :: "bytes \<Rightarrow> nat \<Rightarrow> Instr list \<Rightarrow> bool" where
  "decodes_in_turn bytes pc [] \<longleftrightarrow> pc = length bytes"
| "decodes_in_turn bytes pc (instr # instrs) \<longleftrightarrow>
     (case decode bytes pc of
        Inl _ \<Rightarrow> False
      | Inr (decoded, used) \<Rightarrow> decoded = instr \<and> decodes_in_turn bytes (pc + used) instrs)"

definition round_trip_within_stream :: bool where
  "round_trip_within_stream \<longleftrightarrow> decodes_in_turn (concat (map encode sample_set)) 0 sample_set"

lemma decodes_in_turn_program:
  "list_all wf_instr is \<Longrightarrow> decodes_in_turn (pre @ bytes_of is) (length pre) is"
proof (induction "is" arbitrary: pre)
  case (Cons i "is")
  then show ?case
    using decode_encode [of i pre "bytes_of is"] Cons.IH [of "pre @ encode i"] by (simp add: encoded_len_def)
qed simp

lemma sample_set_wf: "list_all wf_instr sample_set"
  by (simp add: sample_set_def wf_instr_def NUM_REGS_def)

lemma round_trip_tests:
  "the_retired_encapsulation_opcode_does_not_decode" "round_trip_each_opcode" "round_trip_within_stream"
proof -
  show "the_retired_encapsulation_opcode_does_not_decode"
    unfolding the_retired_encapsulation_opcode_does_not_decode_def
    by (simp add: parse_eval) code_simp
  have "decode (encode i) 0 = Inr (i, length (encode i))" if "wf_instr i" for i
    using decode_encode [OF that, of "[]" "[]"] by (simp add: encoded_len_def)
  then show "round_trip_each_opcode"
    using sample_set_wf by (auto simp: round_trip_each_opcode_def Let_def list_all_iff encoded_len_def)
  show "round_trip_within_stream"
    using decodes_in_turn_program [OF sample_set_wf, of "[]"] by (simp add: round_trip_within_stream_def)
qed

section \<open>Bytes that are not instructions\<close>

definition unknown_opcode_faults :: bool where
  "unknown_opcode_faults \<longleftrightarrow> decode [255] 0 = Inl (UnknownOpcode 255)"

definition truncated_faults :: bool where
  "truncated_faults \<longleftrightarrow> decode [op_byte OpAdd, 1, 2] 0 = Inl Truncated \<and> decode [] 0 = Inl Truncated"

definition bad_register_faults :: bool where
  "bad_register_faults \<longleftrightarrow> decode [op_byte OpMov, 16, 0] 0 = Inl (BadRegister 16)"

lemma bad_bytes_tests: "unknown_opcode_faults" "truncated_faults" "bad_register_faults"
  unfolding unknown_opcode_faults_def truncated_faults_def bad_register_faults_def by code_simp+

section \<open>Hostile input\<close>

definition xorshift :: "u64 \<Rightarrow> u64" where
  "xorshift s =
     (let s = s XOR push_bit 13 s; s = s XOR drop_bit 7 s; s = s XOR push_bit 17 s in s)"

text \<open>\<open>for byte in code.iter_mut()\<close>\<close>

fun hostile_bytes :: "nat \<Rightarrow> u64 \<Rightarrow> bytes \<times> u64" where
  "hostile_bytes 0 s = ([], s)"
| "hostile_bytes (Suc n) s =
     (let s = xorshift s; (bs, t) = hostile_bytes n s in (ucast (s AND 0xFF) # bs, t))"

text \<open>The body of the loop: what the test asserts of one input.\<close>

definition hostile_ok :: "bytes \<Rightarrow> nat \<Rightarrow> bool" where
  "hostile_ok cd pc =
     (case decode cd pc of
        Inl _ \<Rightarrow> True
      | Inr (instr, used) \<Rightarrow>
          used > 0 \<and> (case usize_add pc used of None \<Rightarrow> False | Some stop \<Rightarrow> stop \<le> length cd) \<and>
          list_all (\<lambda>r. unat r < NUM_REGS) (registers_of instr))"

fun hostile_rounds :: "nat \<Rightarrow> u64 \<Rightarrow> bool" where
  "hostile_rounds 0 s = True"
| "hostile_rounds (Suc n) s =
     (let s = xorshift s; (cd, s) = hostile_bytes (unat (s mod 24)) s;
          (pc, s) = (if cd = [] then (0, s) else (let s = xorshift s in (unat s mod length cd, s))) in
      hostile_ok cd pc \<and> hostile_rounds n s)"

definition decoding_arbitrary_bytes_never_panics_and_never_yields_a_bad_register :: bool where
  "decoding_arbitrary_bytes_never_panics_and_never_yields_a_bad_register \<longleftrightarrow>
     hostile_rounds 300000 0x9E3779B97F4A7C15"

definition a_register_past_the_file_is_refused_at_every_operand_position :: bool where
  "a_register_past_the_file_is_refused_at_every_operand_position =
     list_all (\<lambda>op. list_all
         (\<lambda>bad. case decode (of_nat op # replicate 7 bad) 0 of
            Inl _ \<Rightarrow> True
          | Inr (instr, _) \<Rightarrow> list_all (\<lambda>r. unat r < NUM_REGS) (registers_of instr))
         [of_nat NUM_REGS, 200, 255])
       [0..<256]"

lemma hostile_ok_always:
  assumes "length cd < 2 ^ 64"
  shows "hostile_ok cd pc"
proof (cases "decode cd pc")
  case (Inr r)
  then obtain i n where d: "decode cd pc = Inr (i, n)"
    by (cases r) simp
  note f = decodeD [OF d]
  have "usize_add pc n = Some (pc + n)"
    using f(5) assms unfolding usize_add_def by simp
  then show ?thesis
    using f(1,3,5) d by (simp add: hostile_ok_def wf_instr_def)
qed (simp add: hostile_ok_def)

lemma length_hostile_bytes: "length (fst (hostile_bytes n s)) = n"
  by (induction n arbitrary: s) (simp_all add: Let_def split_def)

text \<open>The random test passes whatever its seed and its number of rounds.\<close>

lemma hostile_rounds_pass: "hostile_rounds n s"
proof (induction n arbitrary: s)
  case (Suc n)
  let ?n = "unat (xorshift s mod 24)" and ?bs = "fst (hostile_bytes (unat (xorshift s mod 24)) (xorshift s))"
  have "length ?bs < 2 ^ 64"
    unfolding length_hostile_bytes using unat_bound [of "xorshift s mod 24"] by simp
  then have "hostile_ok ?bs pc" for pc
    by (rule hostile_ok_always)
  then show ?case
    using Suc.IH by (simp add: Let_def split_def)
qed simp

lemma hostile_tests:
  "decoding_arbitrary_bytes_never_panics_and_never_yields_a_bad_register"
  "a_register_past_the_file_is_refused_at_every_operand_position"
proof -
  show "decoding_arbitrary_bytes_never_panics_and_never_yields_a_bad_register"
    unfolding decoding_arbitrary_bytes_never_panics_and_never_yields_a_bad_register_def
    by (rule hostile_rounds_pass)
  show "a_register_past_the_file_is_refused_at_every_operand_position"
    unfolding a_register_past_the_file_is_refused_at_every_operand_position_def
    by (auto simp: list_all_iff wf_instr_def split: sum.split prod.split dest!: decodeD(1))
qed

end
