(* ===== verification/Conformance.thy ===== *)
theory Conformance
  imports InterpTests EntryTests PriceTests PathTests FloodTests KeyFloods SignTests StateTests IsaTests MeterTests Fuzz
begin

text \<open>
  The unit tests together: lists of those that pass for all primitives, for primitives whose hash returns
  and tells the inputs of a test apart, and for keys and signatures of the sizes of the external crate.
  The tests that take a key, a signature or digests of their own have their lemmas in \<open>CryptoTests\<close>,
  \<open>OpcodeTests\<close>, \<open>PathTests\<close>, \<open>EntryTests\<close> and \<open>SignTests\<close>.
\<close>

section \<open>The tests of the harness\<close>

definition batch_never_panics :: "prims \<Rightarrow> bool" where
  "batch_never_panics P \<longleftrightarrow> run_batch P 72623859790382856 5000 = Inr ()"

definition batch_is_deterministic_across_seeds :: "prims \<Rightarrow> bool" where
  "batch_is_deterministic_across_seeds P \<longleftrightarrow>
     run_batch P 1 500 = Inr () \<and> run_batch P 2 500 = Inr () \<and> run_batch P (- 1) 500 = Inr ()"

definition crypto_batch_never_panics :: "prims \<Rightarrow> bool" where
  "crypto_batch_never_panics P \<longleftrightarrow> run_crypto_batch P 1311768467463790320 256 = Inr ()"

lemma harness_tests:
  "batch_never_panics P" "batch_is_deterministic_across_seeds P" "crypto_batch_never_panics P"
  by (simp_all add: batch_never_panics_def batch_is_deterministic_across_seeds_def crypto_batch_never_panics_def
      batches_pass)

section \<open>A hash for the examples\<close>

text \<open>The length of the input in the first four bytes of the digest; of two words, the second one.\<close>

definition length_prims :: prims where
  "length_prims = sample_prims\<lparr>p_sha3_256 :=
     \<lambda>bs. Some (if length bs = 16 then ucast (from_be (drop 8 bs) :: u64) else push_bit 224 (of_nat (length bs)))\<rparr>"

lemma length_hash: "hash_returns length_prims"
  by (simp add: hash_returns_def length_prims_def)

lemma length_selector:
  "length x \<noteq> 16 \<Longrightarrow> selector length_prims x = Inr (take 4 (digest_bytes (push_bit 224 (of_nat (length x)))))"
  by (simp add: selector_def sha3_256_def call_def length_prims_def SELECTOR_BYTES_def)

lemma length_digests:
  "map (\<lambda>n. take 4 (digest_bytes (push_bit 224 (of_nat n)))) [4, 5, 6, 7, 8, 9, 10] =
     map (\<lambda>n. [0, 0, 0, n]) [4, 5, 6, 7, 8, 9, 10]"
  by code_simp

lemma length_rows: "distinct_rows length_prims"
proof -
  have "row length_prims n = digest_bytes (ucast (of_nat n :: u64))" for n
    by (simp add: row_def digest_of_def length_prims_def word_eval del: to_be.simps)
  moreover have "m = n" if "m \<le> 16384" "n \<le> 16384" "(of_nat m :: u64) = of_nat n" for m n
    using that by (simp add: word_unat_eq_iff unat_of_nat)
  moreover have "take_bit 256 (unat w) = unat w" for w :: u64
    using unat_bound [of w] by (simp add: take_bit_nat_eq_self)
  then have "u = v" if "digest_bytes (ucast u) = digest_bytes (ucast v)" for u v :: u64
    using that by (simp add: word_unat_eq_iff unsigned_ucast_eq)
  ultimately show ?thesis
    by (auto simp: distinct_rows_def inj_on_def)
qed

section \<open>The tests\<close>

text \<open>The test names with selectors of their own.\<close>

definition test_selectors :: "prims \<Rightarrow> bool" where
  "test_selectors P \<longleftrightarrow>
     list_all (own_selectors P)
       [[''store()'', ''look()''], [''jump()'', ''go()''], [''alpha()'', ''beta()'', ''missing()''],
        [''touch()''], [''run()''], [''credit()'']]"

lemma length_test_selectors: "test_selectors length_prims"
  using length_digests
  by (simp add: test_selectors_def own_selectors_def length_selector ascii_def GENESIS_SIGNATURE_def)
    (auto simp: Cons_eq_map_conv)

text \<open>Tests that run no program, tests for all primitives, tests that hash, and tests on the sizes of keys.\<close>

definition closed_tests :: "bool list" where
  "closed_tests =
     [verify_rejects_too_many_entries, a_panicking_crypto_call_is_caught_and_mapped_to_a_fault, unknown_mnemonic_errors, bad_register_errors, unknown_label_errors,
      a_wide_divide_round_trips_through_encoding, the_retired_encapsulation_opcode_does_not_decode,
      round_trip_each_opcode, round_trip_within_stream, unknown_opcode_faults, truncated_faults,
      bad_register_faults, decoding_arbitrary_bytes_never_panics_and_never_yields_a_bad_register,
      a_register_past_the_file_is_refused_at_every_operand_position,
      a_full_block_of_fresh_leaves_roots_inside_its_budget,
      the_crypto_opcodes_charge_at_least_the_cpu_they_burn, a_durable_event_byte_costs_what_a_code_byte_costs,
      a_full_block_of_event_records_stays_bounded,
      a_dispatch_of_the_largest_contract_costs_more_than_a_slot_write,
      one_transaction_cannot_buy_more_fresh_accounts_than_the_meter_pays_for,
      a_whole_block_of_keyed_slots_stays_within_reach_of_the_root_recompute,
      a_keyed_slot_costs_more_than_the_opcode_that_writes_it,
      the_free_instruction_check_walks_every_instruction_in_the_isa, only_halt_is_free,
      scheme_identifiers_are_the_ones_the_opcodes_dispatch_on, new_is_zeroed, registers_round_trip,
      stack_respects_limit, byte_region_round_trip_and_bounds, memory_round_trip_and_bounds]"

definition plain_tests :: "(prims \<Rightarrow> bool) list" where
  "plain_tests =
     [halts_cleanly, missing_halt_faults, computes_value_and_reports_meter, out_of_meter_faults,
      loads_from_constant_pool, a_constant_index_past_the_pool_faults, jump_out_of_range_faults,
      clean_run_records_no_effects, single_entry_path_enters_at_offset_zero, divw_divides_a_full_wide_value,
      divw_keeps_a_quotient_that_needs_both_words, remw_gives_the_wide_remainder,
      a_wide_divide_by_zero_faults_rather_than_wrapping, mulhi_gives_the_high_half, overflow_faults,
      divide_by_zero_faults, wrapping_add_wraps, logic_and_shift, shift_amount_is_masked,
      compare_produces_flags, stack_push_pop, pop_empty_faults, memory_store_then_load,
      memory_out_of_bounds_faults, backward_branch_loop, call_and_return,
      reading_a_slot_never_makes_it_look_written, a_fetched_slot_is_counted_so_a_read_is_never_free,
      a_slot_is_fetched_on_demand_and_only_writes_are_reported_dirty, storage_store_then_load,
      keys_differing_past_the_leading_word_do_not_share_a_slot, fault_rolls_back_storage,
      out_of_meter_rolls_back_storage, send_records_transfer_effect, send_out_of_bounds_target_faults,
      emit_records_event_effect, emit_out_of_bounds_payload_faults,
      emit_charges_per_byte_and_a_small_event_is_priced_sanely,
      emit_loop_runs_out_of_meter_at_the_proportional_cost,
      emit_loop_over_full_memory_faults_at_the_effects_cap,
      a_flood_of_empty_events_is_bounded_by_the_effects_memory_cap, empty_events_up_to_the_cap_still_succeed,
      an_over_cap_emit_surfaces_no_effects_and_rolls_back_state,
      send_charges_per_byte_and_is_bounded_by_the_effects_cap, a_single_recipient_is_not_charged_a_fresh_leaf,
      a_second_distinct_recipient_pays_a_fresh_leaf, a_minted_holder_past_the_first_pays_a_fresh_leaf,
      a_send_and_a_mint_to_one_id_each_pay_for_their_own_leaf, repaying_the_same_recipient_is_charged_once,
      an_event_selector_wider_than_four_bytes_faults_under_current_rules, assembles_and_computes,
      hex_immediate, labels_resolve_for_loops, batch_never_panics, batch_is_deterministic_across_seeds,
      crypto_batch_never_panics]"

definition hashing_tests :: "(prims \<Rightarrow> bool) list" where
  "hashing_tests =
     [a_declared_map_base_authorises_its_whole_keyspace, an_undeclared_map_still_faults_on_a_keyed_write,
      verify_accepts_a_well_formed_container, verify_rejects_a_jump_into_the_middle_of_an_instruction,
      verify_rejects_an_entry_offset_off_a_boundary, verify_rejects_a_truncated_tail,
      verify_rejects_oversize_code, verify_rejects_an_oversize_constant_pool,
      verify_rejects_a_const_index_past_the_pool, verify_rejects_an_access_list_past_the_bound,
      verify_accepts_an_access_list_at_the_bound, verify_rejects_duplicate_selectors,
      a_dispatched_entry_may_only_write_declared_slots, a_dispatched_entry_may_only_read_declared_slots,
      a_computed_jump_off_a_boundary_faults_under_dispatch,
      a_call_and_return_between_boundaries_still_runs_under_dispatch, dispatch_enters_entry_named_by_selector,
      unknown_selector_reverts, dispatch_over_the_limit_runs_out_of_meter,
      reading_an_existing_keyed_row_is_priced_as_a_read,
      a_fresh_keyed_row_pays_the_leaf_price_once_and_an_existing_row_does_not,
      the_genesis_entry_opens_only_through_for_genesis_and_duplicate_selectors_are_refused,
      hash_reproduces_the_crypto_crate_digest, hash_of_empty_region_is_defined,
      hash_rejects_out_of_bounds_output, merkle_verify_accepts_valid_and_rejects_tampered,
      merkle_verify_rejects_misshaped_region, merkle_verify_rejects_a_zero_length_path,
      merkle_verify_opcode_runs_metered, a_merkle_index_past_the_path_depth_does_not_verify,
      a_merkle_path_deeper_than_the_index_can_address_is_refused,
      hash_opcode_runs_metered, a_hash_scales_with_the_length_it_absorbs,
      a_hash_loop_over_full_memory_runs_out_of_meter,
      one_transaction_cannot_buy_more_keyed_slots_than_the_meter_pays_for,
      the_keyed_authorization_sets_are_bounded_and_fault_when_flooded]"

definition sized_tests :: "(prims \<Rightarrow> bool) list" where
  "sized_tests = [verify_ml_rejects_short_region, verify_slh_rejects_short_region,
     a_region_too_short_for_the_public_key_faults]"

section \<open>They pass\<close>

lemma firewall_test: "a_panicking_crypto_call_is_caught_and_mapped_to_a_fault"
  using opcode_tests(3) [OF length_hash] .

lemma too_many_test: "verify_rejects_too_many_entries"
  using verify_tests [OF length_hash] by simp

lemma closed_tests_pass: "list_all id closed_tests"
  by (simp add: closed_tests_def too_many_test firewall_test asm_error_tests wide_round_trip_test round_trip_tests
      bad_bytes_tests hostile_tests budget_tests free_tests abi_test state_tests)

lemma plain_tests_pass: "list_all (\<lambda>test. test P) plain_tests"
  by (simp add: plain_tests_def halting_tests arithmetic_tests control_tests read_tests write_tests keys_test
      rollback_tests send_tests event_tests emit_cap_test rollback_cap_test send_cap_test price_tests
      wide_event_test flood_tests asm_run_tests harness_tests)

lemma sized_tests_pass: "sizes_ok P \<Longrightarrow> list_all (\<lambda>test. test P) sized_tests"
  by (simp add: sized_tests_def sizes_ok_def verify_ml_rejects_short_region_def verify_slh_rejects_short_region_def
      a_region_too_short_for_the_public_key_faults_def verify_ml_def verify_slh_def address_def machine_eval MEM_BYTES_def
      unat_size)

lemma hashing_tests_pass:
  assumes "hash_returns P" and "test_selectors P" and "distinct_rows P"
  shows "list_all (\<lambda>test. test P) hashing_tests"
proof -
  note s = assms(2) [unfolded test_selectors_def list.pred_inject]
  obtain d where "p_sha3_256 P (keyed_memory (push_bit 40 1)) = Some d"
    using assms(1) by (auto simp: hash_returns_def)
  note keyed = keyed_tests(1,2) [OF _ this]
  show ?thesis
    using s by (simp add: hashing_tests_def keyed verify_tests [OF assms(1)] hash_tests [OF assms(1)]
        merkle_tests [OF assms(1)] merkle_program_tests [OF assms(1)] opcode_tests(1,2) [OF assms(1)]
        deep_path_test [OF assms(1)] hash_loop_test [OF assms(1)] key_flood_tests [OF assms(1,3)]
        slot_tests control_flow_tests dispatch_tests row_tests [OF _ assms(1)] genesis_test)
qed

lemma length_prims_pass: "list_all (\<lambda>test. test length_prims) hashing_tests"
  by (rule hashing_tests_pass [OF length_hash length_test_selectors length_rows])

end
