(* ===== verification/Spec2Isabelle.thy ===== *)
theory Spec2Isabelle
  imports Meter Raise History Assembly StubReport Isolation Fuzz EntryFuzz Conformance
begin

text \<open>
  A verification development of the Quantova virtual machine, the crate \<open>crates/qtv-vm\<close>.

  The program.  A container (\<open>container.rs\<close>) holds bytecode, a constant pool and entries with
  a selector, an offset and the slots they declare.  The verifier checks it once at deploy; a host
  then opens an entry as an interpreter (\<open>interp.rs\<close>) under a meter limit, with its storage, a
  loader of slots it has not sent and the call's memory, and runs it.  The loop decodes the
  instruction at the program counter (\<open>isa.rs\<close>), charges its price (\<open>meter.rs\<close>) and executes it on
  the registers, the stack and the memory (\<open>state.rs\<close>); cryptographic opcodes (\<open>crypto.rs\<close>) call an
  external crate behind a firewall that turns a panic into a fault.  The outcome is the registers,
  the storage, the dirty slots and the effects for the host to apply.  A program aborts by a stub
  that leaves a reason and divides by zero; \<open>abort.rs\<close> rewrites the stubs of a program into halts,
  so that a second run of a failed call reports its reason.  \<open>asm.rs\<close> assembles the text syntax.
  The crate \<open>fuzz\<close> drives the interpreter with random programs and generated containers.

  The model, in the order of the code.
  \<^item> \<open>Prelude\<close>: results as sums (\<open>bindE\<close> is the \<open>?\<close> operator), checked and saturating machine
    integers, slices, big-endian words, injective encodings (locale \<open>prefix_code\<close> and its instances).
  \<^item> \<open>Isa\<close>: \<open>OpCode\<close>, \<open>Instr\<close>, \<open>encode\<close>, the cursor and \<open>decode\<close>.  \<open>Meter\<close>: prices.  \<open>Faults\<close>: the
    faults of \<open>interp.rs\<close>; a Rust panic is the value \<open>Panic\<close>, so its absence is a theorem.
  \<^item> \<open>MachineState\<close>: the record \<open>machine\<close> of \<open>state.rs\<close>, its memory under the contract of the locale \<open>region_memory\<close>.  \<open>Crypto\<close>: \<open>crypto.rs\<close> over the record
    \<open>prims\<close> of the external primitives.  \<open>Listing\<close>: the walks over the code of \<open>interp.rs\<close> and \<open>abort.rs\<close>.
  \<^item> \<open>Container\<close>: serialisation, identifier, \<open>verify\<close>.  \<open>Interp\<close>: the record \<open>interp\<close>, its
    constructors, its charges, every arm of \<open>step\<close> and \<open>turn\<close>, the body of the loop.  \<open>Run\<close>: \<open>run\<close>, the
    loop itself, total because each turn that goes on pays at least one unit of the limit.
  \<^item> \<open>Abort\<close>: the rules, the abort codes and \<open>halting_stubs\<close>.  \<open>Asm\<close>: the assembler.
  \<^item> \<open>Draws\<close>: generators as functions of their source of randomness.  \<open>Fuzz\<close>: \<open>fuzz/src/lib.rs\<close>, the seeded
    batches.  \<open>EntryFuzz\<close>: \<open>fuzz_targets/entry_path.rs\<close> over the record \<open>entropy\<close> of the crate \<open>arbitrary\<close>.
    Both end with the proof that their assertions cannot fail.
  \<^item> \<open>InterpTests\<close>, \<open>StorageTests\<close>, \<open>EffectTests\<close>, \<open>PriceTests\<close>, \<open>EntryTests\<close>, \<open>OpcodeTests\<close>, \<open>PathTests\<close>,
    \<open>FloodTests\<close>, \<open>KeyFloods\<close>, \<open>SignTests\<close>, \<open>CryptoTests\<close>, \<open>StateTests\<close>, \<open>IsaTests\<close>, \<open>MeterTests\<close>,
    \<open>ContainerTests\<close>, \<open>AsmTests\<close>: the unit tests of the modules, each the predicate that the test passes,
    under the name it has in the code.

  The proofs.
  \<^item> \<open>Steps\<close> and \<open>Reach\<close>: what each instruction changes, the relation \<open>turns\<close> of reached states and the
    locale \<open>run_invariant\<close>, whose contract is that the head of the loop, an instruction and a jump keep
    a predicate.  Its interpretations are the shape of the machine (\<open>Reach\<close>), the ledger of paid effects
    (\<open>Ledger\<close>, through the locale \<open>host_invariant\<close>), the position of the program counter (\<open>Safety\<close>), and
    the caches and the declared writes (\<open>StorageView\<close>).
  \<^item> \<open>Safety\<close>: which faults each instruction can end with, and that verified code has no static ones.
    \<open>StorageView\<close>: written, cached and fetched slots refine one map.  \<open>WideArith\<close>: arithmetic in
    numbers.  \<open>Hosting\<close>: the states a host can start from.  \<open>Samples\<close>: a worked run.
  \<^item> \<open>Simulation\<close>: the locale \<open>run_simulation\<close> of runs mapped turn by turn, with two interpretations,
    the rewriting of stubs (\<open>StubRuns\<close>) and a higher limit (\<open>Raise\<close>), and the locale \<open>run_bisimulation\<close>
    of runs related turn by turn, interpreted in \<open>Isolation\<close>.
  \<^item> \<open>Frames\<close>: the locales \<open>reframing\<close> and \<open>code_reframing\<close> of maps of states that change only what an
    operation does not look at, so that it commutes with them; interpreted for another code in
    \<open>Stubs\<close> and for another storage in \<open>Isolation\<close>.
  \<^item> \<open>Isolation\<close>: a run depends on the host's storage only through the slots its manifest lets it read.
  \<^item> \<open>History\<close>: what a run has recorded for the host only grows.
  \<^item> \<open>Raise\<close>: a run that does not run out of meter is the same under a higher limit.
  \<^item> \<open>Stubs\<close>, \<open>StubRuns\<close>, \<open>StubReport\<close>: a run on rewritten code goes in lockstep with the original up to
    the stub, where one faults and the other halts with the reason; a rewritten container still verifies.
  \<^item> \<open>AsmPasses\<close>, \<open>AsmText\<close>, \<open>Assembly\<close>: the two passes against the specification \<open>laid_out\<close>, a printer
    of programs and the round trip, errors and labels.
  \<^item> \<open>TestRuns\<close>: runs by evaluation over the listing of a program; with it the lemmas of the test
    theories show that the model passes the tests, and \<open>Conformance\<close> collects those without arguments of their own.  \<open>Loops\<close>: the locale
    \<open>counted_loop\<close> of programs whose passes keep an invariant indexed by their number, interpreted for the
    loops of \<open>FloodTests\<close> and \<open>KeyFloods\<close>, which run for tens of thousands of turns.
  \<^item> This theory: the properties of a whole run.

  Properties that concern a run quantify over every start of \<open>host_start\<close> (all public constructors
  and builders), every code and every behaviour of the primitives.  No fuel is used: \<open>run\<close>
  terminates by the measure \<open>meter_limit - meter_used\<close>.  Integers have the width of the source,
  \<open>usize\<close> 64 bits; memory and code are byte lists; storage and caches are finite maps.

  Not modelled.  The primitives of the Q-Crypto crate, which are parameters; source texts with code
  points from 256 up; \<open>HashMap\<close> iteration orders, which nothing observes; the bytes
  behind the crate \<open>arbitrary\<close>, a parameter; the tests whose result is a statement about the
  external crate alone; \<open>with_legacy_rules\<close> is modelled but, as in the crate,
  no host start uses it.
\<close>

section \<open>Safety of a run\<close>

text \<open>C1. No run panics: from every state a host can build, over arbitrary code and arbitrary
  primitives (which may themselves panic), \<open>run\<close> returns an outcome or a fault.\<close>

theorem run_never_panics:
  assumes "host_start P s"
  shows "run P s \<noteq> Inl Panic"
  using assms by (intro run_not_Panic host_start_fresh)

lemma run_never_panics_witness:
  "run sample_prims (with_memory [1, 2] (for_unchecked_program [0x40, 0, 0, 0, 0] [] 1000)) \<noteq> Inl Panic"
  by (intro run_never_panics host_start.intros)

text \<open>C31. The shape of the machine: at every turn of every run it has sixteen registers, at most
  the limit of words on its stack and the whole memory, and runs the code, the constants, the
  jump targets and the manifest it started with, under the limit it started with.\<close>

theorem machine_shape:
  assumes "host_start P s" and "turns P s n t"
  shows "length (regs (machine t)) = 16 \<and> length (stack (machine t)) \<le> STACK_LIMIT \<and>
     length (mem (machine t)) = MEM_BYTES \<and> code t = code s \<and> consts_pool t = consts_pool s \<and>
     bounds t = boundaries (code s) \<and> manifest t = manifest s \<and> meter_limit t = meter_limit s"
  using host_turns(1,5) [OF assms] by (simp add: wf_interp_def wf_machine_def NUM_REGS_def grows_defs)

lemma machine_shape_witness:
  "length (regs (machine at_halt)) = 16 \<and> length (stack (machine at_halt)) \<le> STACK_LIMIT \<and>
     bounds at_halt = boundaries (code sample_start)"
  using machine_shape [OF sample_host sample_turns(2)] by blast

text \<open>C2. Every run terminates within its budget: it ends, with the result \<open>run\<close> gives, after at
  most as many turns as there are units left on the meter.\<close>

theorem run_within_budget:
  "\<exists>n t. turns P s n t \<and> n \<le> unat (meter_limit s) - unat (meter_used s) \<and>
     turn P t = (case run P s of Inl e \<Rightarrow> Inl e | Inr out \<Rightarrow> Inr (Inl out))"
proof -
  obtain n t where t: "turns P s n t"
    and stop: "case run P s of Inl e \<Rightarrow> turn P t = Inl e | Inr out \<Rightarrow> turn P t = Inr (Inl out)"
    using run_turns by blast
  have "n \<le> unat (meter_limit s) - unat (meter_used s)"
    using turns_budget [OF t] by (cases "n = 0") (auto simp: grows_defs word_le_nat_alt)
  then show ?thesis
    using t stop by (cases "run P s") auto
qed

text \<open>C3. What a successful run leaves behind has been paid for: beyond what opening the entry
  cost, the meter covers every effect by the byte, every event record beyond the fourth, every
  durable target beyond the first and every dirty slot beyond the eighth; and it is within
  the limit.\<close>

theorem outcome_is_paid:
  assumes "host_start P s" and "run P s = Inr out"
  shows "unat (meter_used s) + effects_price (o_effects out) + dirty_price (o_dirty out) \<le> unat (o_meter_used out) \<and>
    o_meter_used out \<le> meter_limit s"
  using assms
proof (rule host_outcome)
  fix t
  assume "paid_up (unat (meter_used s)) t" and "grows s t" and "meter_used t \<le> meter_limit t" and "out = outcome_of t"
  then show ?thesis
    by (auto simp: paid_up_def owed_def outcome_of_def grows_defs)
qed

lemma outcome_is_paid_witness:
  "run sample_prims sample_start = Inr sample_out \<and> 175 + dirty_price {|scalar_key 2|} \<le> 678"
  using outcome_is_paid [OF sample_host sample_run] sample_run
  by (simp add: sample_fields sample_out_def)

text \<open>C16. What a run makes the host hold is bounded at every turn: the effects with their records
  by a mebibyte, the authorised keys by another, and each authorised key has been paid.\<close>

theorem host_data_bounded:
  assumes "host_start P s" and "turns P s n t"
  shows "retained (effects t) \<le> 2 ^ 20 \<and>
    32 * (fcard (keyed_authorized_reads t) + fcard (keyed_authorized_writes t)) \<le> 2 ^ 20 \<and>
    unat (meter_used s) + keyed_price t \<le> unat (meter_used t)"
  using host_turns(2) [OF assms] effects_cap
  by (auto simp: paid_up_def ledger_def owed_def word_le_nat_alt)

lemma host_data_bounded_witness: "turns sample_prims sample_start 3 at_halt \<and> retained (effects at_halt) \<le> 2 ^ 20"
  using host_data_bounded [OF sample_host sample_turns(2)] sample_turns(2) by simp

text \<open>C4. Storage is confined: a slot whose stored value differs after a run is in the reported
  dirty set, and under a manifest every dirty slot is declared written or is the digest of an
  input that starts with a declared keyed base.\<close>

theorem writes_confined:
  assumes "host_start P s" and "run P s = Inr out"
    and "fmlookup (o_storage out) key \<noteq> fmlookup (storage s) key"
  shows "key |\<in>| o_dirty out \<and>
    (case manifest s of None \<Rightarrow> True
     | Some man \<Rightarrow> can_write man key \<or> derived P (m_keyed_writes man) key)"
  using assms(1,2)
proof (rule host_outcome)
  fix t
  assume "confined P s t" and "out = outcome_of t"
  moreover from this have "key |\<in>| dirty t"
    using assms(3) by (simp add: confined_def outcome_of_def)
  ultimately show ?thesis
    by (cases "manifest s") (simp_all add: confined_def outcome_of_def, blast)
qed

lemma writes_confined_witness:
  "fmlookup (o_storage sample_out) (scalar_key 2) = Some 5 \<and> scalar_key 2 |\<in>| o_dirty sample_out"
  using writes_confined [OF sample_host sample_run, of "scalar_key 2"]
  by (simp add: sample_fields sample_out_def)

section \<open>Verified containers\<close>

lemma entry_turns:
  assumes "verify c = Inr ()" and "open_entry c sel limit = Inr s" and "turns P (hosted st f data s) n t"
  shows "verified t" and "ledger t" and "code t = c_code c"
proof -
  let ?s = "hosted st f data s"
  have v: "verified ?s" and code: "code ?s = c_code c"
    using entered_verified [of c sel limit s] assms(1,2) by (simp_all add: verify_iff)
  then show "verified t"
    using verified_turns assms(3) by blast
  have "fresh_start ?s"
    using entry_starts_fresh(1) [OF assms(2)] by (simp add: hosted_def)
  then have "wf_interp ?s \<and> paid_up (unat (meter_used ?s)) ?s"
    using fresh_paid_up [of ?s] by (simp add: fresh_start_def)
  then show "ledger t"
    using paid.turns_keep [OF assms(3)] by (auto simp: paid_up_def)
  show "code t = c_code c"
    using turns_budget [OF assms(3)] code by (simp add: grows_defs)
qed

text \<open>C6. A verified container keeps its promise at run time: an entry of it, whatever storage,
  loader and memory the host adds, never faults for a missing constant, an undecodable
  instruction or a bad static jump.  A fault of decoding can only be running off the end of the
  code, and a bad jump can only be a return.\<close>

theorem verified_run_faults:
  assumes "verify c = Inr ()" and "open_entry c sel limit = Inr s"
    and "turns P (hosted st f data s) n t" and "turn P t = Inl (Fault e)"
  shows "e \<noteq> BadConst \<and>
    (\<forall>d. e = DecodeFault d \<longrightarrow> d = Truncated \<and> unat (mpc (machine t)) = length (c_code c)) \<and>
    (e = BadJump \<longrightarrow> (\<exists>n. decode (c_code c) (unat (mpc (machine t))) = Inr (Ret, n)))"
proof -
  note v = entry_turns [OF assms(1-3)]
  then have "e \<noteq> DecodeFault d" if "e \<in> faults_of i" for d i
    using that by (cases i) (auto simp: faults_of_def)
  then show ?thesis
    using verified_turn_fault [OF v(1,2) assms(4)] v(3) by auto
qed

lemma verified_run_faults_witness:
  "turn sample_prims (hosted fmempty (\<lambda>_. 0) [] (entered sample_container (hd (c_entries sample_container)) 175)) =
     Inl (Fault OutOfMeter) \<and> OutOfMeter \<noteq> BadConst"
  using verified_run_faults [OF sample_verified sample_short_open turns.none sample_short_turn] sample_short_turn
  by simp

text \<open>C9. Control stays on the instructions: at every turn of an entry of a verified container the
  program counter is the start of an instruction, or the end of the code.\<close>

theorem verified_control_flow:
  assumes "verify c = Inr ()" and "open_entry c sel limit = Inr s"
    and "turns P (hosted st f data s) n t"
  shows "instr_start (c_code c) (unat (mpc (machine t))) \<or> unat (mpc (machine t)) = length (c_code c)"
proof -
  have "seq_pc (c_code c) (unat (mpc (machine t)))"
    using entry_turns [OF assms] by (simp add: verified_def on_track_def)
  then show ?thesis
    using seq_from_le_length [of "c_code c" 0 "unat (mpc (machine t))"] by (auto simp: instr_start_def)
qed

lemma verified_control_flow_witness:
  "turns sample_prims sample_start 2 at_store \<and> instr_start (c_code sample_container) 15"
  using verified_control_flow [OF sample_verified sample_open sample_turns(1) [unfolded sample_start_def]]
    sample_turns(1)
  by (simp add: at_store_def sample_parts)

lemma filter_distinct: "distinct (map g xs) \<Longrightarrow> x \<in> set xs \<Longrightarrow> filter (\<lambda>y. g y = g x) xs = [x]"
  by (induction xs) (auto simp: filter_empty_conv image_iff)

lemma open_verified:
  assumes "verify c = Inr ()" and "e \<in> set (c_entries c)"
  shows "open_entry c (e_selector e) limit =
    (if 4 + 9 * length (c_code c) \<le> unat limit then Inr (entered c e limit) else Inl (Fault OutOfMeter))"
proof -
  have wf: "well_formed c"
    using assms(1) by (simp add: verify_iff)
  then have one: "filter (\<lambda>x. e_selector x = e_selector e) (c_entries c) = [e]"
    and d: "declared_slots (e_access e) \<le> MAX_ACCESS_SLOTS" and lim: "in_limits c"
    using assms(2) filter_distinct [of e_selector "c_entries c" e]
    by (auto simp: well_formed_def entries_ok_def in_limits_def)
  have b: "e_offset e |\<in>| boundaries (c_code c)"
    using wf assms(2) boundaries_verified by (auto simp: well_formed_def entries_ok_def)
  show ?thesis
  proof (cases "4 + 9 * length (c_code c) \<le> unat limit")
    case True
    then show ?thesis
      using one d lim b open_entry_Inr_iff [of c "e_selector e" limit "entered c e limit"] by auto
  next
    case False
    then show ?thesis
      using one d lim dispatch_price [of "c_code c"]
      by (simp add: open_entry_def in_limits_def Let_def word_less_nat_alt)
  qed
qed

text \<open>C20. An entry of a verified container opens whenever the limit covers its dispatch, which is
  priced by the byte of code, and then in the state the manifest describes.\<close>

theorem verified_entry_opens:
  assumes "verify c = Inr ()" and "e \<in> set (c_entries c)"
  shows "open_entry c (e_selector e) limit =
    (if 4 + 9 * length (c_code c) \<le> unat limit then Inr (entered c e limit) else Inl (Fault OutOfMeter))"
  by (rule open_verified [OF assms])

lemma verified_entry_opens_witness:
  "open_entry sample_container [1, 2, 3, 4] 174 = Inl (Fault OutOfMeter)"
  using verified_entry_opens [OF sample_verified, of "hd (c_entries sample_container)" 174]
  by (simp add: sample_parts) (simp add: sample_container_def)

text \<open>C34. The genesis entry runs only at deploy: a call with the genesis selector is refused, while
  \<open>for_genesis\<close> opens the entry of that selector, and every other entry opens to a call under its own
  selector, in the state its manifest describes whenever the limit covers the dispatch; a container
  without such an entry has no genesis.\<close>

theorem genesis_closed:
  assumes "selector P GENESIS_SIGNATURE = Inr g" and "verify c = Inr ()"
  shows "for_entry P c g limit = Inl (Fault UnknownSelector) \<and>
    (\<forall>e \<in> set (c_entries c).
       (if e_selector e = g then for_genesis P c limit else for_entry P c (e_selector e) limit) =
       (if 4 + 9 * length (c_code c) \<le> unat limit then Inr (entered c e limit) else Inl (Fault OutOfMeter))) \<and>
    (g \<notin> e_selector ` set (c_entries c) \<longrightarrow> for_genesis P c limit = Inl (Fault UnknownSelector))"
proof (intro conjI ballI impI)
  show "for_entry P c g limit = Inl (Fault UnknownSelector)"
    using assms(1) by (simp add: for_entry_def)
  show "(if e_selector e = g then for_genesis P c limit else for_entry P c (e_selector e) limit) =
      (if 4 + 9 * length (c_code c) \<le> unat limit then Inr (entered c e limit) else Inl (Fault OutOfMeter))"
    if "e \<in> set (c_entries c)" for e
    using assms(1) open_verified [OF assms(2) that] by (auto simp: for_entry_def for_genesis_def)
  show "for_genesis P c limit = Inl (Fault UnknownSelector)" if "g \<notin> e_selector ` set (c_entries c)"
  proof -
    have "filter (\<lambda>e. e_selector e = g) (c_entries c) = []"
      using that by (auto simp: filter_empty_conv)
    moreover have "in_limits c"
      using assms(2) by (simp add: verify_iff well_formed_def in_limits_def)
    ultimately show ?thesis
      using assms(1) by (simp add: for_genesis_def open_entry_def in_limits_def)
  qed
qed

text \<open>The sample with its first entry under the genesis selector.\<close>

definition genesis_sample :: Container where
  "genesis_sample =
     sample_container\<lparr>c_entries := (hd (c_entries sample_container))\<lparr>e_selector := [0, 0, 0, 0]\<rparr> # tl (c_entries sample_container)\<rparr>"

lemma genesis_sample_verified: "verify genesis_sample = Inr ()"
  by (simp add: verify_def genesis_sample_def sample_parts sample_decode verify_code.simps container_limits verify_instr_def)
     (simp add: sample_container_def sample_access_def declared_slots_def container_limits)

lemma genesis_closed_witness:
  "for_entry sample_prims genesis_sample [0, 0, 0, 0] 1000 = Inl (Fault UnknownSelector) \<and>
   for_genesis sample_prims genesis_sample 1000 = Inr (entered genesis_sample (hd (c_entries genesis_sample)) 1000) \<and>
   for_genesis sample_prims sample_container 1000 = Inl (Fault UnknownSelector)"
  using genesis_closed [OF sample_selector genesis_sample_verified, of 1000]
    genesis_closed [OF sample_selector sample_verified, of 1000]
  by (simp add: genesis_sample_def sample_parts) (simp add: sample_container_def)

section \<open>Storage\<close>

text \<open>C8. The interpreter's storage refines a map: at every turn of a run an instruction changes
  what the program sees exactly as a write of its operands to one map does, and a load
  delivers the value of that map, whether the slot was written, cached or is fetched now.\<close>

theorem storage_refines_map:
  assumes "host_start P s" and "turns P s n t" and "fetch t = Inr (i, t0)" and "step P t0 i = Inr (st, t1)"
  shows "view t1 = view_step (view t) (store_operands (machine t0) i) \<and>
    (\<forall>d a. i = SLoad d a \<longrightarrow>
       (\<exists>p key. reg (machine t0) a = Inr p \<and> mem_region (machine t0) p 32 = Some key \<and>
          set_reg (machine t0) d (view t key) = Inr (machine t1)))"
proof -
  have "cache_ok t"
    using host_turns(3) [OF assms(1,2)] .
  then have c: "cache_ok t0" and v: "view t0 = view t"
    using same_storage_view [OF fetch_same_storage [OF assms(3)]] by simp_all
  have "view t1 = view_step (view t) (store_operands (machine t0) i)"
    using step_refines_view [OF assms(4) c] v by simp
  moreover have "\<exists>p key. reg (machine t0) a = Inr p \<and> mem_region (machine t0) p 32 = Some key \<and>
      set_reg (machine t0) d (view t key) = Inr (machine t1)" if "i = SLoad d a" for d a
    using sload_view [OF _ c, of d a st t1] assms(4) v that by (auto simp: step_host)
  ultimately show ?thesis by blast
qed

lemma storage_refines_map_witness:
  "fetch at_store = (Inr (SStore 0 1, in_store) :: exn + _) \<and>
   view at_halt = view_step (view at_store) (store_operands (machine in_store) (SStore 0 1))"
  using storage_refines_map [OF sample_host sample_turns(1) sample_fetch sample_step] sample_fetch by simp

section \<open>Instructions\<close>

text \<open>C17. At every turn of a run an instruction ends with a result or with one of the faults of
  its own kind, never with a panic and never with another instruction's fault.\<close>

theorem instruction_faults:
  assumes "host_start P s" and "turns P s n t" and "fetch t = Inr (i, t0)" and "step P t0 i = Inl x"
  shows "\<exists>e \<in> faults_of i. x = Fault e"
proof -
  note h = host_turns [OF assms(1,2)]
  have "wf_machine (machine t0)"
    using shape.fetch_keeps [OF h(1) assms(3)] by (simp add: wf_interp_def)
  moreover have "event_records t0 = event_records t"
    using assms(3) by (auto simp: fetch_Inr_iff)
  moreover have "unat (event_records t) + 1 < 2 ^ 64"
    using h(2) by (intro ledger_event_room) (simp add: paid_up_def)
  ultimately have "within (faults_of i) (step P t0 i)"
    using fetch_wf_instr [OF assms(3)] by (intro step_within) simp_all
  then show ?thesis
    using assms(4) by (simp add: within_def)
qed

lemma instruction_faults_witness:
  "step sample_prims in_div (Div 0 1 2) = Inl (Fault DivByZero) \<and> DivByZero \<in> faults_of (Div 0 1 2)"
proof -
  have "host_start sample_prims sample_div"
    unfolding sample_div_def by (rule host_start.intros)
  then show ?thesis
    using instruction_faults [OF _ turns.none sample_div_fetch sample_div_step] sample_div_step by simp
qed

text \<open>C33. A call comes back: \<open>Call\<close> saves the offset of the instruction behind it, and a \<open>Ret\<close> on the
  stack it left restores the stack and jumps there, if that offset is an instruction, and faults with
  \<open>BadJump\<close> if it is not, as for a call at the end of the code.\<close>

theorem call_returns:
  assumes "step P s (Call target) = Inr (st, s1)"
    and "stack (machine s2) = stack (machine s1)" and "bounds s2 = bounds s"
  shows "st = JumpTo target \<and> target |\<in>| bounds s \<and>
    step P s2 Ret =
      (if mpc (machine s) |\<in>| bounds s
       then Inr (JumpTo (mpc (machine s)), s2\<lparr>machine := (machine s2)\<lparr>stack := stack (machine s)\<rparr>\<rparr>)
       else Inl (Fault BadJump))"
proof -
  have push: "push (machine s) (ucast (mpc (machine s))) = (True, machine s1)" and "st = JumpTo target" "target |\<in>| bounds s"
    using assms(1) by (auto simp: step_def exec_call_def)
  moreover have "machine s1 = (machine s)\<lparr>stack := stack (machine s) @ [ucast (mpc (machine s))]\<rparr>"
    using push by (simp add: push_def split: if_splits)
  then have "stack (machine s2) = stack (machine s) @ [ucast (mpc (machine s))]"
    using assms(2) by simp
  moreover have "unat (ucast (mpc (machine s)) :: u64) = unat (mpc (machine s))"
    using unat_bound [of "mpc (machine s)"] by (simp add: unsigned_ucast_eq take_bit_nat_eq_self)
  moreover have "ucast (ucast (mpc (machine s)) :: u64) = mpc (machine s)"
    by (rule ucast_up_ucast_id) (simp add: is_up)
  ultimately show ?thesis
    using assms(3) unat_bound [of "mpc (machine s)"]
    by (simp add: step_def exec_ret_def pop_def jump_to_def target_ok_def)
qed

lemma call_returns_witness:
  "\<exists>s1 s3. step sample_prims sample_start (Call 15) = Inr (JumpTo 15, s1) \<and>
     step sample_prims s1 Ret = Inr (JumpTo 0, s3)"
proof -
  have s: "stack (machine sample_start) = []"
    by (simp add: sample_start_def hosted_def with_memory_def with_storage_loader_def with_storage_def Let_def
        entered_def new_machine_def)
  then obtain s1 where s1: "step sample_prims sample_start (Call 15) = Inr (JumpTo 15, s1)" "bounds s1 = bounds sample_start"
    by (auto simp: step_def exec_call_def sample_fields push_def STACK_LIMIT_def)
  then show ?thesis
    using call_returns [OF s1(1) refl s1(2)] by (auto simp: sample_fields)
qed

lemma charge_room:
  assumes "unat (meter_used s) + unat a \<le> unat (meter_limit s)"
  obtains u where "charge a s = Inr (s\<lparr>meter_used := u\<rparr>)"
proof -
  obtain u :: u64 where "unat u = unat (meter_used s) + unat a"
    using word_of_nat [OF assms] by blast
  then have "charge a s = Inr (s\<lparr>meter_used := u\<rparr>)"
    using assms by (auto simp: word_le_nat_alt)
  then show ?thesis
    by (rule that)
qed

text \<open>C21. The firewall: when the hash primitive panics on the bytes of a \<open>Hash\<close>, the instruction
  ends with \<open>CryptoFault\<close>, and when it returns, its digest is what the memory then holds.\<close>

theorem hash_firewall:
  assumes "wf_machine (machine s)" and "reg (machine s) a = Inr p" and "reg (machine s) b = Inr n"
    and "reg (machine s) c = Inr out" and "mem_region (machine s) p n = Some region"
    and "unat (meter_used s) + unat (hash_variable n) \<le> unat (meter_limit s)"
  shows "case p_sha3_256 P region of
      None \<Rightarrow> step P s (Hash a b c) = Inl (Fault CryptoFault)
    | Some d \<Rightarrow> \<forall>st s'. step P s (Hash a b c) = Inr (st, s') \<longrightarrow>
        mem_region (machine s') out 32 = Some (digest_bytes d)"
proof (cases "p_sha3_256 P region")
  case None
  obtain u where u: "charge (hash_variable n) s = Inr (s\<lparr>meter_used := u\<rparr>)"
    using charge_room [OF assms(6)] .
  have "hash P (machine s) a b c = Inl Panic"
    using assms(2-5) None by (simp add: hash_def sha3_256_def call_def)
  then have "step P s (Hash a b c) = Inl (Fault CryptoFault)"
    using u assms(2-4) by (simp add: step_host exec_hash_def run_crypto_def del: charge_Inr_iff)
  with None show ?thesis by simp
next
  case (Some d)
  have "mem_region (machine s') out 32 = Some (digest_bytes d)" if "step P s (Hash a b c) = Inr (st, s')" for st s'
    using that unfolding step_host
  proof (rule exec_hash_InrD)
    fix p' n' out' region' d' m u
    assume r: "reg (machine s) a = Inr p'" "reg (machine s) b = Inr n'" "reg (machine s) c = Inr out'"
      "mem_region (machine s) p' n' = Some region'" "p_sha3_256 P region' = Some d'"
      and w: "mem_write (machine s) out' (digest_bytes d') = (True, m)"
      and t: "taint_keyed_from_hash
        (if n' \<ge> 8 then map_option from_be (mem_region (machine s) p' 8) else None) out'
        (s\<lparr>meter_used := u, machine := m\<rparr>) = Inr s'"
    have "machine s' = m"
      using mpc_taint [OF t] by simp
    then show ?thesis
      using machine_mem.read_written [OF assms(1) w, of 32] r assms(2-5) Some by simp
  qed
  with Some show ?thesis by simp
qed

text \<open>A hash that panics.\<close>

lemma hash_firewall_witness:
  "step (sample_prims\<lparr>p_sha3_256 := \<lambda>_. None\<rparr>) sample_div (Hash 0 1 2) = Inl (Fault CryptoFault)"
proof -
  have m: "wf_machine (machine sample_div)" "reg (machine sample_div) r = Inr 0" if "unat r < 16" for r
    using that
    by (simp_all add: sample_div_def for_unchecked_program_def new_interp_def reg_def) (simp add: new_machine_def NUM_REGS_def)
  have region: "mem_region (machine sample_div) 0 0 = Some []"
    using m(1) [of 0] by (simp add: mem_region_iff)
  have "unat (meter_used sample_div) + unat (hash_variable 0) \<le> unat (meter_limit sample_div)"
    by (simp add: sample_div_def for_unchecked_program_def new_interp_def hash_variable_def unat_keccak_charge
        HASH_BLOCK_def)
  then show ?thesis
    using hash_firewall [OF m(1) m(2) m(2) m(2) region, of 0 0 1 2 "sample_prims\<lparr>p_sha3_256 := \<lambda>_. None\<rparr>"]
    by simp
qed

text \<open>C22. The verdict on a signature: where the meter has room for the message, on a region that
  holds a key, a signature and a message, \<open>VerifyMl\<close> leaves 1 in its result register when the key is not degenerate and the primitive
  accepts the message under the virtual machine's context, and else 0; a panic of the primitive
  is the fault \<open>CryptoFault\<close>, and a region too short for a key and a signature \<open>BadMemory\<close>.\<close>

theorem signature_verdict:
  assumes "wf_machine (machine s)" and "unat c < NUM_REGS"
    and "reg (machine s) a = Inr p" and "reg (machine s) b = Inr n"
    and "mem_region (machine s) p n = Some region"
    and "unat (meter_used s) + unat (message_variable (saturating_sub n (ML_DSA_SIGNED_BYTES P))) \<le> unat (meter_limit s)"
    and "pk = take (p_ml_pk_bytes P) region" and "rest = drop (p_ml_pk_bytes P) region"
  shows "if length region < p_ml_pk_bytes P + p_ml_sig_bytes P
    then step P s (VerifyMl a b c) = Inl (Fault BadMemory)
    else (case p_ml_degenerate P pk of
        None \<Rightarrow> step P s (VerifyMl a b c) = Inl (Fault CryptoFault)
      | Some True \<Rightarrow> leaves (step P s (VerifyMl a b c)) c 0
      | Some False \<Rightarrow>
          (case p_ml_verify P pk (drop (p_ml_sig_bytes P) rest) (take (p_ml_sig_bytes P) rest) VM_VERIFY_CONTEXT of
             None \<Rightarrow> step P s (VerifyMl a b c) = Inl (Fault CryptoFault)
           | Some ok \<Rightarrow> leaves (step P s (VerifyMl a b c)) c (of_bool ok)))"
proof -
  obtain u where u: "charge (message_variable (saturating_sub n (ML_DSA_SIGNED_BYTES P))) s = Inr (s\<lparr>meter_used := u\<rparr>)"
    using charge_room [OF assms(6)] .
  define r where "r = verify_ml P (machine s) a b c"
  have st: "step P s (VerifyMl a b c) =
      bindE (run_crypto (\<lambda>m. r) (s\<lparr>meter_used := u\<rparr>)) (\<lambda>s. Inr (Next, s))"
    using u assms(4) by (simp add: step_def exec_verify_def r_def run_crypto_def del: charge_Inr_iff)
  have left: "leaves (step P s (VerifyMl a b c)) c v"
    if "r = set_reg (machine s) c w" "unat w = v" for v w
    using that assms(1,2) by (simp add: st leaves_def run_crypto_def set_reg_def wf_machine_def word_value_def)
  have r: "r = (if length region < p_ml_pk_bytes P + p_ml_sig_bytes P then Inl (Fault BadMemory)
      else bindE (call (p_ml_degenerate P pk)) (\<lambda>degenerate.
        bindE (if degenerate then Inr False
          else call (p_ml_verify P pk (drop (p_ml_sig_bytes P) rest) (take (p_ml_sig_bytes P) rest) VM_VERIFY_CONTEXT))
          (\<lambda>ok. set_reg (machine s) c (of_bool ok))))"
    using assms(3-5) unfolding assms(7,8)
    by (simp add: r_def verify_ml_def Let_def add.commute cong: if_cong del: bindE_Inr_iff)
  show ?thesis
    using left r by (auto simp: st run_crypto_def call_def split: option.split bool.split)
qed

text \<open>A region that holds a key, a signature and a message equal to it.\<close>

definition sample_signed :: interp where
  "sample_signed = (let s = with_memory [1, 2, 7, 7, 7, 7, 7, 7] (for_unchecked_program [] [] 1000) in
     s\<lparr>machine := (machine s)\<lparr>regs := (replicate 16 0)[1 := 8]\<rparr>\<rparr>)"

lemma sample_signed_fields:
  "wf_machine (machine sample_signed)" "regs (machine sample_signed) = (replicate 16 0)[1 := 8]"
  "meter_used sample_signed = 0" "meter_limit sample_signed = 1000"
  "mem_region (machine sample_signed) 0 8 = Some [1, 2, 7, 7, 7, 7, 7, 7]"
proof -
  show wf: "wf_machine (machine sample_signed)"
    by (simp add: sample_signed_def Let_def with_memory_def for_unchecked_program_def new_interp_def new_machine_def
        wf_machine_def NUM_REGS_def MEM_BYTES_def)
  have "take 8 (mem (machine sample_signed)) = [1, 2, 7, 7, 7, 7, 7, 7]"
    by (simp add: sample_signed_def Let_def with_memory_def for_unchecked_program_def new_interp_def new_machine_def
        copy_into_def MEM_BYTES_def)
  then show "mem_region (machine sample_signed) 0 8 = Some [1, 2, 7, 7, 7, 7, 7, 7]"
    using wf by (simp add: mem_region_iff MEM_BYTES_def)
qed (simp_all add: sample_signed_def Let_def with_memory_def for_unchecked_program_def new_interp_def)

lemma signature_verdict_witness: "leaves (step sample_prims sample_signed (VerifyMl 0 1 2)) 2 1"
proof -
  have regs: "reg (machine sample_signed) 0 = Inr 0" "reg (machine sample_signed) 1 = Inr 8"
    by (simp_all add: reg_def sample_signed_fields)
  have "unat (meter_used sample_signed) + unat (message_variable (saturating_sub 8 (ML_DSA_SIGNED_BYTES sample_prims))) \<le>
      unat (meter_limit sample_signed)"
    by (simp add: sample_signed_fields ML_DSA_SIGNED_BYTES_def sample_prims_def saturating_sub_def message_variable_def
        unat_keccak_charge VERIFY_MESSAGE_BLOCK_def)
  from signature_verdict [OF sample_signed_fields(1) _ regs sample_signed_fields(5) this refl refl, of 2]
  show ?thesis
    by (simp add: sample_prims_def NUM_REGS_def)
qed

end
